(* ===== verification/Prelude.thy ===== *)
theory Prelude
  imports Main "HOL-Library.Word"
begin

text \<open>
  The vocabulary every component of the development shares: bytes and byte strings,
  the four ways a Go call of this program can end, the state-passing form of the
  handlers that touch the database or the chain, and the generic lemmas on them.
  A Go \<^verbatim>\<open>string\<close> is the \<^typ>\<open>string\<close> of its bytes, a \<^verbatim>\<open>[]byte\<close> and a fixed
  array \<^verbatim>\<open>[n]byte\<close> are lists of 8-bit words (the length of an array is part of the
  well-formedness predicates of the theory \<^verbatim>\<open>Types\<close>), and a \<^verbatim>\<open>uint64\<close> keeps
  its width.
\<close>

type_synonym byte = "8 word"
type_synonym bytes = "byte list"
type_synonym u8 = "8 word"
type_synonym u64 = "64 word"
type_synonym i32 = "32 word"

section \<open>Outcomes of a Go call\<close>

text \<open>
  A call returns a value, returns a non-nil \<^verbatim>\<open>error\<close> (its message is kept, since
  \<^verbatim>\<open>isIgnorable\<close> reads it), panics, or ends the process through \<^verbatim>\<open>log.Fatal\<close>.
\<close>

datatype 'a res = Ok 'a | Err string | Panic string | Exit string

fun bindR :: "'a res \<Rightarrow> ('a \<Rightarrow> 'b res) \<Rightarrow> 'b res" where
  "bindR (Ok x) f = f x"
| "bindR (Err e) f = Err e"
| "bindR (Panic p) f = Panic p"
| "bindR (Exit e) f = Exit e"

text \<open>\<^verbatim>\<open>fmt.Errorf("ctx: %v", err)\<close> on the error branch of a call.\<close>

fun wrapR :: "string \<Rightarrow> 'a res \<Rightarrow> 'a res" where
  "wrapR ctx (Ok x) = Ok x"
| "wrapR ctx (Err e) = Err (ctx @ '': '' @ e)"
| "wrapR ctx (Panic p) = Panic p"
| "wrapR ctx (Exit e) = Exit e"

text \<open>\<^verbatim>\<open>if cond \<lbrace> return nil, err \<rbrace>\<close>.\<close>

definition guardR :: "bool \<Rightarrow> string \<Rightarrow> unit res" where
  "guardR bad e = (if bad then Err e else Ok ())"

text \<open>A panic, in any of the calls of a composite.\<close>

fun panics :: "'a res \<Rightarrow> bool" where
  "panics (Panic p) = True"
| "panics (Ok x) = False"
| "panics (Err e) = False"
| "panics (Exit e) = False"

fun is_ok :: "'a res \<Rightarrow> bool" where
  "is_ok (Ok x) = True"
| "is_ok (Err e) = False"
| "is_ok (Panic p) = False"
| "is_ok (Exit e) = False"

section \<open>State passing\<close>

text \<open>
  A handler is a function of the state that returns its outcome and the new state: what
  it has written stays written when a later step fails.
\<close>

type_synonym ('s, 'a) gm = "'s \<Rightarrow> 'a res \<times> 's"

definition retM :: "'a \<Rightarrow> ('s, 'a) gm" where
  "retM x = (\<lambda>s. (Ok x, s))"

definition liftR :: "'a res \<Rightarrow> ('s, 'a) gm" where
  "liftR r = (\<lambda>s. (r, s))"

definition bindM :: "('s, 'a) gm \<Rightarrow> ('a \<Rightarrow> ('s, 'b) gm) \<Rightarrow> ('s, 'b) gm" where
  "bindM m f = (\<lambda>s. case m s of
     (Ok x, t) \<Rightarrow> f x t
   | (Err e, t) \<Rightarrow> (Err e, t)
   | (Panic p, t) \<Rightarrow> (Panic p, t)
   | (Exit e, t) \<Rightarrow> (Exit e, t))"

text \<open>Continue with the error of a call at hand, as \<^verbatim>\<open>if err != nil\<close> does.\<close>

definition catchM :: "('s, 'a) gm \<Rightarrow> (string \<Rightarrow> ('s, 'a) gm) \<Rightarrow> ('s, 'a) gm" where
  "catchM m h = (\<lambda>s. case m s of
     (Ok x, t) \<Rightarrow> (Ok x, t)
   | (Err e, t) \<Rightarrow> h e t
   | (Panic p, t) \<Rightarrow> (Panic p, t)
   | (Exit e, t) \<Rightarrow> (Exit e, t))"

definition modifyM :: "('s \<Rightarrow> 's) \<Rightarrow> ('s, unit) gm" where
  "modifyM f = (\<lambda>s. (Ok (), f s))"

text \<open>Every run of a handler relates the state it starts from to the one it leaves.\<close>

definition keeps :: "('s \<Rightarrow> 's \<Rightarrow> bool) \<Rightarrow> ('s, 'a) gm \<Rightarrow> bool" where
  "keeps R m \<longleftrightarrow> (\<forall>s. R s (snd (m s)))"

text \<open>A sequence of labelled steps.\<close>

inductive trace :: "('s \<Rightarrow> 'e \<Rightarrow> 's \<Rightarrow> bool) \<Rightarrow> 's \<Rightarrow> 'e list \<Rightarrow> 's \<Rightarrow> bool"
  for step :: "'s \<Rightarrow> 'e \<Rightarrow> 's \<Rightarrow> bool" where
  trace_refl: "trace step s [] s"
| trace_step: "trace step s evs t \<Longrightarrow> step t ev u \<Longrightarrow> trace step s (evs @ [ev]) u"

section \<open>Slices and \<^verbatim>\<open>copy\<close>\<close>

text \<open>\<^verbatim>\<open>copy(dst, src)\<close>: as many bytes as both have; the rest of \<^verbatim>\<open>dst\<close> stays.\<close>

definition go_copy :: "'a list \<Rightarrow> 'a list \<Rightarrow> 'a list" where
  "go_copy dst src = take (length dst) src @ drop (length src) dst"

text \<open>
  \<^verbatim>\<open>copy(dst[lo:], src)\<close>: the slice expression panics when \<^verbatim>\<open>lo\<close> is past the end
  of \<^verbatim>\<open>dst\<close>. The offset is an integer, so that a negative one is a panic too.
\<close>

definition copy_at :: "'a list \<Rightarrow> int \<Rightarrow> 'a list \<Rightarrow> 'a list res" where
  "copy_at dst lo src =
     (if lo < 0 \<or> int (length dst) < lo then Panic ''slice bounds out of range''
      else Ok (take (nat lo) dst @ go_copy (drop (nat lo) dst) src))"

text \<open>\<^verbatim>\<open>copy(dst[lo:hi], src)\<close> with constant bounds inside \<^verbatim>\<open>dst\<close>.\<close>

definition copy_range :: "'a list \<Rightarrow> nat \<Rightarrow> nat \<Rightarrow> 'a list \<Rightarrow> 'a list" where
  "copy_range dst lo hi src = take lo dst @ go_copy (take (hi - lo) (drop lo dst)) src @ drop hi dst"

definition zeros :: "nat \<Rightarrow> bytes" where
  "zeros n = replicate n 0"

section \<open>Lemmas\<close>

named_theorems go_simps \<open>unfolding rules of the outcome and state combinators\<close>
named_theorems len_simps \<open>lengths of the byte strings the components build\<close>

lemma bindR_Ok_iff [simp]: "bindR r f = Ok y \<longleftrightarrow> (\<exists>x. r = Ok x \<and> f x = Ok y)"
  by (cases r) auto

lemma bindR_Panic_iff: "bindR r f = Panic p \<longleftrightarrow> r = Panic p \<or> (\<exists>x. r = Ok x \<and> f x = Panic p)"
  by (cases r) auto

lemma bindR_Err_iff: "bindR r f = Err e \<longleftrightarrow> r = Err e \<or> (\<exists>x. r = Ok x \<and> f x = Err e)"
  by (cases r) auto

lemma bindR_Exit_iff: "bindR r f = Exit e \<longleftrightarrow> r = Exit e \<or> (\<exists>x. r = Ok x \<and> f x = Exit e)"
  by (cases r) auto

lemma wrapR_Exit_iff [simp]: "wrapR c r = Exit p \<longleftrightarrow> r = Exit p"
  by (cases r) auto

lemma wrapR_Ok_iff [simp]: "wrapR c r = Ok y \<longleftrightarrow> r = Ok y"
  by (cases r) auto

lemma wrapR_Panic_iff [simp]: "wrapR c r = Panic p \<longleftrightarrow> r = Panic p"
  by (cases r) auto

lemma guardR_Ok_iff [simp]: "guardR b e = Ok u \<longleftrightarrow> \<not> b"
  by (auto simp: guardR_def)

lemma guardR_not_Panic [simp]: "guardR b e \<noteq> Panic p"
  by (auto simp: guardR_def)

lemma panics_iff: "panics r \<longleftrightarrow> (\<exists>p. r = Panic p)"
  by (cases r) auto

lemma is_ok_iff: "is_ok r \<longleftrightarrow> (\<exists>x. r = Ok x)"
  by (cases r) auto

lemma panics_bindR: "panics (bindR r f) \<longleftrightarrow> panics r \<or> (\<exists>x. r = Ok x \<and> panics (f x))"
  by (cases r) auto

lemma panics_wrapR [simp]: "panics (wrapR c r) \<longleftrightarrow> panics r"
  by (cases r) auto

lemma bindM_Ok_iff:
  "bindM m f s = (Ok y, t) \<longleftrightarrow> (\<exists>x u. m s = (Ok x, u) \<and> f x u = (Ok y, t))"
  by (auto simp: bindM_def split: prod.splits res.splits)

lemma bindM_cases:
  assumes "bindM m f s = (r, t)"
  obtains (ok) x u where "m s = (Ok x, u)" and "f x u = (r, t)"
  | (err) e where "m s = (Err e, t)" and "r = Err e"
  | (panic) p where "m s = (Panic p, t)" and "r = Panic p"
  | (exit) e where "m s = (Exit e, t)" and "r = Exit e"
  using assms by (auto simp: bindM_def split: prod.splits res.splits)

lemma retM_apply [simp, go_simps]: "retM x s = (Ok x, s)"
  by (simp add: retM_def)

lemma liftR_apply [simp, go_simps]: "liftR r s = (r, s)"
  by (simp add: liftR_def)

lemma modifyM_apply [simp, go_simps]: "modifyM f s = (Ok (), f s)"
  by (simp add: modifyM_def)

lemma bindM_apply [go_simps]:
  "bindM m f s = (case m s of (Ok x, t) \<Rightarrow> f x t | (Err e, t) \<Rightarrow> (Err e, t)
     | (Panic p, t) \<Rightarrow> (Panic p, t) | (Exit e, t) \<Rightarrow> (Exit e, t))"
  by (simp add: bindM_def)

lemma catchM_apply [go_simps]:
  "catchM m h s = (case m s of (Ok x, t) \<Rightarrow> (Ok x, t) | (Err e, t) \<Rightarrow> h e t
     | (Panic p, t) \<Rightarrow> (Panic p, t) | (Exit e, t) \<Rightarrow> (Exit e, t))"
  by (simp add: catchM_def)

text \<open>
  A relation that is reflexive and transitive is a footprint: a handler stays within it when
  each of its calls does.
\<close>

locale footprint =
  fixes R :: "'s \<Rightarrow> 's \<Rightarrow> bool"
  assumes refl: "R s s" and trans: "R s t \<Longrightarrow> R t u \<Longrightarrow> R s u"
begin

lemma keepsD: "keeps R m \<Longrightarrow> m s = (r, t) \<Longrightarrow> R s t"
  unfolding keeps_def by (metis snd_conv)

lemma keeps_retM [intro!]: "keeps R (retM x)"
  by (simp add: keeps_def refl)

lemma keeps_liftR [intro!]: "keeps R (liftR r)"
  by (simp add: keeps_def refl)

lemma keeps_bindM [intro!]:
  assumes "keeps R m" and "\<And>x. keeps R (f x)" shows "keeps R (bindM m f)"
  unfolding keeps_def
proof
  fix s
  obtain r t where m: "m s = (r, t)" by (cases "m s")
  then have "R s t" using assms(1) by (rule keepsD [rotated])
  moreover have "R t (snd (f x t))" for x using assms(2) by (simp add: keeps_def)
  ultimately show "R s (snd (bindM m f s))"
    using m by (cases r) (auto simp: bindM_def intro: trans)
qed

lemma keeps_catchM [intro!]:
  assumes "keeps R m" and "\<And>e. keeps R (h e)" shows "keeps R (catchM m h)"
  unfolding keeps_def
proof
  fix s
  obtain r t where m: "m s = (r, t)" by (cases "m s")
  then have "R s t" using assms(1) by (rule keepsD [rotated])
  moreover have "R t (snd (h e t))" for e using assms(2) by (simp add: keeps_def)
  ultimately show "R s (snd (catchM m h s))"
    using m by (cases r) (auto simp: catchM_def intro: trans)
qed

end

lemma keeps_if [intro!]: "(b \<Longrightarrow> keeps R m) \<Longrightarrow> (\<not> b \<Longrightarrow> keeps R n) \<Longrightarrow> keeps R (if b then m else n)"
  by simp

lemma keeps_prod [intro!]: "(\<And>a b. keeps R (f a b)) \<Longrightarrow> keeps R (case p of (a, b) \<Rightarrow> f a b)"
  by (cases p) simp

lemma keeps_option [intro!]:
  "keeps R m \<Longrightarrow> (\<And>x. keeps R (f x)) \<Longrightarrow> keeps R (case v of None \<Rightarrow> m | Some x \<Rightarrow> f x)"
  by (cases v) simp_all

lemma keeps_sum [intro!]:
  "(\<And>x. keeps R (f x)) \<Longrightarrow> (\<And>x. keeps R (g x)) \<Longrightarrow> keeps R (case v of Inl x \<Rightarrow> f x | Inr x \<Rightarrow> g x)"
  by (cases v) simp_all

lemma trace_append: "trace step t evs' u \<Longrightarrow> trace step s evs t \<Longrightarrow> trace step s (evs @ evs') u"
proof (induction rule: trace.induct)
  case (trace_refl s)
  then show ?case by simp
next
  case (trace_step s' evs' t' ev u)
  then show ?case using trace.trace_step [of step s "evs @ evs'" t' ev u] by simp
qed

lemma trace_one: "step s ev t \<Longrightarrow> trace step s [ev] t"
  using trace.trace_step [OF trace.trace_refl, of step s ev t] by simp

lemma trace_invariant:
  assumes "trace step s evs t" and "P s" and "\<And>s ev t. step s ev t \<Longrightarrow> P s \<Longrightarrow> P t"
  shows "P t"
  using assms by (induction rule: trace.induct) blast+

lemma length_zeros [simp, len_simps]: "length (zeros n) = n"
  by (simp add: zeros_def)

lemma length_go_copy [simp, len_simps]: "length (go_copy dst src) = length dst"
  by (simp add: go_copy_def)

lemma go_copy_exact [simp]: "length src = length dst \<Longrightarrow> go_copy dst src = src"
  by (simp add: go_copy_def)

lemma length_copy_range [len_simps]:
  "lo \<le> hi \<Longrightarrow> hi \<le> length dst \<Longrightarrow> length (copy_range dst lo hi src) = length dst"
  by (simp add: copy_range_def)

lemma copy_range_exact:
  "length a = lo \<Longrightarrow> length m = hi - lo \<Longrightarrow> lo \<le> hi \<Longrightarrow> length src = hi - lo \<Longrightarrow>
     copy_range (a @ m @ b) lo hi src = a @ src @ b"
  by (simp add: copy_range_def)

lemma length_copy_at [len_simps]: "copy_at dst lo src = Ok xs \<Longrightarrow> length xs = length dst"
  by (auto simp: copy_at_def split: if_splits)

lemma copy_at_panics_iff: "panics (copy_at dst lo src) \<longleftrightarrow> lo < 0 \<or> int (length dst) < lo"
  by (simp add: copy_at_def)

text \<open>A copy that right-aligns the source in the destination.\<close>

lemma copy_at_right_aligned:
  assumes "length src \<le> n"
  shows "copy_at (zeros n) (int n - int (length src)) src = Ok (zeros (n - length src) @ src)"
proof -
  have "nat (int n - int (length src)) = n - length src"
    using assms by simp
  then show ?thesis
    using assms by (simp add: copy_at_def zeros_def)
qed

end
