(* ===== verification/GoStd.thy ===== *)
theory GoStd
  imports Prelude
begin

text \<open>
  What the program uses of the Go standard library: \<^verbatim>\<open>encoding/hex\<close>,
  \<^verbatim>\<open>math/big\<close> (decimal parsing and big-endian bytes), \<^verbatim>\<open>encoding/binary\<close>,
  \<^verbatim>\<open>strings\<close> and the decimal and hexadecimal verbs of \<^verbatim>\<open>fmt\<close>, with the
  round trips the components rest on.
\<close>

section \<open>Strings and bytes\<close>

definition bytes_of_string :: "string \<Rightarrow> bytes" where
  "bytes_of_string s = map of_char s"

definition string_of_bytes :: "bytes \<Rightarrow> string" where
  "string_of_bytes bs = map (\<lambda>b. char_of (unat b)) bs"

text \<open>\<^verbatim>\<open>strings.TrimPrefix\<close>: one occurrence at most.\<close>

definition trim_prefix :: "string \<Rightarrow> string \<Rightarrow> string" where
  "trim_prefix s p = (if take (length p) s = p then drop (length p) s else s)"

text \<open>\<^verbatim>\<open>strings.Contains\<close>.\<close>

fun contains :: "string \<Rightarrow> string \<Rightarrow> bool" where
  "contains [] p = (p = [])"
| "contains (c # s) p = (take (length p) (c # s) = p \<or> contains s p)"

text \<open>\<^verbatim>\<open>strings.Split\<close> on a separator of one byte: always at least one piece.\<close>

fun split_on :: "char \<Rightarrow> string \<Rightarrow> string list" where
  "split_on d [] = [[]]"
| "split_on d (c # s) =
     (if c = d then [] # split_on d s
      else (case split_on d s of [] \<Rightarrow> [[c]] | p # ps \<Rightarrow> (c # p) # ps))"

text \<open>\<^verbatim>\<open>strings.ToLower\<close> on ASCII, the only letters an address or a secret has.\<close>

definition lower_char :: "char \<Rightarrow> char" where
  "lower_char c = (let n = (of_char c :: nat) in if 65 \<le> n \<and> n \<le> 90 then char_of (n + 32) else c)"

definition to_lower :: "string \<Rightarrow> string" where
  "to_lower s = map lower_char s"

section \<open>\<^verbatim>\<open>encoding/hex\<close>\<close>

definition hex_digit :: "nat \<Rightarrow> char" where
  "hex_digit n = (if n < 10 then char_of (n + 48) else char_of (n + 87))"

definition hex_byte :: "byte \<Rightarrow> string" where
  "hex_byte b = [hex_digit (unat b div 16), hex_digit (unat b mod 16)]"

text \<open>\<^verbatim>\<open>hex.EncodeToString\<close>, and the verb \<^verbatim>\<open>%x\<close> on a byte slice.\<close>

definition hex_encode :: "bytes \<Rightarrow> string" where
  "hex_encode bs = concat (map hex_byte bs)"

text \<open>The reverse table: digits of either case.\<close>

definition hex_val :: "char \<Rightarrow> nat option" where
  "hex_val c = (let n = (of_char c :: nat) in
     if 48 \<le> n \<and> n \<le> 57 then Some (n - 48)
     else if 97 \<le> n \<and> n \<le> 102 then Some (n - 87)
     else if 65 \<le> n \<and> n \<le> 70 then Some (n - 55)
     else None)"

text \<open>\<^verbatim>\<open>InvalidByteError\<close> prints its byte with the verb \<^verbatim>\<open>%#U\<close>.\<close>

definition hex_digit_upper :: "nat \<Rightarrow> char" where
  "hex_digit_upper n = (if n < 10 then char_of (n + 48) else char_of (n + 55))"

definition fmt_rune :: "char \<Rightarrow> string" where
  "fmt_rune c = (let n = (of_char c :: nat) in
     ''U+00'' @ [hex_digit_upper (n div 16), hex_digit_upper (n mod 16)] @
     (if 32 \<le> n \<and> n < 127 then '' '' @ [CHR 39, c, CHR 39]
      else if 161 \<le> n \<and> n \<noteq> 173
        then '' '' @ [CHR 39, char_of (192 + n div 64), char_of (128 + n mod 64), CHR 39]
      else []))"

definition invalid_byte :: "char \<Rightarrow> string" where
  "invalid_byte c = ''encoding/hex: invalid byte: '' @ fmt_rune c"

abbreviation err_length :: string where
  "err_length \<equiv> ''encoding/hex: odd length hex string''"

abbreviation index_panic :: string where
  "index_panic \<equiv> ''index out of range''"

text \<open>
  \<^verbatim>\<open>hex.Decode(dst, src)\<close> with \<^verbatim>\<open>room\<close> bytes left in \<^verbatim>\<open>dst\<close>: pairs are decoded
  and stored one by one, an invalid digit stops it, storing past the end of \<^verbatim>\<open>dst\<close>
  panics, and an odd trailing digit is an error. The result is the bytes stored.
\<close>

fun hex_decode_into :: "nat \<Rightarrow> string \<Rightarrow> bytes res" where
  "hex_decode_into room [] = Ok []"
| "hex_decode_into room [p] =
     (case hex_val p of None \<Rightarrow> Err (invalid_byte p) | Some a \<Rightarrow> Err err_length)"
| "hex_decode_into room (p # q # s) =
     (case hex_val p of
        None \<Rightarrow> Err (invalid_byte p)
      | Some a \<Rightarrow>
         (case hex_val q of
            None \<Rightarrow> Err (invalid_byte q)
          | Some b \<Rightarrow>
             (if room = 0 then Panic index_panic
              else bindR (hex_decode_into (room - 1) s) (\<lambda>bs. Ok (of_nat (16 * a + b) # bs)))))"

text \<open>\<^verbatim>\<open>hex.DecodeString\<close> allocates half the length of its argument.\<close>

definition hex_decode_string :: "string \<Rightarrow> bytes res" where
  "hex_decode_string s = hex_decode_into (length s div 2) s"

section \<open>\<^verbatim>\<open>math/big\<close> and \<^verbatim>\<open>encoding/binary\<close>\<close>

definition digit_val :: "char \<Rightarrow> nat option" where
  "digit_val c = (let n = (of_char c :: nat) in if 48 \<le> n \<and> n \<le> 57 then Some (n - 48) else None)"

fun scan_digits :: "nat \<Rightarrow> string \<Rightarrow> nat option" where
  "scan_digits acc [] = Some acc"
| "scan_digits acc (c # s) =
     (case digit_val c of None \<Rightarrow> None | Some d \<Rightarrow> scan_digits (10 * acc + d) s)"

definition scan_nat :: "string \<Rightarrow> nat option" where
  "scan_nat s = (if s = [] then None else scan_digits 0 s)"

text \<open>
  \<^verbatim>\<open>new(big.Int).SetString(s, 10)\<close>: an optional sign, one or more decimal digits and
  nothing else (the underscore separators are for base 0 only).
\<close>

definition big_SetString10 :: "string \<Rightarrow> int option" where
  "big_SetString10 s = (case s of
     [] \<Rightarrow> None
   | c # r \<Rightarrow>
      (if c = CHR ''-'' then map_option (\<lambda>n. - int n) (scan_nat r)
       else if c = CHR ''+'' then map_option int (scan_nat r)
       else map_option int (scan_nat s)))"

text \<open>\<^verbatim>\<open>SetBytes\<close> reads big-endian bytes; \<^verbatim>\<open>Bytes\<close> writes the absolute value, no leading zero.\<close>

definition be_value :: "bytes \<Rightarrow> nat" where
  "be_value bs = foldl (\<lambda>a b. 256 * a + unat b) 0 bs"

fun be_bytes :: "nat \<Rightarrow> bytes" where
  "be_bytes n = (if n = 0 then [] else be_bytes (n div 256) @ [of_nat (n mod 256)])"

declare be_bytes.simps [simp del]

definition big_Bytes :: "int \<Rightarrow> bytes" where
  "big_Bytes i = be_bytes (nat \<bar>i\<bar>)"

text \<open>\<^verbatim>\<open>binary.BigEndian\<close> on a fixed-size integer of \<^verbatim>\<open>k\<close> bytes.\<close>

fun be_fixed :: "nat \<Rightarrow> nat \<Rightarrow> bytes" where
  "be_fixed 0 n = []"
| "be_fixed (Suc k) n = be_fixed k (n div 256) @ [of_nat (n mod 256)]"

section \<open>Decimal printing\<close>

fun dec_nat :: "nat \<Rightarrow> string" where
  "dec_nat n = (if n < 10 then [char_of (n + 48)] else dec_nat (n div 10) @ [char_of (n mod 10 + 48)])"

declare dec_nat.simps [simp del]

definition dec_int :: "int \<Rightarrow> string" where
  "dec_int i = (if i < 0 then CHR ''-'' # dec_nat (nat (- i)) else dec_nat (nat i))"

section \<open>Lemmas\<close>

subsection \<open>Strings\<close>

lemma length_string_of_bytes [simp]: "length (string_of_bytes bs) = length bs"
  by (simp add: string_of_bytes_def)

lemma length_bytes_of_string [simp, len_simps]: "length (bytes_of_string s) = length s"
  by (simp add: bytes_of_string_def)

lemma length_to_lower [simp]: "length (to_lower s) = length s"
  by (simp add: to_lower_def)

lemma unat_byte_lt [simp]: "unat (b :: byte) < 256"
  using unsigned_less [of b, where 'a = nat] by simp

lemma unat_of_nat_byte: "n < 256 \<Longrightarrow> unat (of_nat n :: byte) = n"
  by (simp add: unat_of_nat take_bit_eq_mod)

lemma of_char_less_256: "(of_char c :: nat) < 256"
  by (cases c) (simp add: of_char_def)

lemma unat_of_char [simp]: "unat (of_char c :: byte) = of_char c"
proof -
  have "unat (of_nat (of_char c) :: byte) = of_char c"
    by (simp add: unat_of_nat take_bit_eq_mod of_char_less_256)
  moreover have "of_nat (of_char c) = (of_char c :: byte)"
    by (cases c) (simp add: of_char_def)
  ultimately show ?thesis by simp
qed

lemma string_of_bytes_of_string [simp]: "string_of_bytes (bytes_of_string s) = s"
  by (induction s) (simp_all add: string_of_bytes_def bytes_of_string_def)

lemma bytes_of_string_of_bytes [simp]: "bytes_of_string (string_of_bytes bs) = bs"
proof -
  have "(of_char (char_of (unat b)) :: byte) = b" for b :: byte
  proof -
    have "unat (of_char (char_of (unat b)) :: byte) = unat b"
      by (simp only: unat_of_char of_char_of) simp
    then show ?thesis by (rule word_unat_eq_iff [THEN iffD2])
  qed
  then show ?thesis by (induction bs) (simp_all add: string_of_bytes_def bytes_of_string_def)
qed

lemma bytes_of_string_inj: "bytes_of_string s = bytes_of_string t \<longleftrightarrow> s = t"
  by (metis string_of_bytes_of_string)

lemma split_on_nonempty [simp]: "split_on d s \<noteq> []"
  by (induction s) (auto split: list.splits)

lemma split_on_none [simp]: "d \<notin> set s \<Longrightarrow> split_on d s = [s]"
  by (induction s) auto

lemma split_on_append: "d \<notin> set s \<Longrightarrow> split_on d (s @ d # t) = s # split_on d t"
  by (induction s) auto

lemma split_on_pair: "d \<notin> set s \<Longrightarrow> d \<notin> set t \<Longrightarrow> split_on d (s @ d # t) = [s, t]"
  by (simp add: split_on_append)

lemma split_on_no_sep: "p \<in> set (split_on d s) \<Longrightarrow> d \<notin> set p"
  by (induction s arbitrary: p) (auto split: if_splits list.splits)

lemma contains_append: "contains (s @ p @ t) p"
proof (induction s)
  case Nil
  have "take (length p) (p @ t) = p" by simp
  then show ?case by (cases "p @ t") auto
next
  case (Cons c s)
  then show ?case by simp
qed

lemma contains_iff: "contains s p \<longleftrightarrow> (\<exists>u v. s = u @ p @ v)"
proof
  show "contains s p \<Longrightarrow> \<exists>u v. s = u @ p @ v"
  proof (induction s)
    case Nil
    then show ?case by auto
  next
    case (Cons c s)
    then consider "take (length p) (c # s) = p" | "contains s p" by auto
    then show ?case
    proof cases
      case 1
      then have "c # s = [] @ p @ drop (length p) (c # s)"
        by (metis append_Nil append_take_drop_id)
      then show ?thesis by blast
    next
      case 2
      then obtain u v where "s = u @ p @ v" using Cons.IH by blast
      then have "c # s = (c # u) @ p @ v" by simp
      then show ?thesis by blast
    qed
  qed
qed (auto simp: contains_append)

lemma contains_prefix_append: "contains s p \<Longrightarrow> contains (u @ s) p"
  by (auto simp: contains_iff) (metis append.assoc)

subsection \<open>Hexadecimal\<close>

lemma hex_val_bound: "hex_val c = Some a \<Longrightarrow> a < 16"
  by (auto simp: hex_val_def Let_def split: if_splits)

lemma hex_val_digit [simp]: "n < 16 \<Longrightarrow> hex_val (hex_digit n) = Some n"
  by (auto simp: hex_val_def hex_digit_def Let_def)

lemma lower_hex_digit [simp]: "n < 16 \<Longrightarrow> lower_char (hex_digit n) = hex_digit n"
  by (auto simp: lower_char_def hex_digit_def Let_def)

lemma hex_val_lower [simp]: "hex_val (lower_char c) = hex_val c"
  by (auto simp: hex_val_def lower_char_def Let_def)

lemma char_eqI: "(of_char c :: nat) = of_char d \<Longrightarrow> c = d"
  by simp

lemma hex_digit_val: "hex_val c = Some a \<Longrightarrow> hex_digit a = lower_char c"
  by (rule char_eqI) (auto simp: hex_val_def hex_digit_def lower_char_def Let_def split: if_splits)

lemma unat_div16 [simp]: "unat (b :: byte) div 16 < 16"
  using unat_byte_lt [of b] by linarith

lemma length_hex_encode [simp, len_simps]: "length (hex_encode bs) = 2 * length bs"
  by (induction bs) (simp_all add: hex_encode_def hex_byte_def)

lemma hex_encode_Nil [simp]: "hex_encode [] = []"
  by (simp add: hex_encode_def)

lemma hex_encode_Cons [simp]:
  "hex_encode (b # bs) = hex_digit (unat b div 16) # hex_digit (unat b mod 16) # hex_encode bs"
  by (simp add: hex_encode_def hex_byte_def)

lemma hex_encode_append [simp]: "hex_encode (a @ b) = hex_encode a @ hex_encode b"
  by (simp add: hex_encode_def)

lemma byte_of_nibbles: "of_nat (16 * (unat (b :: byte) div 16) + unat b mod 16) = b"
proof -
  have "16 * (unat b div 16) + unat b mod 16 = unat b" by simp
  then show ?thesis by (simp only: of_nat_unat ucast_id)
qed

theorem hex_decode_encode:
  "hex_decode_into room (hex_encode bs) = (if length bs \<le> room then Ok bs else Panic index_panic)"
proof (induction bs arbitrary: room)
  case Nil
  show ?case by simp
next
  case (Cons b bs)
  show ?case
  proof (cases room)
    case 0
    then show ?thesis by simp
  next
    case (Suc m)
    then show ?thesis
      using Cons.IH [of m] byte_of_nibbles [of b] by simp
  qed
qed

lemma hex_decode_string_encode [simp]: "hex_decode_string (hex_encode bs) = Ok bs"
  by (simp add: hex_decode_string_def hex_decode_encode)

lemma hex_encode_inj: "hex_encode a = hex_encode b \<longleftrightarrow> a = b"
  by (metis hex_decode_string_encode res.inject(1))

lemma hex_decode_into_Ok:
  "hex_decode_into room s = Ok bs \<Longrightarrow> length s = 2 * length bs \<and> length bs \<le> room"
proof (induction room s arbitrary: bs rule: hex_decode_into.induct)
  case (3 room p q s)
  then show ?case by (fastforce split: option.splits if_splits)
qed (auto split: option.splits)

lemma hex_decode_into_lower: "hex_decode_into room s = Ok bs \<Longrightarrow> hex_encode bs = to_lower s"
proof (induction room s arbitrary: bs rule: hex_decode_into.induct)
  case (3 room p q s)
  then obtain a b cs where ab: "hex_val p = Some a" "hex_val q = Some b"
    and r: "hex_decode_into (room - 1) s = Ok cs" and room: "room \<noteq> 0"
    and bs: "bs = of_nat (16 * a + b) # cs"
    by (auto split: option.splits if_splits)
  have ih: "hex_encode cs = to_lower s"
    using 3 ab r room by blast
  have lt: "a < 16" "b < 16" using ab hex_val_bound by auto
  then have "unat (of_nat (16 * a + b) :: byte) = 16 * a + b"
    by (intro unat_of_nat_byte) simp
  then show ?case
    using bs ih ab lt by (simp add: to_lower_def hex_digit_val)
qed (auto simp: to_lower_def split: option.splits)

lemma hex_decode_into_panics:
  "panics (hex_decode_into room s) \<Longrightarrow> 2 * room + 2 \<le> length s"
proof (induction room s rule: hex_decode_into.induct)
  case (3 room p q s)
  then show ?case by (fastforce simp: panics_bindR split: option.splits if_splits)
qed (auto split: option.splits)

lemma hex_decode_into_OkI:
  "to_lower s = hex_encode bs \<Longrightarrow> length bs \<le> room \<Longrightarrow> hex_decode_into room s = Ok bs"
proof (induction bs arbitrary: room s)
  case Nil
  then show ?case by (simp add: to_lower_def)
next
  case (Cons b bs)
  then obtain p q t where s: "s = p # q # t"
    and p: "lower_char p = hex_digit (unat b div 16)" and q: "lower_char q = hex_digit (unat b mod 16)"
    and t: "to_lower t = hex_encode bs"
    by (auto simp: to_lower_def map_eq_Cons_conv)
  have "hex_val p = Some (unat b div 16)" "hex_val q = Some (unat b mod 16)"
    using hex_val_lower [of p] hex_val_lower [of q] p q by simp_all
  then show ?case
    using Cons.IH [OF t, of "room - 1"] Cons.prems(2) s byte_of_nibbles [of b] by simp
qed

text \<open>The decoded bytes are the ones whose hexadecimal form is the input, letter case aside.\<close>

lemma hex_decode_into_Ok_iff:
  "hex_decode_into room s = Ok bs \<longleftrightarrow> to_lower s = hex_encode bs \<and> length bs \<le> room"
  using hex_decode_into_OkI hex_decode_into_lower hex_decode_into_Ok by metis

text \<open>The decoder runs past its destination exactly when one pair of digits too many is there.\<close>

lemma hex_decode_into_panics_iff:
  "panics (hex_decode_into room s) \<longleftrightarrow>
     2 * room + 2 \<le> length s \<and> list_all (\<lambda>c. hex_val c \<noteq> None) (take (2 * room + 2) s)"
proof (induction room s rule: hex_decode_into.induct)
  case (3 room p q s)
  show ?case
  proof (cases "room = 0")
    case True
    then show ?thesis by (auto split: option.splits)
  next
    case False
    then obtain k where "room = Suc k" by (cases room) auto
    then show ?thesis using 3 by (auto simp: panics_bindR split: option.splits)
  qed
qed (auto split: option.splits)

lemma hex_decode_string_total: "\<not> panics (hex_decode_string s)"
  using hex_decode_into_panics [of "length s div 2" s] by (auto simp: hex_decode_string_def)

lemma hex_decode_into_no_exit [simp]: "hex_decode_into room s \<noteq> Exit e"
proof (induction room s rule: hex_decode_into.induct)
  case (3 room p q s)
  then show ?case
    by (cases "hex_decode_into (room - 1) s") (auto split: option.splits)
qed (auto split: option.splits)

subsection \<open>Big-endian integers\<close>

lemma be_value_Nil [simp]: "be_value [] = 0"
  by (simp add: be_value_def)

lemma be_value_snoc [simp]: "be_value (bs @ [b]) = 256 * be_value bs + unat b"
  by (simp add: be_value_def)

lemma be_value_append: "be_value (a @ b) = be_value a * 256 ^ length b + be_value b"
proof (induction b rule: rev_induct)
  case Nil
  show ?case by simp
next
  case (snoc x b)
  then have "be_value (a @ b @ [x]) = 256 * (be_value a * 256 ^ length b + be_value b) + unat x"
    by (metis append.assoc be_value_snoc)
  then show ?case by (simp add: algebra_simps)
qed

lemma be_value_zeros [simp]: "be_value (zeros n) = 0"
  by (induction n) (simp_all add: zeros_def be_value_def)

lemma be_value_lt: "be_value bs < 256 ^ length bs"
proof (induction bs rule: rev_induct)
  case Nil
  show ?case by simp
next
  case (snoc b bs)
  have "unat b < 256" by (rule unat_byte_lt)
  moreover have "256 * be_value bs + 256 \<le> 256 * 256 ^ length bs"
    using snoc by simp
  ultimately have "256 * be_value bs + unat b < 256 * 256 ^ length bs" by linarith
  then show ?case by simp
qed

lemma unat_of_nat_mod256 [simp]: "unat (of_nat (n mod 256) :: byte) = n mod 256"
  by (simp add: unat_of_nat take_bit_eq_mod)

lemma be_bytes_0 [simp]: "be_bytes 0 = []"
  by (simp add: be_bytes.simps)

lemma be_value_be_bytes [simp]: "be_value (be_bytes n) = n"
proof (induction n rule: be_bytes.induct)
  case (1 n)
  then show ?case by (cases "n = 0") (simp_all add: be_bytes.simps [of n])
qed

lemma length_be_bytes_le: "length (be_bytes n) \<le> k \<longleftrightarrow> n < 256 ^ k"
proof (induction n arbitrary: k rule: be_bytes.induct)
  case (1 n)
  show ?case
  proof (cases "n = 0")
    case True
    then show ?thesis by simp
  next
    case False
    show ?thesis
    proof (cases k)
      case 0
      then show ?thesis using False by (simp add: be_bytes.simps [of n])
    next
      case (Suc m)
      have "length (be_bytes n) \<le> k \<longleftrightarrow> length (be_bytes (n div 256)) \<le> m"
        using False Suc by (simp add: be_bytes.simps [of n])
      also have "\<dots> \<longleftrightarrow> n div 256 < 256 ^ m"
        using "1.IH" [OF False] by simp
      also have "\<dots> \<longleftrightarrow> n < 256 ^ k"
        using Suc by (simp add: div_less_iff_less_mult mult.commute)
      finally show ?thesis .
    qed
  qed
qed

lemma be_bytes_inj: "be_bytes m = be_bytes n \<longleftrightarrow> m = n"
  by (metis be_value_be_bytes)

lemma be_fixed_length [simp, len_simps]: "length (be_fixed k n) = k"
  by (induction k arbitrary: n) simp_all

lemma be_value_be_fixed [simp]: "be_value (be_fixed k n) = n mod 256 ^ k"
proof (induction k arbitrary: n)
  case 0
  show ?case by simp
next
  case (Suc k)
  have "n mod (256 * 256 ^ k) = 256 * (n div 256 mod 256 ^ k) + n mod 256"
    by (simp add: mod_mult2_eq)
  then show ?case using Suc by simp
qed

lemma be_value_inj: "length a = length b \<Longrightarrow> be_value a = be_value b \<longleftrightarrow> a = b"
proof (induction a arbitrary: b rule: rev_induct)
  case Nil
  then show ?case by simp
next
  case (snoc x a)
  then obtain y b' where b: "b = b' @ [y]"
    by (cases b rule: rev_cases) auto
  have xy: "unat x < 256" "unat y < 256" by simp_all
  show ?case
  proof
    assume "be_value (a @ [x]) = be_value b"
    then have eq: "256 * be_value a + unat x = 256 * be_value b' + unat y"
      using b by simp
    from eq have "be_value a = be_value b'" using xy by linarith
    with eq have "unat x = unat y" by simp
    moreover have "a = b'"
      using snoc.IH [of b'] snoc.prems b \<open>be_value a = be_value b'\<close> by simp
    ultimately show "a @ [x] = b"
      using b by (simp add: word_unat_eq_iff)
  qed simp
qed

lemma be_fixed_inj:
  "m < 256 ^ k \<Longrightarrow> n < 256 ^ k \<Longrightarrow> be_fixed k m = be_fixed k n \<longleftrightarrow> m = n"
  by (metis be_value_be_fixed mod_less)

lemma be_fixed_be_value: "length v = k \<Longrightarrow> be_fixed k (be_value v) = v"
  using be_value_inj [of "be_fixed k (be_value v)" v] be_value_lt [of v] by simp

text \<open>Left padding the shortest representation to \<^verbatim>\<open>k\<close> bytes is the fixed one.\<close>

lemma zeros_be_bytes:
  assumes "n < 256 ^ k"
  shows "zeros (k - length (be_bytes n)) @ be_bytes n = be_fixed k n"
proof -
  have "length (be_bytes n) \<le> k" using assms by (simp add: length_be_bytes_le)
  then have "length (zeros (k - length (be_bytes n)) @ be_bytes n) = length (be_fixed k n)"
    by simp
  moreover have "be_value (zeros (k - length (be_bytes n)) @ be_bytes n) = be_value (be_fixed k n)"
    using assms by (simp add: be_value_append)
  ultimately show ?thesis using be_value_inj by blast
qed

subsection \<open>Decimal\<close>

lemma digit_val_digit [simp]: "n < 10 \<Longrightarrow> digit_val (char_of (n + 48)) = Some n"
  by (simp add: digit_val_def Let_def)

lemma scan_digits_append:
  "scan_digits acc (s @ t) =
     (case scan_digits acc s of None \<Rightarrow> None | Some a \<Rightarrow> scan_digits a t)"
  by (induction s arbitrary: acc) (auto split: option.splits)

lemma dec_nat_nonempty [simp]: "dec_nat n \<noteq> []"
  by (subst dec_nat.simps) simp

lemma scan_dec_nat [simp]: "scan_digits 0 (dec_nat n) = Some n"
proof (induction n rule: dec_nat.induct)
  case (1 n)
  then show ?case
    by (cases "n < 10") (simp_all add: dec_nat.simps [of n] scan_digits_append)
qed

lemma dec_nat_digits: "c \<in> set (dec_nat n) \<Longrightarrow> digit_val c \<noteq> None"
proof (induction n rule: dec_nat.induct)
  case (1 n)
  then show ?case
    by (cases "n < 10") (auto simp: dec_nat.simps [of n])
qed

lemma scan_nat_sign [simp]: "scan_nat (CHR ''-'' # s) = None" "scan_nat (CHR ''+'' # s) = None"
  by (simp_all add: scan_nat_def digit_val_def)

theorem big_SetString10_dec: "big_SetString10 (dec_int i) = Some i"
proof -
  have hd: "\<exists>c r. dec_nat n = c # r \<and> c \<noteq> CHR ''-'' \<and> c \<noteq> CHR ''+''" for n
  proof -
    obtain c r where cr: "dec_nat n = c # r" by (cases "dec_nat n") auto
    then have "digit_val c \<noteq> None" using dec_nat_digits [of c n] by simp
    then show ?thesis using cr by (auto simp: digit_val_def)
  qed
  show ?thesis
  proof (cases "i < 0")
    case True
    then show ?thesis by (simp add: dec_int_def big_SetString10_def scan_nat_def)
  next
    case False
    then obtain c r where "dec_nat (nat i) = c # r" "c \<noteq> CHR ''-''" "c \<noteq> CHR ''+''"
      using hd by blast
    moreover have "scan_nat (dec_nat (nat i)) = Some (nat i)" by (simp add: scan_nat_def)
    ultimately show ?thesis using False by (simp add: dec_int_def big_SetString10_def)
  qed
qed

end
