(* ===== verification/Types.thy ===== *)
theory Types
  imports GoStd
begin

text \<open>
  The wire types of \<^verbatim>\<open>lib/types/types.go\<close>, field by field, and the GraphQL input and
  output types of \<^verbatim>\<open>graph/model/models_gen.go\<close> with the methods of its \<^verbatim>\<open>Asset\<close>
  enum. A fixed array is a byte list whose length the well-formedness predicate of its
  struct states; a pointer is an option; \<^verbatim>\<open>superposition_assets.Asset\<close>, the enum of a
  package the repository only imports, is its one-byte discriminant.
\<close>

section \<open>Wire types\<close>

type_synonym Asset = "8 word"
type_synonym borsh_Enum = "8 word"
type_synonym Sig = bytes
type_synonym ArgsAuthorityAddr = bytes
type_synonym Address = bytes

definition ArgsFreshBackwards :: borsh_Enum where "ArgsFreshBackwards = 0"
definition ArgsSolve :: borsh_Enum where "ArgsSolve = 1"
definition ArgsVersion :: borsh_Enum where "ArgsVersion = 2"
definition ArgsAuthority :: borsh_Enum where "ArgsAuthority = 3"
definition ArgsSolveV2 :: borsh_Enum where "ArgsSolveV2 = 4"
definition ArgsTransferOnly :: borsh_Enum where "ArgsTransferOnly = 5"
definition ArgsStatement :: borsh_Enum where "ArgsStatement = 6"
definition ArgsOwner :: borsh_Enum where "ArgsOwner = 7"
definition ArgsEd25519Key :: borsh_Enum where "ArgsEd25519Key = 8"
definition ArgsSolveV3 :: borsh_Enum where "ArgsSolveV3 = 9"
definition ArgsAssetsVersion :: borsh_Enum where "ArgsAssetsVersion = 10"

record Permit =
  permit_Asset :: Asset
  permit_Deadline :: u64
  permit_V :: u8
  permit_R :: bytes
  permit_S :: bytes

record FromArgs =
  from_Asset :: Asset
  from_ToTake :: bytes
  from_MaxUnspent :: bytes

record SolveArgs =
  sa_Permit :: "Permit list"
  sa_From :: "FromArgs list"
  sa_Target :: Address
  sa_Cd :: bytes
  sa_MsTs :: bytes

record SolveArgsSigArgs =
  sas_Sig :: Sig
  sas_Args :: SolveArgs

record FreshBackwards =
  fb_Key :: bytes
  fb_EoaAddr :: Address
  fb_V :: u8
  fb_R :: bytes
  fb_S :: bytes
  fb_SolveArgs :: "SolveArgsSigArgs list"
  fb_Authority :: "ArgsAuthorityAddr option"

record Solve =
  solve_Args :: "SolveArgsSigArgs list"

record SolveV2Args =
  v2a_Args :: "SolveArgs list"
  v2a_PermitOwner :: Address
  v2a_TransferOwner :: Address

record SolveV2 =
  v2_Args :: SolveV2Args
  v2_Sig :: Sig

record TransferPermit =
  tp_Deadline :: u64
  tp_V :: u8
  tp_R :: bytes
  tp_S :: bytes

record Transfer =
  tr_From :: Address
  tr_Asset :: Asset
  tr_Recipient :: Address
  tr_Amt :: bytes
  tr_Permit :: "TransferPermit option"

record TransferOnlyArgs =
  toa_Args :: "Transfer list"
  toa_MsTs :: bytes

record TransferOnly =
  to_Args :: TransferOnlyArgs
  to_Sig :: Sig

record StatementArgs =
  sta_Msg :: bytes
  sta_MsTs :: bytes

record Statement =
  st_Args :: StatementArgs
  st_Sig :: Sig

record SolveV3Args =
  v3a_Args :: "SolveArgs list"
  v3a_GasToken :: Asset
  v3a_GasTokenAmt :: u64
  v3a_GasTokenPermit :: "Permit option"

record SolveV3 =
  v3_Args :: SolveV3Args
  v3_Sig :: Sig

text \<open>
  The tagged union, as the Go struct has it: the tag and one field per variant, of which
  only the tagged one is meant. The variants with no content carry a \<^typ>\<open>unit\<close>.
\<close>

record Args =
  args_Enum :: borsh_Enum
  args_FreshBackwards :: FreshBackwards
  args_Solve :: Solve
  args_Version :: unit
  args_Authority :: unit
  args_SolveV2 :: SolveV2
  args_TransferOnly :: TransferOnly
  args_Statement :: Statement
  args_Owner :: unit
  args_Ed25519Key :: unit
  args_SolveV3 :: SolveV3
  args_AssetsVersion :: unit

section \<open>Zero values\<close>

text \<open>The fields a composite literal of the source does not name.\<close>

definition zero_SolveArgs :: SolveArgs where
  "zero_SolveArgs = \<lparr>sa_Permit = [], sa_From = [], sa_Target = zeros 20, sa_Cd = [], sa_MsTs = zeros 16\<rparr>"

definition zero_FreshBackwards :: FreshBackwards where
  "zero_FreshBackwards = \<lparr>fb_Key = zeros 32, fb_EoaAddr = zeros 20, fb_V = 0, fb_R = zeros 32,
     fb_S = zeros 32, fb_SolveArgs = [], fb_Authority = None\<rparr>"

definition zero_SolveV2 :: SolveV2 where
  "zero_SolveV2 = \<lparr>v2_Args = \<lparr>v2a_Args = [], v2a_PermitOwner = zeros 20, v2a_TransferOwner = zeros 20\<rparr>,
     v2_Sig = zeros 64\<rparr>"

definition zero_TransferOnly :: TransferOnly where
  "zero_TransferOnly = \<lparr>to_Args = \<lparr>toa_Args = [], toa_MsTs = zeros 16\<rparr>, to_Sig = zeros 64\<rparr>"

definition zero_Statement :: Statement where
  "zero_Statement = \<lparr>st_Args = \<lparr>sta_Msg = [], sta_MsTs = zeros 6\<rparr>, st_Sig = zeros 64\<rparr>"

definition zero_SolveV3Args :: SolveV3Args where
  "zero_SolveV3Args = \<lparr>v3a_Args = [], v3a_GasToken = 0, v3a_GasTokenAmt = 0, v3a_GasTokenPermit = None\<rparr>"

definition zero_SolveV3 :: SolveV3 where
  "zero_SolveV3 = \<lparr>v3_Args = zero_SolveV3Args, v3_Sig = zeros 64\<rparr>"

definition zero_Args :: Args where
  "zero_Args = \<lparr>args_Enum = 0, args_FreshBackwards = zero_FreshBackwards,
     args_Solve = \<lparr>solve_Args = []\<rparr>, args_Version = (), args_Authority = (),
     args_SolveV2 = zero_SolveV2, args_TransferOnly = zero_TransferOnly,
     args_Statement = zero_Statement, args_Owner = (), args_Ed25519Key = (),
     args_SolveV3 = zero_SolveV3, args_AssetsVersion = ()\<rparr>"

section \<open>Well-formedness: the lengths of the arrays\<close>

definition wf_Permit :: "Permit \<Rightarrow> bool" where
  "wf_Permit p \<longleftrightarrow> length (permit_R p) = 32 \<and> length (permit_S p) = 32"

definition wf_FromArgs :: "FromArgs \<Rightarrow> bool" where
  "wf_FromArgs f \<longleftrightarrow> length (from_ToTake f) = 32 \<and> length (from_MaxUnspent f) = 32"

definition wf_SolveArgs :: "SolveArgs \<Rightarrow> bool" where
  "wf_SolveArgs a \<longleftrightarrow> list_all wf_Permit (sa_Permit a) \<and> list_all wf_FromArgs (sa_From a) \<and>
     length (sa_Target a) = 20 \<and> length (sa_MsTs a) = 16"

definition wf_SolveArgsSigArgs :: "SolveArgsSigArgs \<Rightarrow> bool" where
  "wf_SolveArgsSigArgs a \<longleftrightarrow> length (sas_Sig a) = 64 \<and> wf_SolveArgs (sas_Args a)"

definition wf_FreshBackwards :: "FreshBackwards \<Rightarrow> bool" where
  "wf_FreshBackwards f \<longleftrightarrow> length (fb_Key f) = 32 \<and> length (fb_EoaAddr f) = 20 \<and>
     length (fb_R f) = 32 \<and> length (fb_S f) = 32 \<and>
     list_all wf_SolveArgsSigArgs (fb_SolveArgs f) \<and>
     (case fb_Authority f of None \<Rightarrow> True | Some a \<Rightarrow> length a = 20)"

definition wf_SolveV2Args :: "SolveV2Args \<Rightarrow> bool" where
  "wf_SolveV2Args a \<longleftrightarrow> list_all wf_SolveArgs (v2a_Args a) \<and>
     length (v2a_PermitOwner a) = 20 \<and> length (v2a_TransferOwner a) = 20"

definition wf_SolveV2 :: "SolveV2 \<Rightarrow> bool" where
  "wf_SolveV2 a \<longleftrightarrow> wf_SolveV2Args (v2_Args a) \<and> length (v2_Sig a) = 64"

definition wf_SolveV3Args :: "SolveV3Args \<Rightarrow> bool" where
  "wf_SolveV3Args a \<longleftrightarrow> list_all wf_SolveArgs (v3a_Args a) \<and>
     (case v3a_GasTokenPermit a of None \<Rightarrow> True | Some p \<Rightarrow> wf_Permit p)"

definition wf_SolveV3 :: "SolveV3 \<Rightarrow> bool" where
  "wf_SolveV3 a \<longleftrightarrow> wf_SolveV3Args (v3_Args a) \<and> length (v3_Sig a) = 64"

definition wf_TransferPermit :: "TransferPermit \<Rightarrow> bool" where
  "wf_TransferPermit p \<longleftrightarrow> length (tp_R p) = 32 \<and> length (tp_S p) = 32"

definition wf_Transfer :: "Transfer \<Rightarrow> bool" where
  "wf_Transfer t \<longleftrightarrow> length (tr_From t) = 20 \<and> length (tr_Recipient t) = 20 \<and>
     length (tr_Amt t) = 32 \<and>
     (case tr_Permit t of None \<Rightarrow> True | Some p \<Rightarrow> wf_TransferPermit p)"

definition wf_TransferOnly :: "TransferOnly \<Rightarrow> bool" where
  "wf_TransferOnly t \<longleftrightarrow> list_all wf_Transfer (toa_Args (to_Args t)) \<and>
     length (toa_MsTs (to_Args t)) = 16 \<and> length (to_Sig t) = 64"

definition wf_Statement :: "Statement \<Rightarrow> bool" where
  "wf_Statement s \<longleftrightarrow> length (sta_MsTs (st_Args s)) = 6 \<and> length (st_Sig s) = 64"

definition wf_Args :: "Args \<Rightarrow> bool" where
  "wf_Args a \<longleftrightarrow> args_Enum a \<le> ArgsAssetsVersion \<and> wf_FreshBackwards (args_FreshBackwards a) \<and>
     list_all wf_SolveArgsSigArgs (solve_Args (args_Solve a)) \<and> wf_SolveV2 (args_SolveV2 a) \<and>
     wf_TransferOnly (args_TransferOnly a) \<and> wf_Statement (args_Statement a) \<and>
     wf_SolveV3 (args_SolveV3 a)"

section \<open>GraphQL types\<close>

record model_Permit =
  mp_Deadline :: i32
  mp_PermitV :: i32
  mp_PermitR :: string
  mp_PermitS :: string

record model_CreateAccount =
  ca_EoaAddr :: string
  ca_SigV :: i32
  ca_SigR :: string
  ca_SigS :: string
  ca_Authority :: "string option"

record model_CreateAccountExec =
  cae_Hash :: string
  cae_Secret :: string

record model_Mint =
  mint_Market :: string
  mint_Outcome :: string
  mint_Amount :: string
  mint_Permit :: "model_Permit option"
  mint_Referrer :: string
  mint_MsTs :: string

record 'q model_Statistics =
  stats_Action :: string
  stats_AvgGasLimit24Hours :: 'q
  stats_AvgGasLimitWeek :: 'q
  stats_AvgGasLimitAllTime :: 'q
  stats_Tx24Hours :: i32
  stats_TxWeek :: i32
  stats_TxAllTime :: i32

text \<open>The \<^verbatim>\<open>Asset\<close> enum of the GraphQL schema: a string with a validity check.\<close>

type_synonym model_Asset = string

definition AssetUsdc :: model_Asset where "AssetUsdc = ''USDC''"
definition AssetArb :: model_Asset where "AssetArb = ''ARB''"
definition AssetWeth :: model_Asset where "AssetWeth = ''WETH''"

definition AllAsset :: "model_Asset list" where
  "AllAsset = [AssetUsdc, AssetArb, AssetWeth]"

definition Asset_IsValid :: "model_Asset \<Rightarrow> bool" where
  "Asset_IsValid e \<longleftrightarrow> e = AssetUsdc \<or> e = AssetArb \<or> e = AssetWeth"

text \<open>A GraphQL input value, as far as the type switch of \<^verbatim>\<open>UnmarshalGQL\<close> tells.\<close>

datatype gql_value = GqlString string | GqlOther

text \<open>The receiver is assigned before it is checked: the pair is the result and what \<^verbatim>\<open>*e\<close> holds.\<close>

definition Asset_UnmarshalGQL :: "gql_value \<Rightarrow> model_Asset \<Rightarrow> unit res \<times> model_Asset" where
  "Asset_UnmarshalGQL v e = (case v of
     GqlOther \<Rightarrow> (Err ''enums must be strings'', e)
   | GqlString str \<Rightarrow>
      (if \<not> Asset_IsValid str then (Err (str @ '' is not a valid Asset''), str) else (Ok (), str)))"

text \<open>\<^verbatim>\<open>strconv.Quote\<close> on a valid asset adds the quotation marks and escapes nothing.\<close>

definition Asset_MarshalGQL :: "model_Asset \<Rightarrow> string" where
  "Asset_MarshalGQL e = CHR 34 # e @ [CHR 34]"

section \<open>Lemmas\<close>

lemmas wf_defs = wf_Permit_def wf_FromArgs_def wf_SolveArgs_def wf_SolveArgsSigArgs_def
  wf_FreshBackwards_def wf_SolveV2Args_def wf_SolveV2_def wf_SolveV3Args_def wf_SolveV3_def
  wf_TransferPermit_def wf_Transfer_def wf_TransferOnly_def wf_Statement_def wf_Args_def

lemmas zero_defs = zero_SolveArgs_def zero_FreshBackwards_def zero_SolveV2_def
  zero_TransferOnly_def zero_Statement_def zero_SolveV3Args_def zero_SolveV3_def zero_Args_def

lemmas args_enum_defs = ArgsFreshBackwards_def ArgsSolve_def ArgsVersion_def ArgsAuthority_def
  ArgsSolveV2_def ArgsTransferOnly_def ArgsStatement_def ArgsOwner_def ArgsEd25519Key_def
  ArgsSolveV3_def ArgsAssetsVersion_def

lemma wf_zero_Args: "wf_Args zero_Args"
  by (simp add: wf_defs zero_defs args_enum_defs)

lemma AllAsset_valid: "e \<in> set AllAsset \<longleftrightarrow> Asset_IsValid e"
  by (auto simp: AllAsset_def Asset_IsValid_def)

end
