(* ===== verification/Borsh.thy ===== *)
theory Borsh
  imports Types "HOL-Library.Monad_Syntax"
begin

text \<open>
  The serialiser the program calls, \<^verbatim>\<open>borsh.Serialize\<close> of the package
  \<^verbatim>\<open>near/borsh-go\<close>, is not part of the repository: it is a parameter of the model, a
  function from the values the program serialises to bytes or an error, with the predicate
  \<^verbatim>\<open>borsh_ok\<close> for what the Borsh specification promises of it. The rest of this theory
  is the reference encoding of that specification for the wire types (little-endian
  integers, four-byte counts, one-byte option and variant tags, fields in declaration
  order), an interface \<^verbatim>\<open>codec\<close> with what an encoding has to satisfy, and its
  interpretations, from which the reference encoding is shown to meet \<^verbatim>\<open>borsh_ok\<close>.
\<close>

section \<open>The parameter\<close>

datatype borsh_value =
    VSolveArgs SolveArgs
  | VSolveV2Args SolveV2Args
  | VSolveV3Args SolveV3Args
  | VArgs Args

type_synonym borsh_lib = "borsh_value \<Rightarrow> string + bytes"

text \<open>A call into a library, with its error as an error of the caller.\<close>

definition of_sum :: "string + 'a \<Rightarrow> 'a res" where
  "of_sum r = (case r of Inl e \<Rightarrow> Err e | Inr x \<Rightarrow> Ok x)"

fun same_type :: "borsh_value \<Rightarrow> borsh_value \<Rightarrow> bool" where
  "same_type (VSolveArgs a) (VSolveArgs b) = True"
| "same_type (VSolveV2Args a) (VSolveV2Args b) = True"
| "same_type (VSolveV3Args a) (VSolveV3Args b) = True"
| "same_type (VArgs a) (VArgs b) = True"
| "same_type v w = False"

section \<open>Values the encoding is faithful on\<close>

text \<open>Counts are four bytes wide.\<close>

definition small :: "'a list \<Rightarrow> bool" where
  "small xs \<longleftrightarrow> length xs < 2 ^ 32"

definition bw_SolveArgs :: "SolveArgs \<Rightarrow> bool" where
  "bw_SolveArgs a \<longleftrightarrow> wf_SolveArgs a \<and> small (sa_Permit a) \<and> small (sa_From a) \<and> small (sa_Cd a)"

definition bw_SolveArgsSigArgs :: "SolveArgsSigArgs \<Rightarrow> bool" where
  "bw_SolveArgsSigArgs a \<longleftrightarrow> length (sas_Sig a) = 64 \<and> bw_SolveArgs (sas_Args a)"

definition bw_FreshBackwards :: "FreshBackwards \<Rightarrow> bool" where
  "bw_FreshBackwards f \<longleftrightarrow> wf_FreshBackwards f \<and> small (fb_SolveArgs f) \<and>
     list_all bw_SolveArgsSigArgs (fb_SolveArgs f)"

definition bw_SolveV2Args :: "SolveV2Args \<Rightarrow> bool" where
  "bw_SolveV2Args a \<longleftrightarrow> wf_SolveV2Args a \<and> small (v2a_Args a) \<and> list_all bw_SolveArgs (v2a_Args a)"

definition bw_SolveV3Args :: "SolveV3Args \<Rightarrow> bool" where
  "bw_SolveV3Args a \<longleftrightarrow> wf_SolveV3Args a \<and> small (v3a_Args a) \<and> list_all bw_SolveArgs (v3a_Args a)"

text \<open>
  The variants the server builds, with every field but the tagged one at its zero value.
\<close>

definition fresh_args :: "FreshBackwards \<Rightarrow> Args" where
  "fresh_args f = zero_Args\<lparr>args_Enum := ArgsFreshBackwards, args_FreshBackwards := f\<rparr>"

definition solve_v2_args :: "SolveV2 \<Rightarrow> Args" where
  "solve_v2_args s = zero_Args\<lparr>args_Enum := ArgsSolveV2, args_SolveV2 := s\<rparr>"

definition solve_v3_args :: "SolveV3 \<Rightarrow> Args" where
  "solve_v3_args s = zero_Args\<lparr>args_Enum := ArgsSolveV3, args_SolveV3 := s\<rparr>"

definition bw_Args :: "Args \<Rightarrow> bool" where
  "bw_Args a \<longleftrightarrow>
     a = fresh_args (args_FreshBackwards a) \<and> bw_FreshBackwards (args_FreshBackwards a) \<or>
     a = solve_v2_args (args_SolveV2 a) \<and> bw_SolveV2Args (v2_Args (args_SolveV2 a)) \<and>
       length (v2_Sig (args_SolveV2 a)) = 64 \<or>
     a = solve_v3_args (args_SolveV3 a) \<and> bw_SolveV3Args (v3_Args (args_SolveV3 a)) \<and>
       length (v3_Sig (args_SolveV3 a)) = 64"

fun bw_value :: "borsh_value \<Rightarrow> bool" where
  "bw_value (VSolveArgs a) = bw_SolveArgs a"
| "bw_value (VSolveV2Args a) = bw_SolveV2Args a"
| "bw_value (VSolveV3Args a) = bw_SolveV3Args a"
| "bw_value (VArgs a) = bw_Args a"

text \<open>
  What the specification of Borsh promises: a well-formed value is serialised, and two
  values of one type have the same bytes only if they are equal.
\<close>

definition borsh_ok :: "borsh_lib \<Rightarrow> bool" where
  "borsh_ok ser \<longleftrightarrow>
     (\<forall>v. bw_value v \<longrightarrow> (\<exists>bs. ser v = Inr bs)) \<and>
     (\<forall>v w bs. bw_value v \<longrightarrow> bw_value w \<longrightarrow> same_type v w \<longrightarrow>
        ser v = Inr bs \<longrightarrow> ser w = Inr bs \<longrightarrow> v = w)"

section \<open>The reference encoding\<close>

type_synonym 'a decoder = "bytes \<Rightarrow> ('a \<times> bytes) option"

definition enc_u8 :: "u8 \<Rightarrow> bytes" where
  "enc_u8 b = [b]"

definition dec_u8 :: "u8 decoder" where
  "dec_u8 bs = (case bs of [] \<Rightarrow> None | b # r \<Rightarrow> Some (b, r))"

definition dec_arr :: "nat \<Rightarrow> bytes decoder" where
  "dec_arr n bs = (if n \<le> length bs then Some (take n bs, drop n bs) else None)"

definition enc_u64 :: "u64 \<Rightarrow> bytes" where
  "enc_u64 w = rev (be_fixed 8 (unat w))"

definition dec_u64 :: "u64 decoder" where
  "dec_u64 bs = do { (a, r) \<leftarrow> dec_arr 8 bs; Some (of_nat (be_value (rev a)), r) }"

definition enc_len :: "nat \<Rightarrow> bytes" where
  "enc_len n = rev (be_fixed 4 n)"

definition dec_len :: "nat decoder" where
  "dec_len bs = do { (a, r) \<leftarrow> dec_arr 4 bs; Some (be_value (rev a), r) }"

definition enc_vec :: "('a \<Rightarrow> bytes) \<Rightarrow> 'a list \<Rightarrow> bytes" where
  "enc_vec enc xs = enc_len (length xs) @ concat (map enc xs)"

fun dec_many :: "'a decoder \<Rightarrow> nat \<Rightarrow> 'a list decoder" where
  "dec_many dec 0 bs = Some ([], bs)"
| "dec_many dec (Suc n) bs = do { (x, r) \<leftarrow> dec bs; (xs, t) \<leftarrow> dec_many dec n r; Some (x # xs, t) }"

definition dec_vec :: "'a decoder \<Rightarrow> 'a list decoder" where
  "dec_vec dec bs = do { (n, r) \<leftarrow> dec_len bs; dec_many dec n r }"

definition enc_opt :: "('a \<Rightarrow> bytes) \<Rightarrow> 'a option \<Rightarrow> bytes" where
  "enc_opt enc x = (case x of None \<Rightarrow> [0] | Some y \<Rightarrow> 1 # enc y)"

definition dec_opt :: "'a decoder \<Rightarrow> 'a option decoder" where
  "dec_opt dec bs = do { (t, r) \<leftarrow> dec_u8 bs;
     if t = 0 then Some (None, r)
     else if t = 1 then do { (y, u) \<leftarrow> dec r; Some (Some y, u) }
     else None }"

definition enc_Permit :: "Permit \<Rightarrow> bytes" where
  "enc_Permit p = enc_u8 (permit_Asset p) @ enc_u64 (permit_Deadline p) @ enc_u8 (permit_V p) @
     permit_R p @ permit_S p"

definition dec_Permit :: "Permit decoder" where
  "dec_Permit bs = do {
     (a, bs) \<leftarrow> dec_u8 bs; (d, bs) \<leftarrow> dec_u64 bs; (v, bs) \<leftarrow> dec_u8 bs;
     (r, bs) \<leftarrow> dec_arr 32 bs; (s, bs) \<leftarrow> dec_arr 32 bs;
     Some (\<lparr>permit_Asset = a, permit_Deadline = d, permit_V = v, permit_R = r, permit_S = s\<rparr>, bs) }"

definition enc_FromArgs :: "FromArgs \<Rightarrow> bytes" where
  "enc_FromArgs f = enc_u8 (from_Asset f) @ from_ToTake f @ from_MaxUnspent f"

definition dec_FromArgs :: "FromArgs decoder" where
  "dec_FromArgs bs = do {
     (a, bs) \<leftarrow> dec_u8 bs; (t, bs) \<leftarrow> dec_arr 32 bs; (m, bs) \<leftarrow> dec_arr 32 bs;
     Some (\<lparr>from_Asset = a, from_ToTake = t, from_MaxUnspent = m\<rparr>, bs) }"

definition enc_SolveArgs :: "SolveArgs \<Rightarrow> bytes" where
  "enc_SolveArgs a = enc_vec enc_Permit (sa_Permit a) @ enc_vec enc_FromArgs (sa_From a) @
     sa_Target a @ enc_vec enc_u8 (sa_Cd a) @ sa_MsTs a"

definition dec_SolveArgs :: "SolveArgs decoder" where
  "dec_SolveArgs bs = do {
     (p, bs) \<leftarrow> dec_vec dec_Permit bs; (f, bs) \<leftarrow> dec_vec dec_FromArgs bs;
     (t, bs) \<leftarrow> dec_arr 20 bs; (c, bs) \<leftarrow> dec_vec dec_u8 bs; (m, bs) \<leftarrow> dec_arr 16 bs;
     Some (\<lparr>sa_Permit = p, sa_From = f, sa_Target = t, sa_Cd = c, sa_MsTs = m\<rparr>, bs) }"

definition enc_SolveArgsSigArgs :: "SolveArgsSigArgs \<Rightarrow> bytes" where
  "enc_SolveArgsSigArgs a = sas_Sig a @ enc_SolveArgs (sas_Args a)"

definition dec_SolveArgsSigArgs :: "SolveArgsSigArgs decoder" where
  "dec_SolveArgsSigArgs bs = do {
     (s, bs) \<leftarrow> dec_arr 64 bs; (a, bs) \<leftarrow> dec_SolveArgs bs;
     Some (\<lparr>sas_Sig = s, sas_Args = a\<rparr>, bs) }"

definition enc_FreshBackwards :: "FreshBackwards \<Rightarrow> bytes" where
  "enc_FreshBackwards f = fb_Key f @ fb_EoaAddr f @ enc_u8 (fb_V f) @ fb_R f @ fb_S f @
     enc_vec enc_SolveArgsSigArgs (fb_SolveArgs f) @ enc_opt (\<lambda>a. a) (fb_Authority f)"

definition dec_FreshBackwards :: "FreshBackwards decoder" where
  "dec_FreshBackwards bs = do {
     (k, bs) \<leftarrow> dec_arr 32 bs; (e, bs) \<leftarrow> dec_arr 20 bs; (v, bs) \<leftarrow> dec_u8 bs;
     (r, bs) \<leftarrow> dec_arr 32 bs; (s, bs) \<leftarrow> dec_arr 32 bs;
     (sas, bs) \<leftarrow> dec_vec dec_SolveArgsSigArgs bs; (au, bs) \<leftarrow> dec_opt (dec_arr 20) bs;
     Some (\<lparr>fb_Key = k, fb_EoaAddr = e, fb_V = v, fb_R = r, fb_S = s, fb_SolveArgs = sas,
       fb_Authority = au\<rparr>, bs) }"

definition enc_SolveV2Args :: "SolveV2Args \<Rightarrow> bytes" where
  "enc_SolveV2Args a = enc_vec enc_SolveArgs (v2a_Args a) @ v2a_PermitOwner a @ v2a_TransferOwner a"

definition dec_SolveV2Args :: "SolveV2Args decoder" where
  "dec_SolveV2Args bs = do {
     (a, bs) \<leftarrow> dec_vec dec_SolveArgs bs; (p, bs) \<leftarrow> dec_arr 20 bs; (t, bs) \<leftarrow> dec_arr 20 bs;
     Some (\<lparr>v2a_Args = a, v2a_PermitOwner = p, v2a_TransferOwner = t\<rparr>, bs) }"

definition enc_SolveV3Args :: "SolveV3Args \<Rightarrow> bytes" where
  "enc_SolveV3Args a = enc_vec enc_SolveArgs (v3a_Args a) @ enc_u8 (v3a_GasToken a) @
     enc_u64 (v3a_GasTokenAmt a) @ enc_opt enc_Permit (v3a_GasTokenPermit a)"

definition dec_SolveV3Args :: "SolveV3Args decoder" where
  "dec_SolveV3Args bs = do {
     (a, bs) \<leftarrow> dec_vec dec_SolveArgs bs; (g, bs) \<leftarrow> dec_u8 bs; (m, bs) \<leftarrow> dec_u64 bs;
     (p, bs) \<leftarrow> dec_opt dec_Permit bs;
     Some (\<lparr>v3a_Args = a, v3a_GasToken = g, v3a_GasTokenAmt = m, v3a_GasTokenPermit = p\<rparr>, bs) }"

text \<open>The variants the server sends: the tag, then the fields of the tagged variant.\<close>

definition enc_Args :: "Args \<Rightarrow> bytes" where
  "enc_Args a = args_Enum a #
     (if args_Enum a = ArgsFreshBackwards then enc_FreshBackwards (args_FreshBackwards a)
      else if args_Enum a = ArgsSolveV2
        then enc_SolveV2Args (v2_Args (args_SolveV2 a)) @ v2_Sig (args_SolveV2 a)
      else if args_Enum a = ArgsSolveV3
        then enc_SolveV3Args (v3_Args (args_SolveV3 a)) @ v3_Sig (args_SolveV3 a)
      else [])"

definition dec_Args :: "Args decoder" where
  "dec_Args bs = do { (t, bs) \<leftarrow> dec_u8 bs;
     if t = ArgsFreshBackwards
       then do { (f, bs) \<leftarrow> dec_FreshBackwards bs; Some (fresh_args f, bs) }
     else if t = ArgsSolveV2
       then do { (a, bs) \<leftarrow> dec_SolveV2Args bs; (s, bs) \<leftarrow> dec_arr 64 bs;
                 Some (solve_v2_args \<lparr>v2_Args = a, v2_Sig = s\<rparr>, bs) }
     else if t = ArgsSolveV3
       then do { (a, bs) \<leftarrow> dec_SolveV3Args bs; (s, bs) \<leftarrow> dec_arr 64 bs;
                 Some (solve_v3_args \<lparr>v3_Args = a, v3_Sig = s\<rparr>, bs) }
     else None }"

fun borsh_ref :: borsh_lib where
  "borsh_ref (VSolveArgs a) = Inr (enc_SolveArgs a)"
| "borsh_ref (VSolveV2Args a) = Inr (enc_SolveV2Args a)"
| "borsh_ref (VSolveV3Args a) = Inr (enc_SolveV3Args a)"
| "borsh_ref (VArgs a) = Inr (enc_Args a)"

section \<open>Encodings with a decoder\<close>

text \<open>
  The interface of an encoding: the decoder, given the bytes of a well-formed value and
  anything after them, returns the value and what follows.
\<close>

locale codec =
  fixes enc :: "'a \<Rightarrow> bytes" and dec :: "'a decoder" and wf :: "'a \<Rightarrow> bool"
  assumes dec_enc: "wf x \<Longrightarrow> dec (enc x @ rest) = Some (x, rest)"
begin

lemma dec_enc_end: "wf x \<Longrightarrow> dec (enc x) = Some (x, [])"
  using dec_enc [of x "[]"] by simp

lemma enc_prefix: "wf x \<Longrightarrow> wf y \<Longrightarrow> enc x @ r = enc y @ s \<Longrightarrow> x = y \<and> r = s"
  by (metis dec_enc option.inject prod.inject)

lemma enc_inj: "wf x \<Longrightarrow> wf y \<Longrightarrow> enc x = enc y \<Longrightarrow> x = y"
  using enc_prefix [of x y "[]" "[]"] by simp

lemma dec_many_enc:
  "list_all wf xs \<Longrightarrow> dec_many dec (length xs) (concat (map enc xs) @ rest) = Some (xs, rest)"
  by (induction xs) (simp_all add: dec_enc)

lemma codec_opt: "codec (enc_opt enc) (dec_opt dec) (\<lambda>x. case x of None \<Rightarrow> True | Some y \<Rightarrow> wf y)"
  by unfold_locales (auto simp: enc_opt_def dec_opt_def dec_u8_def dec_enc split: option.splits)

end

lemma dec_arr_append: "length a = n \<Longrightarrow> dec_arr n (a @ rest) = Some (a, rest)"
  by (simp add: dec_arr_def)

lemma dec_len_enc: "n < 2 ^ 32 \<Longrightarrow> dec_len (enc_len n @ rest) = Some (n, rest)"
  by (simp add: dec_len_def enc_len_def dec_arr_append)

lemma dec_u64_enc: "dec_u64 (enc_u64 w @ rest) = Some (w, rest)"
proof -
  have "unat w < 256 ^ 8"
    using unsigned_less [of w, where 'a = nat] by simp
  then show ?thesis by (simp add: dec_u64_def enc_u64_def dec_arr_append)
qed

lemma dec_u8_enc: "dec_u8 (enc_u8 b @ rest) = Some (b, rest)"
  by (simp add: dec_u8_def enc_u8_def)

context codec
begin

lemma codec_vec: "codec (enc_vec enc) (dec_vec dec) (\<lambda>xs. small xs \<and> list_all wf xs)"
  by unfold_locales (simp add: enc_vec_def dec_vec_def small_def dec_len_enc dec_many_enc)

end

interpretation u8_c: codec enc_u8 dec_u8 "\<lambda>_. True"
  by unfold_locales (rule dec_u8_enc)

interpretation u64_c: codec enc_u64 dec_u64 "\<lambda>_. True"
  by unfold_locales (rule dec_u64_enc)

interpretation addr_c: codec "\<lambda>a. a" "dec_arr 20" "\<lambda>a. length a = 20"
  by unfold_locales (rule dec_arr_append)

lemmas prim_dec = dec_u8_enc dec_u64_enc dec_arr_append

interpretation permit_c: codec enc_Permit dec_Permit wf_Permit
  by unfold_locales (simp add: enc_Permit_def dec_Permit_def wf_Permit_def prim_dec)

interpretation from_c: codec enc_FromArgs dec_FromArgs wf_FromArgs
  by unfold_locales (simp add: enc_FromArgs_def dec_FromArgs_def wf_FromArgs_def prim_dec)

interpretation permits_c: codec "enc_vec enc_Permit" "dec_vec dec_Permit"
    "\<lambda>xs. small xs \<and> list_all wf_Permit xs"
  by (rule permit_c.codec_vec)

interpretation froms_c: codec "enc_vec enc_FromArgs" "dec_vec dec_FromArgs"
    "\<lambda>xs. small xs \<and> list_all wf_FromArgs xs"
  by (rule from_c.codec_vec)

interpretation blob_c: codec "enc_vec enc_u8" "dec_vec dec_u8" "\<lambda>xs. small xs \<and> list_all (\<lambda>_. True) xs"
  by (rule u8_c.codec_vec)

lemma list_all_True [simp]: "list_all (\<lambda>_. True) xs"
  by (induction xs) simp_all

interpretation sa_c: codec enc_SolveArgs dec_SolveArgs bw_SolveArgs
  by unfold_locales
    (simp add: enc_SolveArgs_def dec_SolveArgs_def bw_SolveArgs_def wf_SolveArgs_def
      permits_c.dec_enc froms_c.dec_enc blob_c.dec_enc prim_dec)

interpretation sas_c: codec enc_SolveArgsSigArgs dec_SolveArgsSigArgs bw_SolveArgsSigArgs
  by unfold_locales
    (simp add: enc_SolveArgsSigArgs_def dec_SolveArgsSigArgs_def bw_SolveArgsSigArgs_def
      sa_c.dec_enc prim_dec)

interpretation sass_c: codec "enc_vec enc_SolveArgsSigArgs" "dec_vec dec_SolveArgsSigArgs"
    "\<lambda>xs. small xs \<and> list_all bw_SolveArgsSigArgs xs"
  by (rule sas_c.codec_vec)

interpretation sal_c: codec "enc_vec enc_SolveArgs" "dec_vec dec_SolveArgs"
    "\<lambda>xs. small xs \<and> list_all bw_SolveArgs xs"
  by (rule sa_c.codec_vec)

interpretation auth_c: codec "enc_opt (\<lambda>a. a)" "dec_opt (dec_arr 20)"
    "\<lambda>x. case x of None \<Rightarrow> True | Some y \<Rightarrow> length y = 20"
  by (rule addr_c.codec_opt)

interpretation opt_permit_c: codec "enc_opt enc_Permit" "dec_opt dec_Permit"
    "\<lambda>x. case x of None \<Rightarrow> True | Some y \<Rightarrow> wf_Permit y"
  by (rule permit_c.codec_opt)

interpretation fb_c: codec enc_FreshBackwards dec_FreshBackwards bw_FreshBackwards
  by unfold_locales
    (simp add: enc_FreshBackwards_def dec_FreshBackwards_def bw_FreshBackwards_def
      wf_FreshBackwards_def sass_c.dec_enc auth_c.dec_enc prim_dec)

interpretation v2_c: codec enc_SolveV2Args dec_SolveV2Args bw_SolveV2Args
  by unfold_locales
    (simp add: enc_SolveV2Args_def dec_SolveV2Args_def bw_SolveV2Args_def wf_SolveV2Args_def
      sal_c.dec_enc prim_dec)

interpretation v3_c: codec enc_SolveV3Args dec_SolveV3Args bw_SolveV3Args
  by unfold_locales
    (simp add: enc_SolveV3Args_def dec_SolveV3Args_def bw_SolveV3Args_def wf_SolveV3Args_def
      sal_c.dec_enc opt_permit_c.dec_enc prim_dec)

lemma fresh_args_sel [simp]:
  "args_Enum (fresh_args f) = ArgsFreshBackwards" "args_FreshBackwards (fresh_args f) = f"
  by (simp_all add: fresh_args_def)

lemma solve_v2_args_sel [simp]:
  "args_Enum (solve_v2_args s) = ArgsSolveV2" "args_SolveV2 (solve_v2_args s) = s"
  by (simp_all add: solve_v2_args_def)

lemma solve_v3_args_sel [simp]:
  "args_Enum (solve_v3_args s) = ArgsSolveV3" "args_SolveV3 (solve_v3_args s) = s"
  by (simp_all add: solve_v3_args_def)

lemma solve_eta [simp]:
  "\<lparr>v2_Args = v2_Args s, v2_Sig = v2_Sig s\<rparr> = s" "\<lparr>v3_Args = v3_Args t, v3_Sig = v3_Sig t\<rparr> = t"
  for s :: SolveV2 and t :: SolveV3
  by (cases s, simp, cases t, simp)

lemma bw_Args_cases:
  assumes "bw_Args a"
  obtains (fresh) f where "a = fresh_args f" "bw_FreshBackwards f"
  | (v2) s where "a = solve_v2_args s" "bw_SolveV2Args (v2_Args s)" "length (v2_Sig s) = 64"
  | (v3) s where "a = solve_v3_args s" "bw_SolveV3Args (v3_Args s)" "length (v3_Sig s) = 64"
  using assms unfolding bw_Args_def by blast

interpretation args_c: codec enc_Args dec_Args bw_Args
proof unfold_locales
  fix a :: Args and rest :: bytes
  assume "bw_Args a"
  then show "dec_Args (enc_Args a @ rest) = Some (a, rest)"
    by (cases rule: bw_Args_cases)
      (simp_all add: enc_Args_def dec_Args_def dec_u8_def args_enum_defs fb_c.dec_enc
        v2_c.dec_enc v3_c.dec_enc prim_dec)
qed

lemma bw_fresh_args: "bw_Args (fresh_args f) \<longleftrightarrow> bw_FreshBackwards f"
proof
  assume "bw_Args (fresh_args f)"
  then show "bw_FreshBackwards f"
  proof (cases rule: bw_Args_cases)
    case (fresh g)
    then show ?thesis by (metis fresh_args_sel(2))
  next
    case (v2 s)
    then have "ArgsFreshBackwards = ArgsSolveV2" by (metis fresh_args_sel(1) solve_v2_args_sel(1))
    then show ?thesis by (simp add: args_enum_defs)
  next
    case (v3 s)
    then have "ArgsFreshBackwards = ArgsSolveV3" by (metis fresh_args_sel(1) solve_v3_args_sel(1))
    then show ?thesis by (simp add: args_enum_defs)
  qed
qed (simp add: bw_Args_def)

lemma bw_solve_v2_args:
  "bw_SolveV2Args (v2_Args s) \<Longrightarrow> length (v2_Sig s) = 64 \<Longrightarrow> bw_Args (solve_v2_args s)"
  by (simp add: bw_Args_def)

lemma bw_solve_v3_args:
  "bw_SolveV3Args (v3_Args s) \<Longrightarrow> length (v3_Sig s) = 64 \<Longrightarrow> bw_Args (solve_v3_args s)"
  by (simp add: bw_Args_def)

text \<open>The reference encoding meets what the program relies on.\<close>

lemma borsh_ref_ok: "borsh_ok borsh_ref"
  unfolding borsh_ok_def
proof (intro conjI allI impI)
  show "\<exists>bs. borsh_ref v = Inr bs" for v by (cases v) auto
  fix v w bs
  assume "bw_value v" "bw_value w" "same_type v w" "borsh_ref v = Inr bs" "borsh_ref w = Inr bs"
  then show "v = w"
    by (cases v; cases w) (auto intro: sa_c.enc_inj v2_c.enc_inj v3_c.enc_inj args_c.enc_inj)
qed

lemma borsh_ok_total: "borsh_ok ser \<Longrightarrow> bw_value v \<Longrightarrow> \<exists>bs. ser v = Inr bs"
  by (simp add: borsh_ok_def)

lemma borsh_ok_inj:
  "borsh_ok ser \<Longrightarrow> bw_value v \<Longrightarrow> bw_value w \<Longrightarrow> same_type v w \<Longrightarrow>
     ser v = Inr bs \<Longrightarrow> ser w = Inr bs \<Longrightarrow> v = w"
  unfolding borsh_ok_def by blast

lemma of_sum_Ok_iff [simp]: "of_sum r = Ok x \<longleftrightarrow> r = Inr x"
  by (auto simp: of_sum_def split: sum.splits)

lemma of_sum_not_Panic [simp]: "of_sum r \<noteq> Panic p" "of_sum r \<noteq> Exit p"
  by (auto simp: of_sum_def split: sum.splits)

lemma of_sum_simps [simp]: "of_sum (Inl e) = Err e" "of_sum (Inr x) = Ok x"
  by (simp_all add: of_sum_def)

section \<open>Properties\<close>

text \<open>
  The argument of every call the server sends can be read back: decoding the bytes of
  a fresh-account, second- or third-version solve argument returns that argument and
  consumes them all, so no two such arguments share their bytes.
\<close>

theorem args_round_trip:
  assumes "bw_Args a"
  shows "dec_Args (enc_Args a) = Some (a, []) \<and> (\<forall>b. bw_Args b \<longrightarrow> enc_Args b = enc_Args a \<longrightarrow> b = a)"
  using assms args_c.dec_enc_end args_c.enc_inj by blast

theorem args_round_trip_witness:
  "dec_Args (enc_Args (solve_v2_args (zero_SolveV2\<lparr>v2_Sig := replicate 64 7\<rparr>))) =
     Some (solve_v2_args (zero_SolveV2\<lparr>v2_Sig := replicate 64 7\<rparr>), [])"
proof -
  have "bw_Args (solve_v2_args (zero_SolveV2\<lparr>v2_Sig := replicate 64 7\<rparr>))"
    by (rule bw_solve_v2_args) (simp_all add: zero_SolveV2_def bw_SolveV2Args_def wf_SolveV2Args_def small_def)
  from args_round_trip [OF this] show ?thesis by blast
qed

end
