(* ===== verification/Sha512.thy ===== *)
theory Sha512
  imports GoStd
begin

text \<open>
  \<^verbatim>\<open>sha512.Sum512\<close> of the Go standard library, as FIPS 180-4 defines it: padding to
  blocks of 128 bytes, the schedule of 80 words, the compression of a block into the eight
  chaining words, and the digest of 64 bytes. The signer is handed this digest.
\<close>

unbundle bit_operations_syntax

section \<open>Constants\<close>

definition sha_init :: "u64 list" where
  "sha_init = [
     0x6A09E667F3BCC908, 0xBB67AE8584CAA73B, 0x3C6EF372FE94F82B,
     0xA54FF53A5F1D36F1, 0x510E527FADE682D1, 0x9B05688C2B3E6C1F,
     0x1F83D9ABFB41BD6B, 0x5BE0CD19137E2179]"

definition sha_k :: "u64 list" where
  "sha_k = [
     0x428A2F98D728AE22, 0x7137449123EF65CD, 0xB5C0FBCFEC4D3B2F,
     0xE9B5DBA58189DBBC, 0x3956C25BF348B538, 0x59F111F1B605D019,
     0x923F82A4AF194F9B, 0xAB1C5ED5DA6D8118, 0xD807AA98A3030242,
     0x12835B0145706FBE, 0x243185BE4EE4B28C, 0x550C7DC3D5FFB4E2,
     0x72BE5D74F27B896F, 0x80DEB1FE3B1696B1, 0x9BDC06A725C71235,
     0xC19BF174CF692694, 0xE49B69C19EF14AD2, 0xEFBE4786384F25E3,
     0x0FC19DC68B8CD5B5, 0x240CA1CC77AC9C65, 0x2DE92C6F592B0275,
     0x4A7484AA6EA6E483, 0x5CB0A9DCBD41FBD4, 0x76F988DA831153B5,
     0x983E5152EE66DFAB, 0xA831C66D2DB43210, 0xB00327C898FB213F,
     0xBF597FC7BEEF0EE4, 0xC6E00BF33DA88FC2, 0xD5A79147930AA725,
     0x06CA6351E003826F, 0x142929670A0E6E70, 0x27B70A8546D22FFC,
     0x2E1B21385C26C926, 0x4D2C6DFC5AC42AED, 0x53380D139D95B3DF,
     0x650A73548BAF63DE, 0x766A0ABB3C77B2A8, 0x81C2C92E47EDAEE6,
     0x92722C851482353B, 0xA2BFE8A14CF10364, 0xA81A664BBC423001,
     0xC24B8B70D0F89791, 0xC76C51A30654BE30, 0xD192E819D6EF5218,
     0xD69906245565A910, 0xF40E35855771202A, 0x106AA07032BBD1B8,
     0x19A4C116B8D2D0C8, 0x1E376C085141AB53, 0x2748774CDF8EEB99,
     0x34B0BCB5E19B48A8, 0x391C0CB3C5C95A63, 0x4ED8AA4AE3418ACB,
     0x5B9CCA4F7763E373, 0x682E6FF3D6B2B8A3, 0x748F82EE5DEFB2FC,
     0x78A5636F43172F60, 0x84C87814A1F0AB72, 0x8CC702081A6439EC,
     0x90BEFFFA23631E28, 0xA4506CEBDE82BDE9, 0xBEF9A3F7B2C67915,
     0xC67178F2E372532B, 0xCA273ECEEA26619C, 0xD186B8C721C0C207,
     0xEADA7DD6CDE0EB1E, 0xF57D4F7FEE6ED178, 0x06F067AA72176FBA,
     0x0A637DC5A2C898A6, 0x113F9804BEF90DAE, 0x1B710B35131C471B,
     0x28DB77F523047D84, 0x32CAAB7B40C72493, 0x3C9EBE0A15C9BEBC,
     0x431D67C49C100D4C, 0x4CC5D4BECB3E42B6, 0x597F299CFC657E2A,
     0x5FCB6FAB3AD6FAEC, 0x6C44198C4A475817]"

section \<open>Words and blocks\<close>

definition rotr64 :: "nat \<Rightarrow> u64 \<Rightarrow> u64" where
  "rotr64 n w = drop_bit n w OR push_bit (64 - n) w"

definition big_sigma0 :: "u64 \<Rightarrow> u64" where
  "big_sigma0 x = rotr64 28 x XOR rotr64 34 x XOR rotr64 39 x"

definition big_sigma1 :: "u64 \<Rightarrow> u64" where
  "big_sigma1 x = rotr64 14 x XOR rotr64 18 x XOR rotr64 41 x"

definition small_sigma0 :: "u64 \<Rightarrow> u64" where
  "small_sigma0 x = rotr64 1 x XOR rotr64 8 x XOR drop_bit 7 x"

definition small_sigma1 :: "u64 \<Rightarrow> u64" where
  "small_sigma1 x = rotr64 19 x XOR rotr64 61 x XOR drop_bit 6 x"

definition ch64 :: "u64 \<Rightarrow> u64 \<Rightarrow> u64 \<Rightarrow> u64" where
  "ch64 x y z = (x AND y) XOR (NOT x AND z)"

definition maj64 :: "u64 \<Rightarrow> u64 \<Rightarrow> u64 \<Rightarrow> u64" where
  "maj64 x y z = (x AND y) XOR (x AND z) XOR (y AND z)"

fun chunks :: "nat \<Rightarrow> 'a list \<Rightarrow> 'a list list" where
  "chunks n xs = (if n = 0 \<or> xs = [] then [] else take n xs # chunks n (drop n xs))"

declare chunks.simps [simp del]

definition sha_pad :: "bytes \<Rightarrow> bytes" where
  "sha_pad bs = bs @ [0x80] @ zeros ((239 - length bs mod 128) mod 128) @ be_fixed 16 (8 * length bs)"

fun sha_extend :: "nat \<Rightarrow> u64 list \<Rightarrow> u64 list" where
  "sha_extend 0 ws = ws"
| "sha_extend (Suc n) ws = (let t = length ws in
     sha_extend n (ws @ [small_sigma1 (ws ! (t - 2)) + ws ! (t - 7) + small_sigma0 (ws ! (t - 15)) + ws ! (t - 16)]))"

definition sha_schedule :: "bytes \<Rightarrow> u64 list" where
  "sha_schedule block = sha_extend 64 (map (\<lambda>c. of_nat (be_value c)) (chunks 8 block))"

section \<open>Compression and digest\<close>

type_synonym sha_state = "u64 \<times> u64 \<times> u64 \<times> u64 \<times> u64 \<times> u64 \<times> u64 \<times> u64"

fun sha_round :: "u64 \<times> u64 \<Rightarrow> sha_state \<Rightarrow> sha_state" where
  "sha_round (k, w) (a, b, c, d, e, f, g, h) =
     (let t1 = h + big_sigma1 e + ch64 e f g + k + w; t2 = big_sigma0 a + maj64 a b c
      in (t1 + t2, a, b, c, d + t1, e, f, g))"

fun sha_add :: "sha_state \<Rightarrow> sha_state \<Rightarrow> sha_state" where
  "sha_add (a, b, c, d, e, f, g, h) (a', b', c', d', e', f', g', h') =
     (a + a', b + b', c + c', d + d', e + e', f + f', g + g', h + h')"

definition sha_block :: "bytes \<Rightarrow> sha_state \<Rightarrow> sha_state" where
  "sha_block block st = sha_add st (fold sha_round (zip sha_k (sha_schedule block)) st)"

fun sha_state_bytes :: "sha_state \<Rightarrow> bytes" where
  "sha_state_bytes (a, b, c, d, e, f, g, h) =
     concat (map (\<lambda>w. be_fixed 8 (unat w)) [a, b, c, d, e, f, g, h])"

definition sha_start :: sha_state where
  "sha_start = (sha_init ! 0, sha_init ! 1, sha_init ! 2, sha_init ! 3,
     sha_init ! 4, sha_init ! 5, sha_init ! 6, sha_init ! 7)"

definition sha512 :: "bytes \<Rightarrow> bytes" where
  "sha512 bs = sha_state_bytes (fold sha_block (chunks 128 (sha_pad bs)) sha_start)"

section \<open>Lemmas\<close>

lemma length_sha_state_bytes: "length (sha_state_bytes st) = 64"
  by (cases st rule: sha_state_bytes.cases) simp

lemma length_sha512 [simp, len_simps]: "length (sha512 bs) = 64"
  by (simp add: sha512_def length_sha_state_bytes)

lemma sha_pad_blocks: "length (sha_pad bs) mod 128 = 0"
proof -
  define m where "m = length bs mod 128"
  have m: "m < 128" by (simp add: m_def)
  have step: "(length bs + k) mod 128 = (m + k) mod 128" for k
    by (simp add: m_def mod_add_left_eq)
  have "(length bs + ((239 - m) mod 128 + 17)) mod 128 = (m + ((239 - m) mod 128 + 17)) mod 128"
    by (rule step)
  also have "\<dots> = 0"
  proof (cases "m \<le> 111")
    case True
    then have "239 - m = 128 + (111 - m)" by simp
    then have "(239 - m) mod 128 = 111 - m" by (simp only: mod_add_self1) simp
    then show ?thesis using True by simp
  next
    case False
    then have "(239 - m) mod 128 = 239 - m" using m by simp
    then show ?thesis using False m by simp
  qed
  finally show ?thesis by (simp add: sha_pad_def m_def add.commute add.left_commute)
qed

end
