(* ===== verification/Libs.thy ===== *)
theory Libs
  imports Borsh Sha512
begin

text \<open>
  The code the server calls and the repository does not hold, as one record of parameters:
  \<^verbatim>\<open>go-ethereum\<close> (addresses, hashing, signatures, ABI packing), \<^verbatim>\<open>borsh-go\<close> and the
  external signer program. \<^verbatim>\<open>geth_ok\<close> and \<^verbatim>\<open>abi_ok\<close> state what their documentation
  promises and the components rely on; \<^verbatim>\<open>ref_libs\<close> is an instance that meets them.
\<close>

text \<open>The lower-case hexadecimal form of an address, with its prefix.\<close>

definition addr_hex :: "bytes \<Rightarrow> string" where
  "addr_hex a = ''0x'' @ hex_encode a"

datatype abi_arg = AbiBytes8 bytes | AbiUint int | AbiAddress Address | AbiAddresses "Address list"

record libs =
  IsHexAddress :: "string \<Rightarrow> bool"
  HexToAddress :: "string \<Rightarrow> Address"
  Address_String :: "Address \<Rightarrow> string"
  BytesToAddress :: "bytes \<Rightarrow> Address"
  LeftPadBytes :: "bytes \<Rightarrow> nat \<Rightarrow> bytes"
  BigToHash :: "int \<Rightarrow> bytes"
  Keccak256 :: "bytes \<Rightarrow> bytes"
  SigToPub :: "bytes \<Rightarrow> bytes \<Rightarrow> string + bytes"
  PubkeyToAddress :: "bytes \<Rightarrow> Address"
  HexToECDSA :: "string \<Rightarrow> string + bytes"
  ECDSA_Public :: "bytes \<Rightarrow> bytes"
  ECDSA_Sign :: "bytes \<Rightarrow> bytes \<Rightarrow> string + bytes"
  abi_Pack :: "string \<Rightarrow> abi_arg list \<Rightarrow> string + bytes"
  borsh_Serialize :: borsh_lib
  exec_Output :: "string \<Rightarrow> string \<Rightarrow> bytes \<times> string option"

text \<open>
  Addresses are 20 bytes and hashes 32; the hexadecimal form of an address with its
  prefix is accepted and read back; \<^verbatim>\<open>String\<close> prints that form up to letter case (the
  checksum of EIP-55); \<^verbatim>\<open>LeftPadBytes\<close> pads with zeros; a recovered key has an address.
\<close>

definition geth_ok :: "libs \<Rightarrow> bool" where
  "geth_ok L \<longleftrightarrow>
     (\<forall>s. length (HexToAddress L s) = 20) \<and>
     (\<forall>b. length (BytesToAddress L b) = 20 \<and> (length b = 20 \<longrightarrow> BytesToAddress L b = b)) \<and>
     (\<forall>b. length (Keccak256 L b) = 32) \<and>
     (\<forall>k. length (PubkeyToAddress L k) = 20) \<and>
     (\<forall>b n. LeftPadBytes L b n = zeros (n - length b) @ b) \<and>
     (\<forall>a. length a = 20 \<longrightarrow> to_lower (Address_String L a) = addr_hex a) \<and>
     (\<forall>a. length a = 20 \<longrightarrow>
        IsHexAddress L (addr_hex a) \<and> HexToAddress L (addr_hex a) = a)"

text \<open>
  The contract ABI: a four-byte selector and one 32-byte word per static argument,
  \<^verbatim>\<open>bytes8\<close> padded on the right, integers and addresses on the left; an array of
  addresses is packed behind the offset of its tail.
\<close>

definition abi_ok :: "libs \<Rightarrow> bool" where
  "abi_ok L \<longleftrightarrow>
     (\<forall>m oc v a b. m \<in> {''mint8A059B6E'', ''mintScheduleClaimC8A5591F''} \<longrightarrow>
        length oc = 8 \<longrightarrow> 0 \<le> v \<longrightarrow> v < 2 ^ 256 \<longrightarrow> length a = 20 \<longrightarrow> length b = 20 \<longrightarrow>
        (\<exists>sel. length sel = 4 \<and>
           abi_Pack L m [AbiBytes8 oc, AbiUint v, AbiAddress a, AbiAddress b] =
             Inr (sel @ oc @ zeros 24 @ be_fixed 32 (nat v) @ zeros 12 @ a @ zeros 12 @ b))) \<and>
     (\<forall>m as a. m \<in> {''payoffForOther'', ''claimForOther''} \<longrightarrow>
        list_all (\<lambda>x. length x = 20) as \<longrightarrow> length a = 20 \<longrightarrow>
        (\<exists>sel. length sel = 4 \<and>
           abi_Pack L m [AbiAddresses as, AbiAddress a] =
             Inr (sel @ be_fixed 32 64 @ zeros 12 @ a @ be_fixed 32 (length as) @
               concat (map (\<lambda>x. zeros 12 @ x) as))))"

section \<open>An instance\<close>

definition ref_hex :: "string \<Rightarrow> bytes res" where
  "ref_hex s = hex_decode_string (trim_prefix s ''0x'')"

definition ref_crop :: "nat \<Rightarrow> bytes \<Rightarrow> bytes" where
  "ref_crop n b = drop (length b) (zeros n) @ drop (length b - n) b"

definition ref_abi :: "string \<Rightarrow> abi_arg list \<Rightarrow> string + bytes" where
  "ref_abi m as = (case as of
     [AbiBytes8 oc, AbiUint v, AbiAddress a, AbiAddress b] \<Rightarrow>
       Inr (replicate 4 1 @ oc @ zeros 24 @ be_fixed 32 (nat v) @ zeros 12 @ a @ zeros 12 @ b)
   | [AbiAddresses xs, AbiAddress a] \<Rightarrow>
       Inr (replicate 4 2 @ be_fixed 32 64 @ zeros 12 @ a @ be_fixed 32 (length xs) @
         concat (map (\<lambda>x. zeros 12 @ x) xs))
   | _ \<Rightarrow> Inl ''abi: argument count mismatch'')"

definition ref_libs :: libs where
  "ref_libs = \<lparr>
     IsHexAddress = (\<lambda>s. case ref_hex s of Ok b \<Rightarrow> length b = 20 | _ \<Rightarrow> False),
     HexToAddress = (\<lambda>s. case ref_hex s of Ok b \<Rightarrow> ref_crop 20 b | _ \<Rightarrow> zeros 20),
     Address_String = addr_hex,
     BytesToAddress = ref_crop 20,
     LeftPadBytes = (\<lambda>b n. zeros (n - length b) @ b),
     BigToHash = (\<lambda>i. be_fixed 32 (nat i)),
     Keccak256 = (\<lambda>b. ref_crop 32 b),
     SigToPub = (\<lambda>d sig. if length sig = 65 then Inr (take 32 sig) else Inl ''invalid signature length''),
     PubkeyToAddress = (\<lambda>k. ref_crop 20 k),
     HexToECDSA = (\<lambda>s. case hex_decode_string s of Ok b \<Rightarrow> Inr b | _ \<Rightarrow> Inl ''invalid hex data for private key''),
     ECDSA_Public = (\<lambda>k. k),
     ECDSA_Sign = (\<lambda>d k. Inr (ref_crop 64 (d @ k) @ [0])),
     abi_Pack = ref_abi,
     borsh_Serialize = borsh_ref,
     exec_Output = (\<lambda>prog arg. (replicate 64 97, None))\<rparr>"

section \<open>Lemmas\<close>

lemma geth_okD:
  assumes "geth_ok L"
  shows "length (HexToAddress L s) = 20" "length (BytesToAddress L b) = 20"
    "length b = 20 \<Longrightarrow> BytesToAddress L b = b" "length (Keccak256 L b) = 32"
    "length (PubkeyToAddress L k) = 20" "LeftPadBytes L b n = zeros (n - length b) @ b"
    "length a = 20 \<Longrightarrow> to_lower (Address_String L a) = addr_hex a"
    "length a = 20 \<Longrightarrow> IsHexAddress L (addr_hex a)"
    "length a = 20 \<Longrightarrow> HexToAddress L (addr_hex a) = a"
  using assms unfolding geth_ok_def by simp_all

lemma abi_ok_mint:
  assumes "abi_ok L" "m \<in> {''mint8A059B6E'', ''mintScheduleClaimC8A5591F''}"
    "length oc = 8" "0 \<le> v" "v < 2 ^ 256" "length a = 20" "length b = 20"
  shows "\<exists>sel. length sel = 4 \<and>
    abi_Pack L m [AbiBytes8 oc, AbiUint v, AbiAddress a, AbiAddress b] =
      Inr (sel @ oc @ zeros 24 @ be_fixed 32 (nat v) @ zeros 12 @ a @ zeros 12 @ b)"
  using assms unfolding abi_ok_def by blast

lemma abi_ok_claim:
  assumes "abi_ok L" "m \<in> {''payoffForOther'', ''claimForOther''}"
    "list_all (\<lambda>x. length x = 20) as" "length a = 20"
  shows "\<exists>sel. length sel = 4 \<and> abi_Pack L m [AbiAddresses as, AbiAddress a] =
    Inr (sel @ be_fixed 32 64 @ zeros 12 @ a @ be_fixed 32 (length as) @
      concat (map (\<lambda>x. zeros 12 @ x) as))"
  using assms unfolding abi_ok_def by blast

lemma length_ref_crop [simp]: "length (ref_crop n b) = n"
  by (simp add: ref_crop_def)

lemma ref_crop_exact [simp]: "length b = n \<Longrightarrow> ref_crop n b = b"
  by (simp add: ref_crop_def)

lemma to_lower_hex [simp]: "to_lower (hex_encode b) = hex_encode b"
  by (induction b) (simp_all add: to_lower_def)

lemma length_addr_hex [simp]: "length (addr_hex a) = 2 + 2 * length a"
  by (simp add: addr_hex_def)

lemma to_lower_addr_hex [simp]: "to_lower (addr_hex a) = addr_hex a"
  using to_lower_hex [of a] by (simp add: addr_hex_def to_lower_def lower_char_def)

lemma addr_hex_inj [simp]: "addr_hex a = addr_hex b \<longleftrightarrow> a = b"
  by (simp add: addr_hex_def hex_encode_inj)

lemma trim_addr_hex [simp]: "trim_prefix (addr_hex a) ''0x'' = hex_encode a"
  by (simp add: trim_prefix_def addr_hex_def)

lemma ref_hex_addr [simp]: "ref_hex (addr_hex a) = Ok a"
  by (simp add: ref_hex_def)

lemma ref_geth_ok: "geth_ok ref_libs"
  by (simp add: geth_ok_def ref_libs_def split: res.splits)

lemma ref_abi_ok: "abi_ok ref_libs"
  by (auto simp: abi_ok_def ref_libs_def ref_abi_def intro: exI [of _ "replicate 4 1"] exI [of _ "replicate 4 2"])

lemma ref_borsh_ok: "borsh_ok (borsh_Serialize ref_libs)"
  by (simp add: ref_libs_def borsh_ref_ok)

end
