(* ===== verification/Ninelives.thy ===== *)
theory Ninelives
  imports Libs
begin

text \<open>
  The calldata builders of \<^verbatim>\<open>lib/ninelives/ninelives.go\<close> over the ABI packer, and the
  unpacker the repository keeps for tests.
\<close>

section \<open>Definitions\<close>

text \<open>A packing error is a panic.\<close>

definition must_pack :: "string + bytes \<Rightarrow> bytes res" where
  "must_pack r = (case r of Inl e \<Rightarrow> Panic e | Inr a \<Rightarrow> Ok a)"

definition NewMint :: "libs \<Rightarrow> bytes \<Rightarrow> bytes \<Rightarrow> Address \<Rightarrow> Address \<Rightarrow> bytes res" where
  "NewMint L outcome value referrer recipient = must_pack (abi_Pack L ''mint8A059B6E''
     [AbiBytes8 outcome, AbiUint (int (be_value value)), AbiAddress referrer, AbiAddress recipient])"

definition NewMintScheduleClaim :: "libs \<Rightarrow> bytes \<Rightarrow> bytes \<Rightarrow> Address \<Rightarrow> Address \<Rightarrow> bytes res" where
  "NewMintScheduleClaim L outcome value referrer recipient =
     must_pack (abi_Pack L ''mintScheduleClaimC8A5591F''
       [AbiBytes8 outcome, AbiUint (int (be_value value)), AbiAddress referrer, AbiAddress recipient])"

text \<open>
  The named results start at zero; each \<^verbatim>\<open>copy\<close> of the source writes the slice it names,
  the last two both into \<^verbatim>\<open>referrer\<close>.
\<close>

definition UnpackMint :: "bytes \<Rightarrow> (bytes \<times> bytes \<times> Address \<times> Address) res" where
  "UnpackMint cd =
     (if length cd \<noteq> 4 + 32 * 4 then Err (''bad mint cd: '' @ dec_nat (length cd))
      else
       (let outcome = go_copy (zeros 8) (take (32 - 8) (take 32 (drop 4 cd)));
            value = go_copy (zeros 32) (take 32 (drop (4 + 32) cd));
            referrer = go_copy (zeros 20) (take (32 - 20) (take 32 (drop (4 + 32 * 2) cd)));
            referrer = go_copy referrer (take (32 - 20) (take 32 (drop (4 + 32 * 3) cd)))
        in Ok (outcome, value, referrer, zeros 20)))"

definition NewClaimForOther :: "libs \<Rightarrow> Address list \<Rightarrow> Address \<Rightarrow> bytes res" where
  "NewClaimForOther L addresses eoa =
     must_pack (abi_Pack L ''claimForOther'' [AbiAddresses addresses, AbiAddress eoa])"

definition NewPayoffForOther :: "libs \<Rightarrow> Address list \<Rightarrow> Address \<Rightarrow> bytes res" where
  "NewPayoffForOther L addresses eoa =
     must_pack (abi_Pack L ''payoffForOther'' [AbiAddresses addresses, AbiAddress eoa])"

section \<open>Lemmas\<close>

lemma must_pack_Inr [simp]: "must_pack (Inr a) = Ok a"
  by (simp add: must_pack_def)

lemma must_pack_cases: "must_pack r = Ok a \<longleftrightarrow> r = Inr a"
  by (auto simp: must_pack_def split: sum.splits)

lemma must_pack_not [simp]: "must_pack r \<noteq> Err e" "must_pack r \<noteq> Exit e"
  by (auto simp: must_pack_def split: sum.splits)

lemma mint_words:
  assumes "abi_ok L" and "m \<in> {''mint8A059B6E'', ''mintScheduleClaimC8A5591F''}"
    and "length outcome = 8" "length value = 32" "length a = 20" "length b = 20"
  shows "\<exists>sel. length sel = 4 \<and>
    abi_Pack L m [AbiBytes8 outcome, AbiUint (int (be_value value)), AbiAddress a, AbiAddress b] =
      Inr (sel @ outcome @ zeros 24 @ value @ zeros 12 @ a @ zeros 12 @ b)"
proof -
  have "be_value value < 256 ^ 32" using be_value_lt [of "value"] assms(4) by simp
  then have "int (be_value value) < 256 ^ 32" by (metis of_nat_less_iff of_nat_numeral of_nat_power)
  then have lt: "int (be_value value) < 2 ^ 256" by simp
  have "be_fixed 32 (nat (int (be_value value))) = value"
    using assms(4) by (simp add: be_fixed_be_value)
  moreover obtain sel where "length sel = 4"
    and "abi_Pack L m [AbiBytes8 outcome, AbiUint (int (be_value value)), AbiAddress a, AbiAddress b] =
      Inr (sel @ outcome @ zeros 24 @ be_fixed 32 (nat (int (be_value value))) @ zeros 12 @ a @ zeros 12 @ b)"
    using abi_ok_mint [OF assms(1,2,3) _ lt assms(5,6)] by auto
  ultimately show ?thesis by auto
qed

lemma NewMint_layout:
  assumes "abi_ok L" "length outcome = 8" "length value = 32" "length a = 20" "length b = 20"
  shows "\<exists>sel. length sel = 4 \<and>
    NewMint L outcome value a b = Ok (sel @ outcome @ zeros 24 @ value @ zeros 12 @ a @ zeros 12 @ b)"
  using mint_words [OF assms(1) _ assms(2-5), of "''mint8A059B6E''"] by (auto simp: NewMint_def)

section \<open>Properties\<close>

text \<open>
  Unpacking the calldata \<^verbatim>\<open>NewMint\<close> builds gives back the outcome and the value but,
  whatever they were, the zero address for both the referrer and the recipient: the slices
  taken are the padding of the two words, and both are copied into the referrer.
\<close>

theorem unpack_new_mint:
  assumes "abi_ok L" and "length outcome = 8" "length value = 32"
    and "length referrer = 20" "length recipient = 20"
  shows "bindR (NewMint L outcome value referrer recipient) UnpackMint =
    Ok (outcome, value, zeros 20, zeros 20)"
proof -
  obtain sel where sel: "length sel = 4"
    and eq: "NewMint L outcome value referrer recipient =
      Ok (sel @ outcome @ zeros 24 @ value @ zeros 12 @ referrer @ zeros 12 @ recipient)"
    using NewMint_layout [OF assms] by blast
  have pad: "go_copy (zeros 20) (zeros 12) = zeros 20"
    by (simp add: go_copy_def zeros_def replicate_add [symmetric])
  have "go_copy (zeros 8) (outcome @ zeros 16) = outcome"
    using assms(2) by (simp add: go_copy_def)
  then show ?thesis
    using eq sel assms pad by (simp add: UnpackMint_def zeros_def)
qed

theorem unpack_new_mint_witness:
  "bindR (NewMint ref_libs (replicate 8 1) (replicate 32 2) (replicate 20 3) (replicate 20 4)) UnpackMint =
     Ok (replicate 8 1, replicate 32 2, zeros 20, zeros 20)"
  by (rule unpack_new_mint [OF ref_abi_ok]) simp_all

text \<open>
  The four builders never panic on arrays of the declared lengths, and the calldata
  carries the caller's words: for the two mints the outcome left-aligned in the first word,
  the value in the second and the addresses right-aligned in the last two; for the two
  claims the recipient in the second word and the count and entries of the markets behind
  it.
\<close>

theorem calldata_layout:
  assumes "abi_ok L" and "length outcome = 8" "length value = 32"
    and "length a = 20" "length b = 20" and "list_all (\<lambda>x. length x = 20) markets"
  shows "(\<exists>sel. length sel = 4 \<and> NewMint L outcome value a b =
      Ok (sel @ (outcome @ zeros 24) @ value @ (zeros 12 @ a) @ (zeros 12 @ b))) \<and>
    (\<exists>sel. length sel = 4 \<and> NewMintScheduleClaim L outcome value a b =
      Ok (sel @ (outcome @ zeros 24) @ value @ (zeros 12 @ a) @ (zeros 12 @ b))) \<and>
    (\<exists>sel. length sel = 4 \<and> NewPayoffForOther L markets b =
      Ok (sel @ be_fixed 32 64 @ (zeros 12 @ b) @ be_fixed 32 (length markets) @
        concat (map (\<lambda>x. zeros 12 @ x) markets))) \<and>
    (\<exists>sel. length sel = 4 \<and> NewClaimForOther L markets b =
      Ok (sel @ be_fixed 32 64 @ (zeros 12 @ b) @ be_fixed 32 (length markets) @
        concat (map (\<lambda>x. zeros 12 @ x) markets)))"
proof (intro conjI)
  show "\<exists>sel. length sel = 4 \<and> NewMint L outcome value a b =
      Ok (sel @ (outcome @ zeros 24) @ value @ (zeros 12 @ a) @ (zeros 12 @ b))"
    using NewMint_layout [OF assms(1-5)] by simp
  show "\<exists>sel. length sel = 4 \<and> NewMintScheduleClaim L outcome value a b =
      Ok (sel @ (outcome @ zeros 24) @ value @ (zeros 12 @ a) @ (zeros 12 @ b))"
    using mint_words [OF assms(1) _ assms(2-5), of "''mintScheduleClaimC8A5591F''"]
    by (auto simp: NewMintScheduleClaim_def)
  show "\<exists>sel. length sel = 4 \<and> NewPayoffForOther L markets b =
      Ok (sel @ be_fixed 32 64 @ (zeros 12 @ b) @ be_fixed 32 (length markets) @
        concat (map (\<lambda>x. zeros 12 @ x) markets))"
    using abi_ok_claim [OF assms(1) _ assms(6,5), of "''payoffForOther''"] by (auto simp: NewPayoffForOther_def)
  show "\<exists>sel. length sel = 4 \<and> NewClaimForOther L markets b =
      Ok (sel @ be_fixed 32 64 @ (zeros 12 @ b) @ be_fixed 32 (length markets) @
        concat (map (\<lambda>x. zeros 12 @ x) markets))"
    using abi_ok_claim [OF assms(1) _ assms(6,5), of "''claimForOther''"] by (auto simp: NewClaimForOther_def)
qed

theorem calldata_layout_witness:
  "(\<exists>sel. length sel = 4 \<and> NewMint ref_libs (replicate 8 1) (replicate 32 2) (replicate 20 3) (replicate 20 4) =
      Ok (sel @ (replicate 8 1 @ zeros 24) @ replicate 32 2 @ (zeros 12 @ replicate 20 3) @ (zeros 12 @ replicate 20 4)))"
  using calldata_layout [OF ref_abi_ok, of "replicate 8 1" "replicate 32 2" "replicate 20 3" "replicate 20 4" "[]"]
  by simp

end
