(* ===== verification/Convertor.thy ===== *)
theory Convertor
  imports Ninelives
begin

text \<open>
  The request builders of \<^verbatim>\<open>lib/convertor/convertor.go\<close>: from the strings of a GraphQL
  request to the wire types, and from unsigned solve arguments to signed ones by way of the
  external signer. Each exported function is one definition, with its errors in the order
  of the source and its panics explicit.
\<close>

section \<open>Signing\<close>

text \<open>
  The lines every builder repeats: the SHA-512 digest of the encoding, in hexadecimal, is
  the one argument of the program; its output is copied into the 64 bytes of a signature.
\<close>

definition invoke_signer :: "libs \<Rightarrow> string \<Rightarrow> bytes \<Rightarrow> Sig res" where
  "invoke_signer L prog encoded =
     (case exec_Output L prog (hex_encode (sha512 encoded)) of
        (sig, Some err) \<Rightarrow> Err (''invoking dalekph: '' @ string_of_bytes sig @ '', '' @ err)
      | (sig, None) \<Rightarrow> Ok (go_copy (zeros 64) sig))"

definition CreateSolveV2 ::
    "libs \<Rightarrow> string \<Rightarrow> SolveArgs list \<Rightarrow> Address \<Rightarrow> Address \<Rightarrow> Args res" where
  "CreateSolveV2 L prog args permitOwner transferOwner =
     (let solveArgs = \<lparr>v2a_Args = args, v2a_PermitOwner = permitOwner, v2a_TransferOwner = transferOwner\<rparr>
      in bindR (wrapR ''making solve v2 digest'' (of_sum (borsh_Serialize L (VSolveV2Args solveArgs))))
           (\<lambda>encoded. bindR (invoke_signer L prog encoded)
           (\<lambda>signature. Ok (zero_Args\<lparr>args_Enum := ArgsSolveV2,
              args_SolveV2 := \<lparr>v2_Args = solveArgs, v2_Sig = signature\<rparr>\<rparr>))))"

definition CreateSolveV3 ::
    "libs \<Rightarrow> string \<Rightarrow> SolveArgs list \<Rightarrow> Asset \<Rightarrow> u64 \<Rightarrow> Args res" where
  "CreateSolveV3 L prog args gasToken gasTokenAmt =
     (let solveArgs = \<lparr>v3a_Args = args, v3a_GasToken = gasToken, v3a_GasTokenAmt = gasTokenAmt,
            v3a_GasTokenPermit = None\<rparr>
      in bindR (wrapR ''making solve v2 digest'' (of_sum (borsh_Serialize L (VSolveV3Args solveArgs))))
           (\<lambda>encoded. bindR (invoke_signer L prog encoded)
           (\<lambda>signature. Ok (zero_Args\<lparr>args_Enum := ArgsSolveV3,
              args_SolveV3 := \<lparr>v3_Args = solveArgs, v3_Sig = signature\<rparr>\<rparr>))))"

section \<open>Parsing\<close>

text \<open>Decoding into an array of \<^verbatim>\<open>n\<close> bytes, and the check that all of it was written.\<close>

definition decode_array :: "nat \<Rightarrow> string \<Rightarrow> bytes res" where
  "decode_array n s =
     bindR (wrapR ''decode str'' (hex_decode_into n (trim_prefix s ''0x'')))
       (\<lambda>b. bindR (guardR (length b \<noteq> n) (''decode str len: '' @ dec_nat (length b))) (\<lambda>_. Ok b))"

definition strToBytes8 :: "string \<Rightarrow> bytes res" where
  "strToBytes8 s = decode_array 8 s"

definition strToAddr :: "string \<Rightarrow> Address res" where
  "strToAddr s = (if s = '''' then Ok (zeros 20) else decode_array 20 s)"

definition strToBytes32 :: "string \<Rightarrow> bytes res" where
  "strToBytes32 s = decode_array 32 s"

text \<open>\<^verbatim>\<open>SetString\<close> and the message of its failure.\<close>

definition parse_int :: "string \<Rightarrow> string \<Rightarrow> int res" where
  "parse_int what s = (case big_SetString10 s of None \<Rightarrow> Err (what @ '': '' @ s) | Some i \<Rightarrow> Ok i)"

text \<open>
  The timestamp of \<^verbatim>\<open>CreatePayoffForOtherArgsGraph\<close> and \<^verbatim>\<open>CreateSolveArgsSigArgsGraph\<close>:
  an array of 16 bytes, sliced as if it had 32.
\<close>

definition parse_msTs_padded :: "string \<Rightarrow> bytes res" where
  "parse_msTs_padded s =
     bindR (parse_int ''ms ts'' s) (\<lambda>msTsI.
       let msTsB = big_Bytes msTsI in
       bindR (guardR (length msTsB > 32) (''ms ts too large: '' @ dec_nat (length msTsB)))
         (\<lambda>_. copy_at (zeros 16) (32 - int (length msTsB)) msTsB))"

text \<open>The timestamp of the mint: copied to the front of the array.\<close>

definition parse_msTs_front :: "string \<Rightarrow> bytes res" where
  "parse_msTs_front s =
     bindR (parse_int ''ms ts'' s) (\<lambda>msTsI. Ok (go_copy (zeros 16) (big_Bytes msTsI)))"

definition parse_amount :: "string \<Rightarrow> bytes res" where
  "parse_amount s =
     bindR (parse_int ''amount'' s) (\<lambda>a.
       bindR (guardR (length (big_Bytes a) > 32) (''too huge amount: '' @ s))
         (\<lambda>_. copy_at (zeros 32) (32 - int (length (big_Bytes a))) (big_Bytes a)))"

section \<open>Claims\<close>

definition CreatePayoffForOtherArgs ::
    "libs \<Rightarrow> string \<Rightarrow> Address \<Rightarrow> Address \<Rightarrow> Address list \<Rightarrow> bytes \<Rightarrow> SolveArgsSigArgs res" where
  "CreatePayoffForOtherArgs L prog claimantHelper eoa markets msTs =
     bindR (NewPayoffForOther L markets eoa) (\<lambda>cd.
       let solveArgs = zero_SolveArgs\<lparr>sa_Target := claimantHelper, sa_Cd := cd, sa_MsTs := msTs\<rparr> in
       bindR (wrapR ''making digest'' (of_sum (borsh_Serialize L (VSolveArgs solveArgs)))) (\<lambda>digest.
       bindR (invoke_signer L prog digest) (\<lambda>sigArr.
       Ok \<lparr>sas_Sig = sigArr, sas_Args = solveArgs\<rparr>)))"

fun parse_markets :: "libs \<Rightarrow> string list \<Rightarrow> Address list res" where
  "parse_markets L [] = Ok []"
| "parse_markets L (m # ms) =
     (if \<not> IsHexAddress L m then Err (''bad address: '' @ m)
      else bindR (parse_markets L ms) (\<lambda>rest. Ok (HexToAddress L m # rest)))"

definition CreatePayoffForOtherArgsGraph ::
    "libs \<Rightarrow> string \<Rightarrow> Address \<Rightarrow> Address \<Rightarrow> string list \<Rightarrow> string \<Rightarrow> SolveArgsSigArgs res" where
  "CreatePayoffForOtherArgsGraph L prog claimantHelper eoa markets msTs =
     bindR (parse_msTs_padded msTs) (\<lambda>ts.
     bindR (parse_markets L markets) (\<lambda>ms.
     CreatePayoffForOtherArgs L prog claimantHelper eoa ms ts))"

section \<open>Account creation\<close>

definition CreateAccountToFreshBackwards ::
    "bytes \<Rightarrow> Address \<Rightarrow> u8 \<Rightarrow> bytes \<Rightarrow> bytes \<Rightarrow> ArgsAuthorityAddr option \<Rightarrow> FreshBackwards" where
  "CreateAccountToFreshBackwards pubKey eoa v r s authority =
     \<lparr>fb_Key = pubKey, fb_EoaAddr = eoa, fb_V = v, fb_R = r, fb_S = s, fb_SolveArgs = [],
      fb_Authority = authority\<rparr>"

definition exceeds_u8 :: "i32 \<Rightarrow> bool" where
  "exceeds_u8 v \<longleftrightarrow> sint v < 0 \<or> sint v > 255"

definition CreateAccountToFreshBackwardsGraph ::
    "bytes \<Rightarrow> model_CreateAccount \<Rightarrow> FreshBackwards res" where
  "CreateAccountToFreshBackwardsGraph pubKey ca =
     bindR (wrapR ''eoa'' (strToAddr (ca_EoaAddr ca))) (\<lambda>eoa.
     bindR (case ca_Authority ca of
              None \<Rightarrow> Ok None
            | Some a \<Rightarrow> bindR (wrapR ''authority'' (strToAddr a)) (\<lambda>x. Ok (Some x))) (\<lambda>authority.
     bindR (guardR (exceeds_u8 (ca_SigV ca)) ''v exceeds'') (\<lambda>_.
     bindR (wrapR ''r'' (strToBytes32 (ca_SigR ca))) (\<lambda>r.
     bindR (wrapR ''s'' (strToBytes32 (ca_SigS ca))) (\<lambda>s.
     Ok (CreateAccountToFreshBackwards pubKey eoa (of_int (sint (ca_SigV ca))) r s authority))))))"

section \<open>Permits\<close>

definition NewPermit :: "Asset \<Rightarrow> u64 \<Rightarrow> u8 \<Rightarrow> bytes \<Rightarrow> bytes \<Rightarrow> Permit" where
  "NewPermit asset deadline v r s =
     \<lparr>permit_Asset = asset, permit_Deadline = deadline, permit_V = v, permit_R = r, permit_S = s\<rparr>"

definition NewPermitGraph :: "Asset \<Rightarrow> u64 \<Rightarrow> i32 \<Rightarrow> string \<Rightarrow> string \<Rightarrow> Permit res" where
  "NewPermitGraph asset deadline permitV permitR permitS =
     bindR (guardR (exceeds_u8 permitV) ''v exceeds'') (\<lambda>_.
     bindR (wrapR ''permit r'' (strToBytes32 permitR)) (\<lambda>r.
     bindR (wrapR ''permit s'' (strToBytes32 permitS)) (\<lambda>s.
     Ok (NewPermit asset deadline (of_int (sint permitV)) r s))))"

text \<open>The optional permit of a request, as both solve builders read it.\<close>

definition parse_permit :: "Asset \<Rightarrow> model_Permit option \<Rightarrow> Permit option res" where
  "parse_permit asset permit = (case permit of
     None \<Rightarrow> Ok None
   | Some p \<Rightarrow>
      bindR (guardR (sint (mp_Deadline p) < 0) ''negative deadline'') (\<lambda>_.
      bindR (wrapR ''permit'' (NewPermitGraph asset (of_int (sint (mp_Deadline p)))
               (mp_PermitV p) (mp_PermitR p) (mp_PermitS p))) (\<lambda>q.
      Ok (Some q))))"

section \<open>Solve arguments\<close>

definition CreateSolveArgsSigArgs ::
    "libs \<Rightarrow> string \<Rightarrow> Asset \<Rightarrow> Address \<Rightarrow> bytes \<Rightarrow> bytes \<Rightarrow> Permit option \<Rightarrow> bytes
       \<Rightarrow> SolveArgsSigArgs res" where
  "CreateSolveArgsSigArgs L prog asset target amount cd permit msTs =
     (let solveArgs = \<lparr>
            sa_Permit = (case permit of None \<Rightarrow> [] | Some p \<Rightarrow> [p]),
            sa_From = [\<lparr>from_Asset = asset, from_ToTake = amount, from_MaxUnspent = zeros 32\<rparr>],
            sa_Target = target, sa_Cd = cd, sa_MsTs = msTs\<rparr> in
      bindR (wrapR ''making digest'' (of_sum (borsh_Serialize L (VSolveArgs solveArgs)))) (\<lambda>digest.
      bindR (invoke_signer L prog digest) (\<lambda>sigArr.
      Ok \<lparr>sas_Sig = sigArr, sas_Args = solveArgs\<rparr>)))"

definition CreateSolveArgsSigArgsNoToken ::
    "libs \<Rightarrow> string \<Rightarrow> Address \<Rightarrow> bytes \<Rightarrow> bytes \<Rightarrow> SolveArgsSigArgs res" where
  "CreateSolveArgsSigArgsNoToken L prog target cd msTs =
     (let solveArgs = zero_SolveArgs\<lparr>sa_Target := target, sa_Cd := cd, sa_MsTs := msTs\<rparr> in
      bindR (wrapR ''making digest'' (of_sum (borsh_Serialize L (VSolveArgs solveArgs)))) (\<lambda>digest.
      bindR (invoke_signer L prog digest) (\<lambda>sigArr.
      Ok \<lparr>sas_Sig = sigArr, sas_Args = solveArgs\<rparr>)))"

definition CreateSolveArgsSigArgsGraph ::
    "libs \<Rightarrow> string \<Rightarrow> Asset \<Rightarrow> string \<Rightarrow> string \<Rightarrow> bytes \<Rightarrow> model_Permit option \<Rightarrow> string
       \<Rightarrow> SolveArgsSigArgs res" where
  "CreateSolveArgsSigArgsGraph L prog asset target amount cd permit msTs =
     bindR (parse_amount amount) (\<lambda>a.
     bindR (parse_msTs_padded msTs) (\<lambda>ts.
     bindR (wrapR ''addr'' (strToAddr target)) (\<lambda>m.
     bindR (parse_permit asset permit) (\<lambda>p.
     CreateSolveArgsSigArgs L prog asset m a cd p ts))))"

definition CreateSolveArgsSigArgsMint ::
    "libs \<Rightarrow> string \<Rightarrow> Asset \<Rightarrow> Address \<Rightarrow> bytes \<Rightarrow> bytes \<Rightarrow> Address \<Rightarrow> Address \<Rightarrow> Permit option
       \<Rightarrow> bytes \<Rightarrow> SolveArgsSigArgs res" where
  "CreateSolveArgsSigArgsMint L prog asset market outcome amount referrer recipient permit msTs =
     bindR (NewMint L outcome amount referrer recipient) (\<lambda>cd.
     CreateSolveArgsSigArgs L prog asset market amount cd permit msTs)"

definition CreateSolveArgsSigArgsMintGraph ::
    "libs \<Rightarrow> string \<Rightarrow> Asset \<Rightarrow> string \<Rightarrow> string \<Rightarrow> string \<Rightarrow> string \<Rightarrow> Address
       \<Rightarrow> model_Permit option \<Rightarrow> string \<Rightarrow> SolveArgsSigArgs res" where
  "CreateSolveArgsSigArgsMintGraph L prog asset market outcome amount referrer recipient permit msTs =
     bindR (wrapR ''outcome'' (strToBytes8 outcome)) (\<lambda>oc.
     bindR (parse_amount amount) (\<lambda>a.
     bindR (wrapR ''market'' (strToAddr market)) (\<lambda>m.
     bindR (wrapR ''referrer'' (strToAddr referrer)) (\<lambda>ref.
     bindR (parse_msTs_front msTs) (\<lambda>ts.
     bindR (parse_permit asset permit) (\<lambda>p.
     CreateSolveArgsSigArgsMint L prog asset m oc a ref recipient p ts))))))"

section \<open>Tagging a fresh account\<close>

text \<open>The pointer \<^verbatim>\<open>f\<close> is written only when the builder succeeds.\<close>

definition append_solve :: "FreshBackwards \<Rightarrow> SolveArgsSigArgs res \<Rightarrow> FreshBackwards res" where
  "append_solve f r = bindR r (\<lambda>m. Ok (f\<lparr>fb_SolveArgs := fb_SolveArgs f @ [m]\<rparr>))"

definition TagFreshBackwards ::
    "libs \<Rightarrow> string \<Rightarrow> FreshBackwards \<Rightarrow> Asset \<Rightarrow> Address \<Rightarrow> bytes \<Rightarrow> bytes \<Rightarrow> Permit option \<Rightarrow> bytes
       \<Rightarrow> FreshBackwards res" where
  "TagFreshBackwards L prog f asset target amount cd permit msTs =
     append_solve f (CreateSolveArgsSigArgs L prog asset target amount cd permit msTs)"

definition TagFreshBackwardsNoToken ::
    "libs \<Rightarrow> string \<Rightarrow> FreshBackwards \<Rightarrow> Address \<Rightarrow> bytes \<Rightarrow> bytes \<Rightarrow> FreshBackwards res" where
  "TagFreshBackwardsNoToken L prog f target cd msTs =
     append_solve f (CreateSolveArgsSigArgsNoToken L prog target cd msTs)"

definition TagFreshBackwardsGraph ::
    "libs \<Rightarrow> string \<Rightarrow> FreshBackwards \<Rightarrow> Asset \<Rightarrow> string \<Rightarrow> string \<Rightarrow> bytes \<Rightarrow> model_Permit option
       \<Rightarrow> string \<Rightarrow> FreshBackwards res" where
  "TagFreshBackwardsGraph L prog f asset target amount cd permit msTs =
     append_solve f (CreateSolveArgsSigArgsGraph L prog asset target amount cd permit msTs)"

definition TagFreshBackwardsWithMint ::
    "libs \<Rightarrow> string \<Rightarrow> FreshBackwards \<Rightarrow> Asset \<Rightarrow> Address \<Rightarrow> bytes \<Rightarrow> bytes \<Rightarrow> Address \<Rightarrow> Address
       \<Rightarrow> Permit option \<Rightarrow> bytes \<Rightarrow> FreshBackwards res" where
  "TagFreshBackwardsWithMint L prog f asset market outcome amount referrer recipient permit msTs =
     append_solve f
       (CreateSolveArgsSigArgsMint L prog asset market outcome amount referrer recipient permit msTs)"

definition TagFreshBackwardsWithMintGraph ::
    "libs \<Rightarrow> string \<Rightarrow> FreshBackwards \<Rightarrow> Asset \<Rightarrow> string \<Rightarrow> string \<Rightarrow> string \<Rightarrow> string \<Rightarrow> Address
       \<Rightarrow> model_Permit option \<Rightarrow> string \<Rightarrow> FreshBackwards res" where
  "TagFreshBackwardsWithMintGraph L prog f asset market outcome amount referrer recipient permit msTs =
     append_solve f
       (CreateSolveArgsSigArgsMintGraph L prog asset market outcome amount referrer recipient permit msTs)"

section \<open>The values that are signed\<close>

text \<open>The solve arguments of the token builder and of the builders without a token.\<close>

definition token_solve :: "Asset \<times> Address \<times> bytes \<times> bytes \<times> Permit option \<times> bytes \<Rightarrow> SolveArgs" where
  "token_solve = (\<lambda>(asset, target, amount, cd, permit, msTs).
     \<lparr>sa_Permit = (case permit of None \<Rightarrow> [] | Some p \<Rightarrow> [p]),
      sa_From = [\<lparr>from_Asset = asset, from_ToTake = amount, from_MaxUnspent = zeros 32\<rparr>],
      sa_Target = target, sa_Cd = cd, sa_MsTs = msTs\<rparr>)"

definition plain_solve :: "Address \<times> bytes \<times> bytes \<Rightarrow> SolveArgs" where
  "plain_solve = (\<lambda>(target, cd, msTs).
     zero_SolveArgs\<lparr>sa_Target := target, sa_Cd := cd, sa_MsTs := msTs\<rparr>)"

section \<open>Lemmas\<close>

lemma invoke_signer_Ok_iff:
  "invoke_signer L prog e = Ok sig \<longleftrightarrow>
     (\<exists>out. exec_Output L prog (hex_encode (sha512 e)) = (out, None) \<and> sig = go_copy (zeros 64) out)"
  by (cases "exec_Output L prog (hex_encode (sha512 e))") (auto simp: invoke_signer_def split: option.splits)

lemma invoke_signer_Err_iff:
  "invoke_signer L prog e = Err m \<longleftrightarrow>
     (\<exists>out err. exec_Output L prog (hex_encode (sha512 e)) = (out, Some err) \<and>
        m = ''invoking dalekph: '' @ string_of_bytes out @ '', '' @ err)"
  by (cases "exec_Output L prog (hex_encode (sha512 e))") (auto simp: invoke_signer_def split: option.splits)

lemma invoke_signer_no_panic [simp]: "invoke_signer L prog e \<noteq> Panic p" "invoke_signer L prog e \<noteq> Exit p"
  by (auto simp: invoke_signer_def split: prod.splits option.splits)

subsection \<open>Signed values\<close>

text \<open>
  The contract the builders share: serialise a payload, have its digest signed, wrap the
  signature. The payload is determined by the arguments and determines them.
\<close>

locale signed_builder =
  fixes build :: "libs \<Rightarrow> string \<Rightarrow> 'a \<Rightarrow> 'b res"
    and payload :: "'a \<Rightarrow> borsh_value" and wrap :: "'a \<Rightarrow> Sig \<Rightarrow> 'b" and ctx :: string
  assumes build_eq: "build L prog x =
      bindR (wrapR ctx (of_sum (borsh_Serialize L (payload x))))
        (\<lambda>e. bindR (invoke_signer L prog e) (\<lambda>sig. Ok (wrap x sig)))"
    and payload_inj: "payload x = payload y \<Longrightarrow> x = y"
    and payload_type: "same_type (payload x) (payload y)"
begin

lemma build_Ok_iff:
  "build L prog x = Ok y \<longleftrightarrow>
     (\<exists>e out. borsh_Serialize L (payload x) = Inr e \<and>
        exec_Output L prog (hex_encode (sha512 e)) = (out, None) \<and> y = wrap x (go_copy (zeros 64) out))"
  by (auto simp: build_eq invoke_signer_Ok_iff)

lemma build_no_panic: "\<not> panics (build L prog x)"
  by (auto simp: build_eq panics_iff bindR_Panic_iff)

text \<open>Every failure is the serialiser's or the signer's, with its context in front.\<close>

lemma build_Err_iff:
  "build L prog x = Err m \<longleftrightarrow>
     (\<exists>e. borsh_Serialize L (payload x) = Inl e \<and> m = ctx @ '': '' @ e) \<or>
     (\<exists>e out err. borsh_Serialize L (payload x) = Inr e \<and>
        exec_Output L prog (hex_encode (sha512 e)) = (out, Some err) \<and>
        m = ''invoking dalekph: '' @ string_of_bytes out @ '', '' @ err)"
  by (cases "borsh_Serialize L (payload x)") (auto simp: build_eq bindR_Err_iff invoke_signer_Err_iff)

text \<open>What is handed to the signer determines the arguments, short of a digest collision.\<close>

lemma digest_binds:
  assumes "borsh_ok (borsh_Serialize L)" "bw_value (payload x)" "bw_value (payload y)"
    and "borsh_Serialize L (payload x) = Inr e" "borsh_Serialize L (payload y) = Inr d"
    and "hex_encode (sha512 e) = hex_encode (sha512 d)"
  shows "x = y \<or> (e \<noteq> d \<and> sha512 e = sha512 d)"
proof (cases "e = d")
  case True
  then have "payload x = payload y"
    using borsh_ok_inj [OF assms(1-3) payload_type assms(4)] assms(5) by simp
  then show ?thesis by (simp add: payload_inj)
next
  case False
  then show ?thesis using assms(6) by (simp add: hex_encode_inj)
qed

end

interpretation v2b: signed_builder
  "\<lambda>L prog (args, p, t). CreateSolveV2 L prog args p t"
  "\<lambda>(args, p, t). VSolveV2Args \<lparr>v2a_Args = args, v2a_PermitOwner = p, v2a_TransferOwner = t\<rparr>"
  "\<lambda>(args, p, t) sig. solve_v2_args \<lparr>v2_Args = \<lparr>v2a_Args = args, v2a_PermitOwner = p,
     v2a_TransferOwner = t\<rparr>, v2_Sig = sig\<rparr>"
  "''making solve v2 digest''"
  by unfold_locales (auto simp: CreateSolveV2_def solve_v2_args_def Let_def)

interpretation v3b: signed_builder
  "\<lambda>L prog (args, g, m). CreateSolveV3 L prog args g m"
  "\<lambda>(args, g, m). VSolveV3Args \<lparr>v3a_Args = args, v3a_GasToken = g, v3a_GasTokenAmt = m, v3a_GasTokenPermit = None\<rparr>"
  "\<lambda>(args, g, m) sig. solve_v3_args \<lparr>v3_Args = \<lparr>v3a_Args = args, v3a_GasToken = g,
     v3a_GasTokenAmt = m, v3a_GasTokenPermit = None\<rparr>, v3_Sig = sig\<rparr>"
  "''making solve v2 digest''"
  by unfold_locales (auto simp: CreateSolveV3_def solve_v3_args_def Let_def)

interpretation sab: signed_builder
  "\<lambda>L prog (asset, target, amount, cd, permit, msTs).
     CreateSolveArgsSigArgs L prog asset target amount cd permit msTs"
  "\<lambda>x. VSolveArgs (token_solve x)" "\<lambda>x sig. \<lparr>sas_Sig = sig, sas_Args = token_solve x\<rparr>"
  "''making digest''"
  by unfold_locales
    (auto simp: CreateSolveArgsSigArgs_def token_solve_def Let_def split: option.splits)

interpretation ntb: signed_builder
  "\<lambda>L prog (target, cd, msTs). CreateSolveArgsSigArgsNoToken L prog target cd msTs"
  "\<lambda>x. VSolveArgs (plain_solve x)" "\<lambda>x sig. \<lparr>sas_Sig = sig, sas_Args = plain_solve x\<rparr>"
  "''making digest''"
  by unfold_locales
    (auto simp: CreateSolveArgsSigArgsNoToken_def plain_solve_def zero_SolveArgs_def Let_def)

lemma CreatePayoffForOtherArgs_eq:
  "CreatePayoffForOtherArgs L prog helper eoa markets msTs =
     bindR (NewPayoffForOther L markets eoa)
       (\<lambda>cd. CreateSolveArgsSigArgsNoToken L prog helper cd msTs)"
  by (simp add: CreatePayoffForOtherArgs_def CreateSolveArgsSigArgsNoToken_def)

subsection \<open>Parsed strings\<close>

lemma decode_array_Ok_iff:
  "decode_array n s = Ok b \<longleftrightarrow> length b = n \<and> to_lower (trim_prefix s ''0x'') = hex_encode b"
  by (auto simp: decode_array_def hex_decode_into_Ok_iff)

lemma decode_array_panics_iff:
  "panics (decode_array n s) \<longleftrightarrow>
     2 * n + 2 \<le> length (trim_prefix s ''0x'') \<and>
     list_all (\<lambda>c. hex_val c \<noteq> None) (take (2 * n + 2) (trim_prefix s ''0x''))"
  by (auto simp: decode_array_def panics_bindR guardR_def hex_decode_into_panics_iff)

lemma decode_array_no_exit [simp]: "decode_array n s \<noteq> Exit e"
  by (cases "hex_decode_into n (trim_prefix s ''0x'')") (auto simp: decode_array_def guardR_def)

lemma strToAddr_length: "strToAddr s = Ok a \<Longrightarrow> length a = 20"
  by (auto simp: strToAddr_def decode_array_Ok_iff split: if_splits)

lemma addr_hex_not_Nil [simp]: "addr_hex a \<noteq> []"
  by (simp add: addr_hex_def)

lemma strToAddr_addr_hex: "length a = 20 \<Longrightarrow> strToAddr (addr_hex a) = Ok a"
  by (simp add: strToAddr_def decode_array_Ok_iff)

lemma strToBytes8_length: "strToBytes8 s = Ok a \<Longrightarrow> length a = 8"
  by (simp add: strToBytes8_def decode_array_Ok_iff)

lemma strToBytes32_length: "strToBytes32 s = Ok a \<Longrightarrow> length a = 32"
  by (simp add: strToBytes32_def decode_array_Ok_iff)

lemma strToBytes32_hex: "length a = 32 \<Longrightarrow> strToBytes32 (addr_hex a) = Ok a"
  by (simp add: strToBytes32_def decode_array_Ok_iff)

lemma length_big_Bytes_le: "length (big_Bytes i) \<le> k \<longleftrightarrow> nat \<bar>i\<bar> < 256 ^ k"
  by (simp add: big_Bytes_def length_be_bytes_le)

text \<open>An amount is right-aligned, and its sign is lost.\<close>

lemma parse_amount_eq:
  "parse_amount s = (case big_SetString10 s of
     None \<Rightarrow> Err (''amount: '' @ s)
   | Some i \<Rightarrow> if nat \<bar>i\<bar> < 256 ^ 32 then Ok (be_fixed 32 (nat \<bar>i\<bar>)) else Err (''too huge amount: '' @ s))"
proof (cases "big_SetString10 s")
  case None
  then show ?thesis by (simp add: parse_amount_def parse_int_def)
next
  case (Some i)
  show ?thesis
  proof (cases "nat \<bar>i\<bar> < 256 ^ 32")
    case True
    then have len: "length (be_bytes (nat \<bar>i\<bar>)) \<le> 32" by (simp only: length_be_bytes_le)
    from copy_at_right_aligned [OF len] zeros_be_bytes [OF True] show ?thesis
      using Some True len by (simp add: parse_amount_def parse_int_def guardR_def big_Bytes_def)
  next
    case False
    then have "\<not> length (be_bytes (nat \<bar>i\<bar>)) \<le> 32" by (simp only: length_be_bytes_le not_False_eq_True)
    then show ?thesis
      using Some False by (simp add: parse_amount_def parse_int_def guardR_def big_Bytes_def)
  qed
qed

lemma parse_amount_length: "parse_amount s = Ok a \<Longrightarrow> length a = 32"
  by (auto simp: parse_amount_eq split: option.splits if_splits)

lemma be_value_take:
  assumes "k \<le> length bs"
  shows "be_value (take k bs) = be_value bs div 256 ^ (length bs - k)"
proof -
  have "be_value bs = be_value (take k bs) * 256 ^ (length bs - k) + be_value (drop k bs)"
    using be_value_append [of "take k bs" "drop k bs"] by simp
  moreover have "be_value (drop k bs) < 256 ^ (length bs - k)"
    using be_value_lt [of "drop k bs"] by simp
  ultimately show ?thesis by simp
qed

text \<open>The window the two timestamp parsers copy: the bytes above the lowest sixteen.\<close>

lemma copy_high_window:
  assumes "16 \<le> length bs" "length bs \<le> 32"
  shows "copy_at (zeros 16) (32 - int (length bs)) bs = Ok (be_fixed 16 (be_value bs div 256 ^ 16))"
proof -
  let ?k = "length bs - 16"
  have n: "nat (32 - int (length bs)) = 16 - ?k" using assms by linarith
  have k: "?k \<le> 16" using assms by simp
  have "copy_at (zeros 16) (32 - int (length bs)) bs = Ok (zeros (16 - ?k) @ take ?k bs)"
    using assms n k by (simp add: copy_at_def go_copy_def zeros_def)
  moreover have "zeros (16 - ?k) @ take ?k bs = be_fixed 16 (be_value bs div 256 ^ 16)"
  proof -
    have "be_value bs div 256 ^ 16 = be_value (take ?k bs)"
      using assms by (simp add: be_value_take)
    moreover have "be_value (take ?k bs) < 256 ^ 16"
    proof -
      have "be_value (take ?k bs) < 256 ^ ?k"
        using be_value_lt [of "take ?k bs"] assms by simp
      also have "(256 :: nat) ^ ?k \<le> 256 ^ 16" using k by (intro power_increasing) simp_all
      finally show ?thesis .
    qed
    ultimately have "be_value (zeros (16 - ?k) @ take ?k bs) =
        be_value (be_fixed 16 (be_value bs div 256 ^ 16))"
      by (simp only: be_value_append be_value_be_fixed be_value_zeros mod_less)
    moreover have "length (zeros (16 - ?k) @ take ?k bs) = length (be_fixed 16 (be_value bs div 256 ^ 16))"
      using k assms by simp
    ultimately show ?thesis using be_value_inj by blast
  qed
  ultimately show ?thesis by simp
qed

lemma parse_msTs_padded_eq:
  "parse_msTs_padded s = (case big_SetString10 s of
     None \<Rightarrow> Err (''ms ts: '' @ s)
   | Some i \<Rightarrow>
      if nat \<bar>i\<bar> < 256 ^ 15 then Panic ''slice bounds out of range''
      else if nat \<bar>i\<bar> < 256 ^ 32 then Ok (be_fixed 16 (nat \<bar>i\<bar> div 256 ^ 16))
      else Err (''ms ts too large: '' @ dec_nat (length (big_Bytes i))))"
proof (cases "big_SetString10 s")
  case None
  then show ?thesis by (simp add: parse_msTs_padded_def parse_int_def)
next
  case (Some i)
  let ?n = "nat \<bar>i\<bar>" and ?l = "length (big_Bytes i)"
  have small: "?n < 256 ^ 15 \<longleftrightarrow> ?l \<le> 15" and large: "?n < 256 ^ 32 \<longleftrightarrow> ?l \<le> 32"
    by (simp_all only: length_big_Bytes_le)
  have unf: "parse_msTs_padded s = (if 32 < ?l then Err (''ms ts too large: '' @ dec_nat ?l)
      else copy_at (zeros 16) (32 - int ?l) (big_Bytes i))"
    using Some by (simp add: parse_msTs_padded_def parse_int_def guardR_def Let_def)
  consider "?l \<le> 15" | "16 \<le> ?l" "?l \<le> 32" | "32 < ?l" by linarith
  then show ?thesis
  proof cases
    case 1
    then have "copy_at (zeros 16) (32 - int ?l) (big_Bytes i) = Panic ''slice bounds out of range''"
      by (simp add: copy_at_def)
    with 1 show ?thesis unfolding unf Some option.case small large by simp
  next
    case 2
    from copy_high_window [OF 2] have "copy_at (zeros 16) (32 - int ?l) (big_Bytes i) =
        Ok (be_fixed 16 (?n div 256 ^ 16))"
      by (simp only: big_Bytes_def be_value_be_bytes)
    with 2 show ?thesis unfolding unf Some option.case small large by simp
  next
    case 3
    then show ?thesis unfolding unf Some option.case small large by simp
  qed
qed

lemma parse_msTs_front_eq:
  "parse_msTs_front s = (case big_SetString10 s of
     None \<Rightarrow> Err (''ms ts: '' @ s) | Some i \<Rightarrow> Ok (go_copy (zeros 16) (big_Bytes i)))"
  by (simp add: parse_msTs_front_def parse_int_def split: option.splits)

lemma parse_msTs_front_length: "parse_msTs_front s = Ok a \<Longrightarrow> length a = 16"
  by (auto simp: parse_msTs_front_eq split: option.splits)

lemma be_value_front:
  assumes "length bs \<le> 16"
  shows "be_value (go_copy (zeros 16) bs) = be_value bs * 256 ^ (16 - length bs)"
proof -
  have "go_copy (zeros 16) bs = bs @ zeros (16 - length bs)"
    using assms by (simp add: go_copy_def zeros_def)
  then show ?thesis by (simp add: be_value_append)
qed

subsection \<open>Accounts, permits and solves\<close>

lemma parse_permit_wf:
  "parse_permit asset mp = Ok (Some p) \<Longrightarrow> wf_Permit p"
  by (auto simp: parse_permit_def NewPermitGraph_def NewPermit_def wf_Permit_def strToBytes32_length
      split: option.splits)

lemma parse_permit_asset:
  "parse_permit asset mp = Ok (Some p) \<Longrightarrow> permit_Asset p = asset"
  by (auto simp: parse_permit_def NewPermitGraph_def NewPermit_def split: option.splits)

lemma wf_token_solve:
  assumes "length target = 20" "length amount = 32" "length msTs = 16"
    and "case permit of None \<Rightarrow> True | Some p \<Rightarrow> wf_Permit p"
  shows "wf_SolveArgs (token_solve (asset, target, amount, cd, permit, msTs))"
  using assms by (simp add: token_solve_def wf_SolveArgs_def wf_FromArgs_def split: option.splits)

lemma append_solve_Ok_iff:
  "append_solve f r = Ok g \<longleftrightarrow> (\<exists>m. r = Ok m \<and> g = f\<lparr>fb_SolveArgs := fb_SolveArgs f @ [m]\<rparr>)"
  by (auto simp: append_solve_def)

lemma wf_append_solve:
  "wf_FreshBackwards f \<Longrightarrow> wf_SolveArgsSigArgs m \<Longrightarrow>
     wf_FreshBackwards (f\<lparr>fb_SolveArgs := fb_SolveArgs f @ [m]\<rparr>)"
  by (simp add: wf_FreshBackwards_def)

lemma uint_byte_of_int: "0 \<le> k \<Longrightarrow> k \<le> 255 \<Longrightarrow> uint (of_int k :: byte) = k"
  by (simp add: uint_word_of_int)

lemma uint_scast_byte: "0 \<le> sint v \<Longrightarrow> sint v \<le> 255 \<Longrightarrow> uint (scast (v :: i32) :: byte) = sint v"
  using uint_byte_of_int [of "sint v"] by simp

lemma uint_byte_le: "uint (b :: byte) \<le> 255"
  using uint_lt2p [of b] by simp

lemma CreateAccountToFreshBackwardsGraph_Ok_iff:
  "CreateAccountToFreshBackwardsGraph pubKey ca = Ok f \<longleftrightarrow>
     (\<exists>eoa auth r s. strToAddr (ca_EoaAddr ca) = Ok eoa \<and>
        (case ca_Authority ca of None \<Rightarrow> auth = None | Some a \<Rightarrow> \<exists>x. strToAddr a = Ok x \<and> auth = Some x) \<and>
        0 \<le> sint (ca_SigV ca) \<and> sint (ca_SigV ca) \<le> 255 \<and>
        strToBytes32 (ca_SigR ca) = Ok r \<and> strToBytes32 (ca_SigS ca) = Ok s \<and>
        f = \<lparr>fb_Key = pubKey, fb_EoaAddr = eoa, fb_V = of_int (sint (ca_SigV ca)), fb_R = r, fb_S = s,
             fb_SolveArgs = [], fb_Authority = auth\<rparr>)"
  by (cases "ca_Authority ca")
    (auto simp: CreateAccountToFreshBackwardsGraph_def CreateAccountToFreshBackwards_def exceeds_u8_def)

lemma CreateAccountToFreshBackwardsGraph_wf:
  "length pubKey = 32 \<Longrightarrow> CreateAccountToFreshBackwardsGraph pubKey ca = Ok f \<Longrightarrow> wf_FreshBackwards f"
  by (auto simp: CreateAccountToFreshBackwardsGraph_Ok_iff wf_FreshBackwards_def strToBytes32_length
      strToAddr_length split: option.splits)

text \<open>What a successful mint request signs.\<close>

lemma CreateSolveArgsSigArgsMintGraph_OkD:
  assumes "CreateSolveArgsSigArgsMintGraph L prog asset market outcome amount referrer recipient permit msTs = Ok m"
  shows "\<exists>oc a t ref ts p cd e out.
     strToBytes8 outcome = Ok oc \<and> parse_amount amount = Ok a \<and> strToAddr market = Ok t \<and>
     strToAddr referrer = Ok ref \<and> parse_msTs_front msTs = Ok ts \<and> parse_permit asset permit = Ok p \<and>
     NewMint L oc a ref recipient = Ok cd \<and>
     borsh_Serialize L (VSolveArgs (token_solve (asset, t, a, cd, p, ts))) = Inr e \<and>
     exec_Output L prog (hex_encode (sha512 e)) = (out, None) \<and>
     m = \<lparr>sas_Sig = go_copy (zeros 64) out, sas_Args = token_solve (asset, t, a, cd, p, ts)\<rparr>"
  using assms sab.build_Ok_iff
  by (force simp: CreateSolveArgsSigArgsMintGraph_def CreateSolveArgsSigArgsMint_def)

lemma mint_graph_wf:
  assumes "CreateSolveArgsSigArgsMintGraph L prog asset market outcome amount referrer recipient permit msTs = Ok m"
  shows "wf_SolveArgsSigArgs m"
proof -
  obtain oc a t ref ts p cd out where
    f: "parse_amount amount = Ok a" "strToAddr market = Ok t" "parse_msTs_front msTs = Ok ts"
      "parse_permit asset permit = Ok p"
    and m: "m = \<lparr>sas_Sig = go_copy (zeros 64) out, sas_Args = token_solve (asset, t, a, cd, p, ts)\<rparr>"
    using CreateSolveArgsSigArgsMintGraph_OkD [OF assms] by blast
  have "case p of None \<Rightarrow> True | Some q \<Rightarrow> wf_Permit q"
    using f(4) parse_permit_wf by (auto split: option.splits)
  then show ?thesis
    using wf_token_solve parse_amount_length strToAddr_length parse_msTs_front_length f m
    by (simp add: wf_SolveArgsSigArgs_def)
qed

text \<open>A request that parses is signed, when the signer answers.\<close>

lemma CreateSolveArgsSigArgsMintGraph_OkI:
  assumes "abi_ok L" "borsh_ok (borsh_Serialize L)" "\<And>d. \<exists>out. exec_Output L prog d = (out, None)"
    and "length recipient = 20"
    and f: "strToBytes8 outcome = Ok oc" "parse_amount amount = Ok a" "strToAddr market = Ok t"
      "strToAddr referrer = Ok ref" "parse_msTs_front msTs = Ok ts" "parse_permit asset permit = Ok p"
  shows "\<exists>m. CreateSolveArgsSigArgsMintGraph L prog asset market outcome amount referrer recipient permit msTs = Ok m"
proof -
  obtain cd where cd: "NewMint L oc a ref recipient = Ok cd" "length cd = 132"
    using NewMint_layout [OF assms(1) strToBytes8_length [OF f(1)] parse_amount_length [OF f(2)]
        strToAddr_length [OF f(4)] assms(4)] strToBytes8_length [OF f(1)] parse_amount_length [OF f(2)]
      strToAddr_length [OF f(4)] assms(4) by auto
  have "case p of None \<Rightarrow> True | Some q \<Rightarrow> wf_Permit q"
    using f(6) parse_permit_wf by (auto split: option.splits)
  then have "bw_value (VSolveArgs (token_solve (asset, t, a, cd, p, ts)))"
    using wf_token_solve strToAddr_length [OF f(3)] parse_amount_length [OF f(2)]
      parse_msTs_front_length [OF f(5)] cd(2)
    by (simp add: bw_SolveArgs_def) (simp add: token_solve_def small_def split: option.splits)
  then obtain e where e: "borsh_Serialize L (VSolveArgs (token_solve (asset, t, a, cd, p, ts))) = Inr e"
    using borsh_ok_total [OF assms(2)] by blast
  obtain out where out: "exec_Output L prog (hex_encode (sha512 e)) = (out, None)"
    using assms(3) by blast
  have "CreateSolveArgsSigArgs L prog asset t a cd p ts =
      Ok \<lparr>sas_Sig = go_copy (zeros 64) out, sas_Args = token_solve (asset, t, a, cd, p, ts)\<rparr>"
    using sab.build_Ok_iff [of L prog "(asset, t, a, cd, p, ts)"] e out by auto
  then show ?thesis
    using f cd by (simp add: CreateSolveArgsSigArgsMintGraph_def CreateSolveArgsSigArgsMint_def)
qed

section \<open>Properties\<close>

text \<open>
  \<^verbatim>\<open>strToAddr\<close> accepts the empty string, as the zero address, and otherwise exactly
  the strings that are the 40 hexadecimal digits of the result, of either case, behind at
  most one \<^verbatim>\<open>0x\<close>. It panics, instead of returning its length error, exactly when the
  first 42 characters after the prefix are all digits.
\<close>

theorem strToAddr_exact:
  "(strToAddr s = Ok a \<longleftrightarrow>
      (if s = '''' then a = zeros 20
       else length a = 20 \<and> to_lower (trim_prefix s ''0x'') = hex_encode a)) \<and>
   (panics (strToAddr s) \<longleftrightarrow>
      42 \<le> length (trim_prefix s ''0x'') \<and>
      list_all (\<lambda>c. hex_val c \<noteq> None) (take 42 (trim_prefix s ''0x'')))"
proof
  show "strToAddr s = Ok a \<longleftrightarrow>
      (if s = '''' then a = zeros 20
       else length a = 20 \<and> to_lower (trim_prefix s ''0x'') = hex_encode a)"
    by (auto simp: strToAddr_def decode_array_Ok_iff)
  have "length (trim_prefix [] ''0x'') = 0" by (simp add: trim_prefix_def)
  then show "panics (strToAddr s) \<longleftrightarrow> 42 \<le> length (trim_prefix s ''0x'') \<and>
      list_all (\<lambda>c. hex_val c \<noteq> None) (take 42 (trim_prefix s ''0x''))"
    by (cases "s = []") (simp_all add: strToAddr_def decode_array_panics_iff)
qed

text \<open>
  The timestamp of a claim is unusable: on a decimal string of absolute value below
  \<^verbatim>\<open>2^120\<close>, which every time in milliseconds is, \<^verbatim>\<open>CreatePayoffForOtherArgsGraph\<close>
  panics before it reads a market; below \<^verbatim>\<open>2^256\<close> it signs the timestamp divided by
  \<^verbatim>\<open>2^128\<close>, which is zero for every value an unsigned 128-bit timestamp has; above, it
  returns the length error.
\<close>

theorem payoff_timestamp:
  assumes "big_SetString10 msTs = Some i"
  shows "CreatePayoffForOtherArgsGraph L prog helper eoa markets msTs =
    (if nat \<bar>i\<bar> < 2 ^ 120 then Panic ''slice bounds out of range''
     else if nat \<bar>i\<bar> < 2 ^ 256 then
       bindR (parse_markets L markets)
         (\<lambda>ms. CreatePayoffForOtherArgs L prog helper eoa ms (be_fixed 16 (nat \<bar>i\<bar> div 2 ^ 128)))
     else Err (''ms ts too large: '' @ dec_nat (length (big_Bytes i))))"
proof -
  have p: "(2 :: nat) ^ 120 = 256 ^ 15" "(2 :: nat) ^ 128 = 256 ^ 16" "(2 :: nat) ^ 256 = 256 ^ 32"
    by simp_all
  show ?thesis
    unfolding CreatePayoffForOtherArgsGraph_def parse_msTs_padded_eq assms option.case p
    by (simp only: bindR.simps split: if_split) simp
qed

theorem payoff_timestamp_witness:
  "CreatePayoffForOtherArgsGraph ref_libs ''signer'' (zeros 20) (zeros 20) [] ''1731628800000'' =
     Panic ''slice bounds out of range''"
proof -
  have "big_SetString10 ''1731628800000'' = Some 1731628800000"
    by (simp add: big_SetString10_def scan_nat_def digit_val_def)
  from payoff_timestamp [OF this] show ?thesis by simp
qed

text \<open>
  The timestamp of a mint is left-aligned: on a decimal string below \<^verbatim>\<open>2^128\<close> the
  sixteen bytes \<^verbatim>\<open>CreateSolveArgsSigArgsMintGraph\<close> signs, read big-endian as the other
  clients write them, are the timestamp times a power of 256, equal to the timestamp only
  when it is zero or fills all sixteen bytes. Two timestamps a factor of 256 apart are
  signed as the same single-use value.
\<close>

theorem mint_timestamp:
  assumes "big_SetString10 msTs = Some i" and "nat \<bar>i\<bar> < 2 ^ 128"
    and "big_SetString10 later = Some (256 * i)" and "nat \<bar>256 * i\<bar> < 2 ^ 128"
  shows "(\<exists>ts. parse_msTs_front msTs = Ok ts \<and> length ts = 16 \<and>
      be_value ts = nat \<bar>i\<bar> * 256 ^ (16 - length (big_Bytes i)) \<and>
      (be_value ts = nat \<bar>i\<bar> \<longleftrightarrow> i = 0 \<or> 2 ^ 120 \<le> nat \<bar>i\<bar>)) \<and>
    parse_msTs_front later = parse_msTs_front msTs"
proof -
  let ?l = "length (big_Bytes i)"
  have p: "(2 :: nat) ^ 128 = 256 ^ 16" "(2 :: nat) ^ 120 = 256 ^ 15" by simp_all
  have l: "?l \<le> 16" using assms(2) unfolding p by (simp only: length_big_Bytes_le)
  have v: "be_value (go_copy (zeros 16) (big_Bytes i)) = nat \<bar>i\<bar> * 256 ^ (16 - ?l)"
    using be_value_front [OF l] by (simp add: big_Bytes_def)
  have "nat \<bar>i\<bar> * 256 ^ (16 - ?l) = nat \<bar>i\<bar> \<longleftrightarrow> i = 0 \<or> 16 - ?l = 0" by simp
  also have "16 - ?l = 0 \<longleftrightarrow> \<not> ?l \<le> 15" using l by linarith
  also have "\<dots> \<longleftrightarrow> 2 ^ 120 \<le> nat \<bar>i\<bar>" unfolding length_big_Bytes_le p by (simp only: not_less)
  finally have w: "be_value (go_copy (zeros 16) (big_Bytes i)) = nat \<bar>i\<bar> \<longleftrightarrow> i = 0 \<or> 2 ^ 120 \<le> nat \<bar>i\<bar>"
    unfolding v .
  have "big_Bytes (256 * i) = big_Bytes i @ [0]" if "i \<noteq> 0"
    using that by (simp add: big_Bytes_def be_bytes.simps [of "256 * nat \<bar>i\<bar>"] abs_mult nat_mult_distrib)
  moreover have "length (big_Bytes (256 * i)) \<le> 16"
    using assms(4) unfolding p by (simp only: length_big_Bytes_le)
  ultimately have "go_copy (zeros 16) (big_Bytes (256 * i)) = go_copy (zeros 16) (big_Bytes i)"
    using l by (cases "i = 0") (auto simp: go_copy_def zeros_def Cons_replicate_eq)
  then show ?thesis
    using assms(1,3) v w by (simp add: parse_msTs_front_eq)
qed

theorem mint_timestamp_witness:
  "parse_msTs_front ''256'' = parse_msTs_front ''1''"
proof -
  have "big_SetString10 ''1'' = Some 1" "big_SetString10 ''256'' = Some (256 * 1)"
    by (simp_all add: big_SetString10_def scan_nat_def digit_val_def)
  from mint_timestamp [OF this(1) _ this(2)] show ?thesis by simp
qed

text \<open>
  C33. A request to create an account is converted exactly when its fields parse: the
  result carries the server's key, the parsed addresses and signature words and the
  recovery byte as given (never truncated, since a value outside a byte is an error), no
  solve, and is well formed.
\<close>

theorem fresh_backwards_graph:
  assumes "length pubKey = 32"
  shows "CreateAccountToFreshBackwardsGraph pubKey ca = Ok f \<longleftrightarrow>
    wf_FreshBackwards f \<and> fb_Key f = pubKey \<and> fb_SolveArgs f = [] \<and>
    strToAddr (ca_EoaAddr ca) = Ok (fb_EoaAddr f) \<and>
    sint (ca_SigV ca) = uint (fb_V f) \<and>
    strToBytes32 (ca_SigR ca) = Ok (fb_R f) \<and> strToBytes32 (ca_SigS ca) = Ok (fb_S f) \<and>
    (case ca_Authority ca of None \<Rightarrow> fb_Authority f = None
     | Some a \<Rightarrow> (\<exists>x. fb_Authority f = Some x \<and> strToAddr a = Ok x))"
    (is "?l = Ok f \<longleftrightarrow> ?r")
proof
  assume l: "?l = Ok f"
  then have wf: "wf_FreshBackwards f"
    using assms by (rule CreateAccountToFreshBackwardsGraph_wf [rotated])
  from l show ?r
    using wf by (auto simp: CreateAccountToFreshBackwardsGraph_Ok_iff uint_scast_byte split: option.splits)
next
  assume r: ?r
  have "uint (fb_V f) \<le> 255" "0 \<le> uint (fb_V f)"
    using uint_byte_le by simp_all
  with r show "?l = Ok f"
    by (auto simp: CreateAccountToFreshBackwardsGraph_Ok_iff split: option.splits)
qed

theorem fresh_backwards_graph_witness:
  "CreateAccountToFreshBackwardsGraph (zeros 32)
     \<lparr>ca_EoaAddr = addr_hex (replicate 20 7), ca_SigV = 28, ca_SigR = addr_hex (replicate 32 1),
      ca_SigS = addr_hex (replicate 32 2), ca_Authority = None\<rparr> =
   Ok \<lparr>fb_Key = zeros 32, fb_EoaAddr = replicate 20 7, fb_V = 28, fb_R = replicate 32 1,
      fb_S = replicate 32 2, fb_SolveArgs = [], fb_Authority = None\<rparr>"
  by (subst fresh_backwards_graph) (simp_all add: wf_FreshBackwards_def strToAddr_addr_hex strToBytes32_hex)

text \<open>
  A successful mint request is appended to the fresh account, which is otherwise left
  as it was and stays well formed. What is appended takes exactly the requested amount of
  the asset, calls the requested market, and its calldata mints the requested outcome for
  the same amount to the recipient; its signature is the output of the signer on the
  digest of exactly these arguments.
\<close>

theorem tag_mint_graph:
  assumes "abi_ok L" and "length recipient = 20" and "wf_FreshBackwards f"
    and "TagFreshBackwardsWithMintGraph L prog f asset market outcome amount referrer recipient permit msTs = Ok g"
  shows "wf_FreshBackwards g \<and> (\<exists>m oc a ref sel e out.
    g = f\<lparr>fb_SolveArgs := fb_SolveArgs f @ [m]\<rparr> \<and>
    sa_From (sas_Args m) = [\<lparr>from_Asset = asset, from_ToTake = a, from_MaxUnspent = zeros 32\<rparr>] \<and>
    parse_amount amount = Ok a \<and>
    strToAddr market = Ok (sa_Target (sas_Args m)) \<and>
    strToBytes8 outcome = Ok oc \<and> strToAddr referrer = Ok ref \<and>
    length sel = 4 \<and>
    sa_Cd (sas_Args m) = sel @ (oc @ zeros 24) @ a @ (zeros 12 @ ref) @ (zeros 12 @ recipient) \<and>
    list_all (\<lambda>p. permit_Asset p = asset) (sa_Permit (sas_Args m)) \<and>
    borsh_Serialize L (VSolveArgs (sas_Args m)) = Inr e \<and>
    exec_Output L prog (hex_encode (sha512 e)) = (out, None) \<and> sas_Sig m = go_copy (zeros 64) out)"
proof -
  obtain m where ok: "CreateSolveArgsSigArgsMintGraph L prog asset market outcome amount referrer recipient
      permit msTs = Ok m" and g: "g = f\<lparr>fb_SolveArgs := fb_SolveArgs f @ [m]\<rparr>"
    using assms(4) by (auto simp: TagFreshBackwardsWithMintGraph_def append_solve_Ok_iff)
  obtain oc a t ref ts p cd e out where
    f: "strToBytes8 outcome = Ok oc" "parse_amount amount = Ok a" "strToAddr market = Ok t"
      "strToAddr referrer = Ok ref" "parse_permit asset permit = Ok p"
    and cd: "NewMint L oc a ref recipient = Ok cd"
    and e: "borsh_Serialize L (VSolveArgs (token_solve (asset, t, a, cd, p, ts))) = Inr e"
      "exec_Output L prog (hex_encode (sha512 e)) = (out, None)"
    and m: "m = \<lparr>sas_Sig = go_copy (zeros 64) out, sas_Args = token_solve (asset, t, a, cd, p, ts)\<rparr>"
    using CreateSolveArgsSigArgsMintGraph_OkD [OF ok] by blast
  obtain sel where sel: "length sel = 4"
    "cd = sel @ (oc @ zeros 24) @ a @ (zeros 12 @ ref) @ (zeros 12 @ recipient)"
    using NewMint_layout [OF assms(1) strToBytes8_length [OF f(1)] parse_amount_length [OF f(2)]
        strToAddr_length [OF f(4)] assms(2)] cd by auto
  have p: "list_all (\<lambda>p. permit_Asset p = asset) (sa_Permit (sas_Args m))"
    using f(5) parse_permit_asset by (auto simp: m token_solve_def split: option.splits)
  have "wf_FreshBackwards g"
    unfolding g using wf_append_solve [OF assms(3) mint_graph_wf [OF ok]] .
  then show ?thesis
    using g f e sel p by (force simp: m token_solve_def)
qed

theorem tag_mint_graph_witness:
  "\<exists>g m. TagFreshBackwardsWithMintGraph ref_libs ''signer'' zero_FreshBackwards 0 (addr_hex (replicate 20 1))
       (addr_hex (replicate 8 2)) ''5'' '''' (replicate 20 3) None ''1'' = Ok g \<and>
     fb_SolveArgs g = [m] \<and> wf_FreshBackwards g"
proof -
  have n: "parse_amount ''5'' = Ok (be_fixed 32 5)" "parse_msTs_front ''1'' = Ok (go_copy (zeros 16) (big_Bytes 1))"
    by (simp_all add: parse_amount_eq parse_msTs_front_eq big_SetString10_def scan_nat_def digit_val_def)
  have b: "strToBytes8 (addr_hex (replicate 8 2)) = Ok (replicate 8 2)"
    by (simp add: strToBytes8_def decode_array_Ok_iff)
  have x: "\<exists>out. exec_Output ref_libs ''signer'' d = (out, None)" for d by (simp add: ref_libs_def)
  obtain m where "CreateSolveArgsSigArgsMintGraph ref_libs ''signer'' 0 (addr_hex (replicate 20 1))
       (addr_hex (replicate 8 2)) ''5'' '''' (replicate 20 3) None ''1'' = Ok m"
    using CreateSolveArgsSigArgsMintGraph_OkI [OF ref_abi_ok ref_borsh_ok x _ b n(1)
        strToAddr_addr_hex _ n(2), of "replicate 20 3" "replicate 20 1" "''''" "zeros 20" 0 None None]
    by (auto simp: strToAddr_def parse_permit_def)
  then have g: "TagFreshBackwardsWithMintGraph ref_libs ''signer'' zero_FreshBackwards 0 (addr_hex (replicate 20 1))
       (addr_hex (replicate 8 2)) ''5'' '''' (replicate 20 3) None ''1'' =
      Ok (zero_FreshBackwards\<lparr>fb_SolveArgs := [m]\<rparr>)"
    by (simp add: TagFreshBackwardsWithMintGraph_def append_solve_def zero_FreshBackwards_def)
  have "wf_FreshBackwards zero_FreshBackwards" by (simp add: wf_FreshBackwards_def zero_FreshBackwards_def)
  from conjunct1 [OF tag_mint_graph [OF ref_abi_ok _ this g]]
  have "wf_FreshBackwards (zero_FreshBackwards\<lparr>fb_SolveArgs := [m]\<rparr>)" by simp
  with g show ?thesis by simp
qed

text \<open>
  C34. \<^verbatim>\<open>CreateSolveV2\<close> returns the tag of the second solve format with every other variant
  at zero and the caller's arguments unchanged, and what it hands to the signer binds
  them: two calls that have the same 128 hexadecimal digits signed were made with the same
  solves and the same owners, unless they exhibit a collision of SHA-512.
\<close>

theorem solve_v2_binds:
  assumes "borsh_ok (borsh_Serialize L)"
    and "bw_SolveV2Args \<lparr>v2a_Args = args, v2a_PermitOwner = p, v2a_TransferOwner = t\<rparr>"
    and "bw_SolveV2Args \<lparr>v2a_Args = args', v2a_PermitOwner = p', v2a_TransferOwner = t'\<rparr>"
    and "CreateSolveV2 L prog args p t = Ok x"
  shows "(\<exists>e sig. borsh_Serialize L (VSolveV2Args (v2_Args (args_SolveV2 x))) = Inr e \<and>
      invoke_signer L prog e = Ok sig \<and> length (hex_encode (sha512 e)) = 128 \<and>
      x = solve_v2_args \<lparr>v2_Args = \<lparr>v2a_Args = args, v2a_PermitOwner = p, v2a_TransferOwner = t\<rparr>,
            v2_Sig = sig\<rparr> \<and>
      (\<exists>d. borsh_Serialize L (VSolveV2Args
            \<lparr>v2a_Args = args', v2a_PermitOwner = p', v2a_TransferOwner = t'\<rparr>) = Inr d \<and>
         (hex_encode (sha512 e) = hex_encode (sha512 d) \<longrightarrow>
            args = args' \<and> p = p' \<and> t = t' \<or> e \<noteq> d \<and> sha512 e = sha512 d)))"
proof -
  obtain e out where e: "borsh_Serialize L (VSolveV2Args
        \<lparr>v2a_Args = args, v2a_PermitOwner = p, v2a_TransferOwner = t\<rparr>) = Inr e"
    and o: "exec_Output L prog (hex_encode (sha512 e)) = (out, None)"
    and x: "x = solve_v2_args \<lparr>v2_Args = \<lparr>v2a_Args = args, v2a_PermitOwner = p, v2a_TransferOwner = t\<rparr>,
        v2_Sig = go_copy (zeros 64) out\<rparr>"
    using v2b.build_Ok_iff [of L prog "(args, p, t)" x] assms(4) by auto
  obtain d where d: "borsh_Serialize L (VSolveV2Args
        \<lparr>v2a_Args = args', v2a_PermitOwner = p', v2a_TransferOwner = t'\<rparr>) = Inr d"
    using borsh_ok_total [OF assms(1)] assms(3) bw_value.simps(2) by blast
  have "hex_encode (sha512 e) = hex_encode (sha512 d) \<Longrightarrow>
      args = args' \<and> p = p' \<and> t = t' \<or> e \<noteq> d \<and> sha512 e = sha512 d"
    using v2b.digest_binds [OF assms(1), of "(args, p, t)" "(args', p', t')" e d] assms(2,3) e d by simp
  moreover have "v2_Args (args_SolveV2 x) = \<lparr>v2a_Args = args, v2a_PermitOwner = p, v2a_TransferOwner = t\<rparr>"
    by (simp add: x solve_v2_args_def)
  ultimately show ?thesis
    using e o x d by (auto simp: invoke_signer_Ok_iff length_sha512)
qed

theorem solve_v2_binds_witness:
  "\<exists>x. CreateSolveV2 ref_libs ''signer'' [] (zeros 20) (zeros 20) = Ok x \<and> args_Enum x = ArgsSolveV2"
proof -
  have w: "bw_SolveV2Args \<lparr>v2a_Args = [], v2a_PermitOwner = zeros 20, v2a_TransferOwner = zeros 20\<rparr>"
    by (simp add: bw_SolveV2Args_def wf_SolveV2Args_def small_def)
  then obtain e where e: "borsh_Serialize ref_libs (VSolveV2Args
      \<lparr>v2a_Args = [], v2a_PermitOwner = zeros 20, v2a_TransferOwner = zeros 20\<rparr>) = Inr e"
    using borsh_ok_total [OF ref_borsh_ok] bw_value.simps(2) by blast
  have "exec_Output ref_libs ''signer'' (hex_encode (sha512 e)) = (replicate 64 97, None)"
    by (simp add: ref_libs_def)
  then obtain x where x: "CreateSolveV2 ref_libs ''signer'' [] (zeros 20) (zeros 20) = Ok x"
    using v2b.build_Ok_iff [of ref_libs "''signer''" "([], zeros 20, zeros 20)"] e by auto
  from solve_v2_binds [OF ref_borsh_ok w w x] x show ?thesis by (auto simp: solve_v2_args_def)
qed

end
