(* ===== verification/Proxy.thy ===== *)
theory Proxy
  imports Libs
begin

text \<open>
  The address derivation of \<^verbatim>\<open>lib/types/proxy.go\<close>: the creation code of the beacon proxy
  around a factory address, its hash, and the address \<^verbatim>\<open>CREATE2\<close> gives the account of
  an owner.
\<close>

section \<open>Definitions\<close>

text \<open>The bytes of a hexadecimal literal; the source ignores the error, which a literal has not.\<close>

definition hex_literal :: "string \<Rightarrow> bytes" where
  "hex_literal s = (case hex_decode_string s of Ok b \<Rightarrow> b | _ \<Rightarrow> [])"

definition beacon_prefix :: string where
  "beacon_prefix = ''60738060093d393df35f3560e01c638fd3ab801461001357610036565b60205f5f5f73''"

definition beacon_suffix :: string where
  "beacon_suffix = ''5afa5f51610059565b7f360894a13ba1a3210667c828492db98dca3e2076cc3735a920a3ca505d382bbc545b365f5f375f365f5f935af43d5f5f3e3d5f8261007157fd5bf3''"

text \<open>The argument of the hash in \<^verbatim>\<open>makeMetamorphicBeaconProxyHash\<close>.\<close>

definition beacon_code :: "Address \<Rightarrow> bytes" where
  "beacon_code factory = hex_literal beacon_prefix @ factory @ hex_literal beacon_suffix"

definition makeMetamorphicBeaconProxyHash :: "libs \<Rightarrow> Address \<Rightarrow> bytes" where
  "makeMetamorphicBeaconProxyHash L factory = Keccak256 L (beacon_code factory)"

text \<open>The 85 bytes \<^verbatim>\<open>GetClientAddr\<close> fills in before it hashes them.\<close>

definition client_preimage :: "libs \<Rightarrow> Address \<Rightarrow> Address \<Rightarrow> bytes" where
  "client_preimage L factory eoa =
     (let salt = Keccak256 L eoa;
          d = (zeros (1 + 20 + 32 + 32))[0 := 0xff];
          d = copy_range d 1 21 factory;
          d = copy_range d 21 53 salt;
          m = makeMetamorphicBeaconProxyHash L factory
      in copy_range d 53 85 m)"

definition GetClientAddr :: "libs \<Rightarrow> Address \<Rightarrow> Address \<Rightarrow> Address" where
  "GetClientAddr L factory eoa = BytesToAddress L (drop 12 (Keccak256 L (client_preimage L factory eoa)))"

section \<open>Lemmas\<close>

lemma length_beacon_parts [simp]:
  "length (hex_literal beacon_prefix) = 35" "length (hex_literal beacon_suffix) = 69"
  by (simp_all add: hex_literal_def beacon_prefix_def beacon_suffix_def hex_decode_string_def hex_val_def)

lemma hd_beacon_prefix: "take 9 (hex_literal beacon_prefix) = [0x60, 0x73, 0x80, 0x60, 0x09, 0x3d, 0x39, 0x3d, 0xf3]"
  by (simp add: hex_literal_def beacon_prefix_def hex_decode_string_def hex_val_def)

text \<open>The fills do not overlap and cover everything.\<close>

lemma client_preimage_eq:
  assumes "geth_ok L" and "length factory = 20"
  shows "client_preimage L factory eoa =
    [0xff] @ factory @ Keccak256 L eoa @ makeMetamorphicBeaconProxyHash L factory"
proof -
  have k: "length (Keccak256 L b) = 32" for b using assms(1) by (rule geth_okD)
  have z: "(zeros (1 + 20 + 32 + 32))[0 := 0xff] = [0xff] @ zeros 20 @ zeros 64"
    by (simp add: zeros_def eval_nat_numeral)
  have "copy_range ([0xff] @ zeros 20 @ zeros 64) 1 21 factory = [0xff] @ factory @ zeros 64"
    by (rule copy_range_exact) (simp_all add: assms)
  moreover have "[0xff] @ factory @ zeros 64 = ([0xff] @ factory) @ zeros 32 @ zeros 32"
    by (simp add: zeros_def replicate_add [symmetric])
  moreover have "copy_range (([0xff] @ factory) @ zeros 32 @ zeros 32) 21 53 (Keccak256 L eoa) =
      ([0xff] @ factory) @ Keccak256 L eoa @ zeros 32"
    by (rule copy_range_exact) (simp_all add: assms k)
  moreover have "([0xff] @ factory) @ Keccak256 L eoa @ zeros 32 =
      ([0xff] @ factory @ Keccak256 L eoa) @ zeros 32 @ []"
    by simp
  moreover have "copy_range (([0xff] @ factory @ Keccak256 L eoa) @ zeros 32 @ []) 53 85
      (makeMetamorphicBeaconProxyHash L factory) =
      ([0xff] @ factory @ Keccak256 L eoa) @ makeMetamorphicBeaconProxyHash L factory @ []"
    by (rule copy_range_exact) (simp_all add: assms k makeMetamorphicBeaconProxyHash_def)
  ultimately show ?thesis
    unfolding client_preimage_def Let_def z by simp
qed

lemma GetClientAddr_eq:
  assumes "geth_ok L"
  shows "GetClientAddr L factory eoa = drop 12 (Keccak256 L (client_preimage L factory eoa))"
proof -
  have "length (drop 12 (Keccak256 L (client_preimage L factory eoa))) = 20"
    using assms by (simp add: geth_okD)
  then show ?thesis using assms by (simp add: GetClientAddr_def geth_okD)
qed

lemma length_GetClientAddr: "geth_ok L \<Longrightarrow> length (GetClientAddr L factory eoa) = 20"
  by (simp add: GetClientAddr_def geth_okD)

section \<open>Properties\<close>

text \<open>
  The proxy creation code is 124 bytes for every factory: its first nine bytes are the
  constructor that copies and returns \<^verbatim>\<open>0x73\<close> bytes from offset nine, and \<^verbatim>\<open>0x73\<close> is
  exactly the number of bytes that follow, with the factory's address at offset 35.
\<close>

theorem beacon_code_layout:
  assumes "length factory = 20"
  shows "length (beacon_code factory) = 124 \<and>
    take 9 (beacon_code factory) = [0x60, 0x73, 0x80, 0x60, 0x09, 0x3d, 0x39, 0x3d, 0xf3] \<and>
    unat (beacon_code factory ! 1) = length (drop 9 (beacon_code factory)) \<and>
    take 20 (drop 35 (beacon_code factory)) = factory"
proof -
  have t: "take 9 (beacon_code factory) = [0x60, 0x73, 0x80, 0x60, 0x09, 0x3d, 0x39, 0x3d, 0xf3]"
    using hd_beacon_prefix by (simp add: beacon_code_def)
  have "beacon_code factory ! 1 = take 9 (beacon_code factory) ! 1" by simp
  also have "\<dots> = 0x73" unfolding t by simp
  finally show ?thesis using assms t by (simp add: beacon_code_def)
qed

theorem beacon_code_layout_witness:
  "length (beacon_code (zeros 20)) = 124 \<and> take 20 (drop 35 (beacon_code (replicate 20 7))) = replicate 20 7"
  using beacon_code_layout [of "zeros 20"] beacon_code_layout [of "replicate 20 7"] by simp

text \<open>
  C35. The client address is the last 20 bytes of the hash of the \<^verbatim>\<open>CREATE2\<close> preimage: the byte
  \<^verbatim>\<open>0xff\<close>, the factory, the hashed owner as salt and the hash of the creation code around the
  factory. Another owner, or the same under another factory, has the same address only through a
  collision of the hash: on the two owners, or on the last 20 bytes at two different preimages.
\<close>

theorem client_addr_binds_owner:
  assumes "geth_ok L" and "length factory = 20"
  shows "GetClientAddr L factory eoa =
      drop 12 (Keccak256 L ([0xff] @ factory @ Keccak256 L eoa @ Keccak256 L (beacon_code factory))) \<and>
    length (GetClientAddr L factory eoa) = 20 \<and>
    (\<forall>factory' eoa'. length factory' = 20 \<longrightarrow> (factory', eoa') \<noteq> (factory, eoa) \<longrightarrow>
      GetClientAddr L factory' eoa' = GetClientAddr L factory eoa \<longrightarrow>
      eoa' \<noteq> eoa \<and> Keccak256 L eoa' = Keccak256 L eoa \<or>
      client_preimage L factory' eoa' \<noteq> client_preimage L factory eoa \<and>
        drop 12 (Keccak256 L (client_preimage L factory' eoa')) = drop 12 (Keccak256 L (client_preimage L factory eoa)))"
proof (intro conjI allI impI)
  note pre = client_preimage_eq [OF assms(1)]
  show addr: "GetClientAddr L factory eoa =
      drop 12 (Keccak256 L ([0xff] @ factory @ Keccak256 L eoa @ Keccak256 L (beacon_code factory)))"
    using pre [OF assms(2)] GetClientAddr_eq [OF assms(1)] by (simp add: makeMetamorphicBeaconProxyHash_def)
  show "length (GetClientAddr L factory eoa) = 20" using geth_okD(4) [OF assms(1)] by (simp add: addr)
  fix factory' eoa'
  assume len: "length factory' = 20" and ne: "(factory', eoa') \<noteq> (factory, eoa)"
    and eq: "GetClientAddr L factory' eoa' = GetClientAddr L factory eoa"
  show "eoa' \<noteq> eoa \<and> Keccak256 L eoa' = Keccak256 L eoa \<or>
    client_preimage L factory' eoa' \<noteq> client_preimage L factory eoa \<and>
      drop 12 (Keccak256 L (client_preimage L factory' eoa')) = drop 12 (Keccak256 L (client_preimage L factory eoa))"
  proof (cases "client_preimage L factory' eoa' = client_preimage L factory eoa")
    case True
    then have "factory' = factory \<and> Keccak256 L eoa' = Keccak256 L eoa"
      using pre [OF assms(2)] pre [OF len] assms(2) len geth_okD(4) [OF assms(1)] by simp
    then show ?thesis using ne by simp
  next
    case False
    then show ?thesis using eq GetClientAddr_eq [OF assms(1)] by simp
  qed
qed

theorem client_addr_binds_owner_witness:
  "GetClientAddr ref_libs (zeros 20) (zeros 20) =
     drop 12 (Keccak256 ref_libs ([0xff] @ zeros 20 @ Keccak256 ref_libs (zeros 20) @ Keccak256 ref_libs (beacon_code (zeros 20)))) \<and>
   length (GetClientAddr ref_libs (zeros 20) (zeros 20)) = 20"
  using client_addr_binds_owner [OF ref_geth_ok, of "zeros 20" "zeros 20"] unfolding length_zeros by blast

end
