(* ===== verification/Database.thy ===== *)
theory Database
  imports Libs "HOL-Library.Multiset"
begin

text \<open>
  The tables the server works on, the SQL functions and the view of \<^verbatim>\<open>db/migrations\<close> it
  calls, the statements embedded in the Go code, and \<^verbatim>\<open>PickPrivateKey\<close> of
  \<^verbatim>\<open>lib/db/db.go\<close>. A table is the list of its rows in insertion order; a \<^verbatim>\<open>SERIAL\<close> key
  is kept where a statement reads it. A statement that fails changes nothing.
\<close>

section \<open>Column types\<close>

text \<open>A nullable timestamp, in the order of \<^verbatim>\<open>ASC NULLS FIRST\<close>.\<close>

datatype sql_time = SqlNull | SqlTime nat

instantiation sql_time :: linorder
begin

fun less_eq_sql_time :: "sql_time \<Rightarrow> sql_time \<Rightarrow> bool" where
  "less_eq_sql_time SqlNull t = True"
| "less_eq_sql_time (SqlTime a) SqlNull = False"
| "less_eq_sql_time (SqlTime a) (SqlTime b) = (a \<le> b)"

definition less_sql_time :: "sql_time \<Rightarrow> sql_time \<Rightarrow> bool" where
  "less_sql_time s t \<longleftrightarrow> s \<le> t \<and> \<not> t \<le> s"

instance
proof
  fix x y z :: sql_time
  show "x < y \<longleftrightarrow> x \<le> y \<and> \<not> y \<le> x" by (simp add: less_sql_time_def)
  show "x \<le> x" by (cases x) simp_all
  show "x \<le> y \<Longrightarrow> y \<le> z \<Longrightarrow> x \<le> z" by (cases x; cases y; cases z) simp_all
  show "x \<le> y \<Longrightarrow> y \<le> x \<Longrightarrow> x = y" by (cases x; cases y) simp_all
  show "x \<le> y \<or> y \<le> x" by (cases x; cases y) auto
qed

end

text \<open>
  \<^verbatim>\<open>CHAR(n)\<close>: blanks at the end are not significant in a comparison, a value that is
  longer without them is refused, and a value read back is padded.
\<close>

definition bpchar :: "string \<Rightarrow> string" where
  "bpchar s = rev (dropWhile (\<lambda>c. c = CHR '' '') (rev s))"

definition as_char :: "nat \<Rightarrow> string \<Rightarrow> string res" where
  "as_char n s =
     (if n < length (bpchar s) then Err (''pq: value too long for type character('' @ dec_nat n @ '')'')
      else Ok (bpchar s))"

definition pad_char :: "nat \<Rightarrow> string \<Rightarrow> string" where
  "pad_char n s = s @ replicate (n - length s) (CHR '' '')"

section \<open>Tables\<close>

record legacy_row =
  leg_eoa :: string
  leg_priv_key :: string
  leg_salt :: string
  leg_valid_until :: nat

record secret_row =
  sec_eoa :: string
  sec_secret :: "string option"
  sec_valid_until :: nat

record nonce_row =
  non_eoa :: string
  non_nonce :: i32

record tx_row =
  tx_created_at :: nat
  tx_eoa :: string
  tx_hash :: string
  tx_gas_limit :: nat
  tx_desc :: string

record key_row =
  key_id :: nat
  private_key :: string
  last_accessed :: sql_time

record db =
  accounts_secrets_1 :: "legacy_row list"
  accounts_secrets_2 :: "secret_row list"
  accounts_secrets_nonces_2 :: "nonce_row list"
  accounts_executed_transactions_2 :: "tx_row list"
  accounts_sender_keys_1 :: "key_row list"

text \<open>The statements of the server, and how the service answers at a given moment.\<close>

datatype stmt =
    PickKey
  | InsertSecret string string
  | InsertNonceSecret string string i32
  | InsertTx string string u64 string
  | CountSecret string string
  | CountAccounts string
  | SelectStatistics

text \<open>
  \<^verbatim>\<open>pg_fault\<close> is the failure of a statement on the connection or in the server,
  \<^verbatim>\<open>pg_now\<close> the clock in seconds, \<^verbatim>\<open>pg_month\<close> its sum with the interval of a month,
  \<^verbatim>\<open>pg_tie\<close> the choice among rows an \<^verbatim>\<open>ORDER BY\<close> leaves equal, \<^verbatim>\<open>pg_groups\<close> the
  order of the groups of a \<^verbatim>\<open>GROUP BY\<close>, and \<^verbatim>\<open>pg_rows\<close> the number of rows after
  which an iteration is cut off by a lost connection.
\<close>

record pg =
  pg_fault :: "stmt \<Rightarrow> string option"
  pg_now :: nat
  pg_month :: "nat \<Rightarrow> nat"
  pg_tie :: nat
  pg_groups :: "string list \<Rightarrow> string list"
  pg_rows :: "nat option"

text \<open>A grouping reorders the groups and nothing else.\<close>

definition pg_ok :: "pg \<Rightarrow> bool" where
  "pg_ok E \<longleftrightarrow> (\<forall>xs. mset (pg_groups E xs) = mset xs)"

definition ref_pg :: pg where
  "ref_pg = \<lparr>pg_fault = (\<lambda>_. None), pg_now = 1000, pg_month = (\<lambda>t. t + 2592000), pg_tie = 0,
     pg_groups = (\<lambda>xs. xs), pg_rows = None\<rparr>"

definition empty_db :: db where
  "empty_db = \<lparr>accounts_secrets_1 = [], accounts_secrets_2 = [], accounts_secrets_nonces_2 = [],
     accounts_executed_transactions_2 = [], accounts_sender_keys_1 = []\<rparr>"

text \<open>Running a statement: a fault, or its effect.\<close>

definition exec_stmt :: "pg \<Rightarrow> stmt \<Rightarrow> (db, 'a) gm \<Rightarrow> (db, 'a) gm" where
  "exec_stmt E q m = (\<lambda>d. case pg_fault E q of Some e \<Rightarrow> (Err e, d) | None \<Rightarrow> m d)"

section \<open>Sender keys\<close>

definition least_recent :: "key_row list \<Rightarrow> key_row list" where
  "least_recent ks = filter (\<lambda>r. list_all (\<lambda>q. last_accessed r \<le> last_accessed q) ks) ks"

definition touch_key :: "nat \<Rightarrow> nat \<Rightarrow> key_row list \<Rightarrow> key_row list" where
  "touch_key now i ks =
     map (\<lambda>k. if key_id k = i then k\<lparr>last_accessed := SqlTime now\<rparr> else k) ks"

text \<open>\<^verbatim>\<open>accounts_get_private_key_2\<close>: on an empty table the variable stays \<^verbatim>\<open>NULL\<close>.\<close>

definition accounts_get_private_key_2 :: "pg \<Rightarrow> db \<Rightarrow> string option \<times> db" where
  "accounts_get_private_key_2 E d =
     (let ks = accounts_sender_keys_1 d; cs = least_recent ks in
      if cs = [] then (None, d)
      else (let r = cs ! (pg_tie E mod length cs) in
        (Some (pad_char 64 (private_key r)),
         d\<lparr>accounts_sender_keys_1 := touch_key (pg_now E) (key_id r) ks\<rparr>)))"

abbreviation null_scan :: string where
  "null_scan \<equiv> ''sql: Scan error on column index 0, name \"accounts_get_private_key_2\": converting NULL to string is unsupported''"

definition PickPrivateKey :: "libs \<Rightarrow> pg \<Rightarrow> (db, bytes \<times> Address) gm" where
  "PickPrivateKey L E = (\<lambda>d.
     case exec_stmt E PickKey (\<lambda>d. let (k, d') = accounts_get_private_key_2 E d in (Ok k, d')) d of
       (Ok None, d') \<Rightarrow> (Err (''calling function: '' @ null_scan), d')
     | (Ok (Some s), d') \<Rightarrow>
         (case HexToECDSA L s of
            Inl e \<Rightarrow> (Err (''hex to ecdsa: '' @ e), d')
          | Inr key \<Rightarrow> (Ok (key, PubkeyToAddress L (ECDSA_Public L key)), d'))
     | (Err e, d') \<Rightarrow> (Err (''calling function: '' @ e), d')
     | (Panic p, d') \<Rightarrow> (Panic p, d')
     | (Exit e, d') \<Rightarrow> (Exit e, d'))"

section \<open>Secrets and nonces\<close>

text \<open>
  The \<^verbatim>\<open>INSERT\<close> of \<^verbatim>\<open>CreateAccountExec\<close>, with the default of the third column.
\<close>

definition insert_secret :: "pg \<Rightarrow> string \<Rightarrow> string \<Rightarrow> (db, unit) gm" where
  "insert_secret E eoa secret = exec_stmt E (InsertSecret eoa secret) (\<lambda>d.
     case bindR (as_char 42 eoa) (\<lambda>a. bindR (as_char 64 secret) (\<lambda>s. Ok (a, s))) of
       Ok (a, s) \<Rightarrow> (Ok (), d\<lparr>accounts_secrets_2 := accounts_secrets_2 d @
          [\<lparr>sec_eoa = a, sec_secret = Some s, sec_valid_until = pg_month E (pg_now E)\<rparr>]\<rparr>)
     | Err e \<Rightarrow> (Err e, d) | Panic p \<Rightarrow> (Panic p, d) | Exit e \<Rightarrow> (Exit e, d))"

definition nonce_used :: "db \<Rightarrow> string \<Rightarrow> i32 \<Rightarrow> bool" where
  "nonce_used d a n \<longleftrightarrow> list_ex (\<lambda>r. non_eoa r = a \<and> non_nonce r = n) (accounts_secrets_nonces_2 d)"

abbreviation nonce_conflict :: string where
  "nonce_conflict \<equiv> ''pq: duplicate key value violates unique constraint \"accounts_secrets_nonces_2_eoa_addr_nonce_idx\"''"

text \<open>
  \<^verbatim>\<open>accounts_insert_nonce_secret_3\<close>: the unique index refuses a pair that is there, and a
  refusal undoes the whole call.
\<close>

definition accounts_insert_nonce_secret_3 :: "pg \<Rightarrow> string \<Rightarrow> string \<Rightarrow> i32 \<Rightarrow> (db, unit) gm" where
  "accounts_insert_nonce_secret_3 E eoa secret nonce = exec_stmt E (InsertNonceSecret eoa secret nonce) (\<lambda>d.
     case bindR (as_char 42 eoa) (\<lambda>a. bindR (as_char 64 secret) (\<lambda>s.
            bindR (guardR (nonce_used d a nonce) nonce_conflict) (\<lambda>_. Ok (a, s)))) of
       Ok (a, s) \<Rightarrow> (Ok (), d\<lparr>
          accounts_secrets_nonces_2 := accounts_secrets_nonces_2 d @ [\<lparr>non_eoa = a, non_nonce = nonce\<rparr>],
          accounts_secrets_2 := accounts_secrets_2 d @
            [\<lparr>sec_eoa = a, sec_secret = Some s, sec_valid_until = pg_month E (pg_now E)\<rparr>]\<rparr>)
     | Err e \<Rightarrow> (Err e, d) | Panic p \<Rightarrow> (Panic p, d) | Exit e \<Rightarrow> (Exit e, d))"

text \<open>The count of \<^verbatim>\<open>authMiddleware.ServeHTTP\<close>; a \<^verbatim>\<open>NULL\<close> secret equals nothing.\<close>

definition count_secret :: "db \<Rightarrow> string \<Rightarrow> string \<Rightarrow> nat" where
  "count_secret d eoa secret = length (filter
     (\<lambda>r. sec_eoa r = bpchar eoa \<and> sec_secret r = Some (bpchar secret)) (accounts_secrets_2 d))"

text \<open>The count of \<^verbatim>\<open>HasCreated\<close>, over the old and the new table.\<close>

definition count_accounts :: "db \<Rightarrow> string \<Rightarrow> nat" where
  "count_accounts d eoa =
     length (filter (\<lambda>r. leg_eoa r = bpchar eoa) (accounts_secrets_1 d)) +
     length (filter (\<lambda>r. sec_eoa r = bpchar eoa) (accounts_secrets_2 d))"

text \<open>The last statement of the migration that introduced the second table.\<close>

definition migrate_accounts :: "pg \<Rightarrow> db \<Rightarrow> db" where
  "migrate_accounts E d = d\<lparr>accounts_secrets_2 := accounts_secrets_2 d @
     map (\<lambda>a. \<lparr>sec_eoa = a, sec_secret = None, sec_valid_until = pg_month E (pg_now E)\<rparr>)
       (pg_groups E (remdups (map leg_eoa (accounts_secrets_1 d))))\<rparr>"

section \<open>Executed transactions\<close>

text \<open>
  The \<^verbatim>\<open>INSERT\<close> of \<^verbatim>\<open>trackTx\<close>. The driver refuses an unsigned integer with the high bit
  set, the column one that is no 32-bit integer.
\<close>

definition insert_tx :: "pg \<Rightarrow> string \<Rightarrow> string \<Rightarrow> u64 \<Rightarrow> string \<Rightarrow> (db, unit) gm" where
  "insert_tx E eoa txHash gasLimit desc = (\<lambda>d.
     if 2 ^ 63 \<le> unat gasLimit
     then (Err ''sql: converting argument $3 type: uint64 values with high bit set are not supported'', d)
     else exec_stmt E (InsertTx eoa txHash gasLimit desc) (\<lambda>d.
       case bindR (as_char 42 eoa) (\<lambda>a. bindR (as_char 66 txHash) (\<lambda>h.
              bindR (guardR (2147483647 < unat gasLimit)
                (''pq: value \"'' @ dec_nat (unat gasLimit) @ ''\" is out of range for type integer''))
              (\<lambda>_. Ok (a, h)))) of
         Ok (a, h) \<Rightarrow> (Ok (), d\<lparr>accounts_executed_transactions_2 := accounts_executed_transactions_2 d @
            [\<lparr>tx_created_at = pg_now E, tx_eoa = a, tx_hash = h, tx_gas_limit = unat gasLimit, tx_desc = desc\<rparr>]\<rparr>)
       | Err e \<Rightarrow> (Err e, d) | Panic p \<Rightarrow> (Panic p, d) | Exit e \<Rightarrow> (Exit e, d)) d)"

text \<open>
  The view of the statistics: per action the gas limits of the last day, of the last
  week and of all time, which the view averages and counts.
\<close>

definition recent_gas :: "pg \<Rightarrow> nat \<Rightarrow> tx_row list \<Rightarrow> nat list" where
  "recent_gas E span rows = map tx_gas_limit (filter (\<lambda>r. pg_now E \<le> tx_created_at r + span) rows)"

definition accounts_transaction_statistics_1 ::
    "pg \<Rightarrow> db \<Rightarrow> (string \<times> nat list \<times> nat list \<times> nat list) list" where
  "accounts_transaction_statistics_1 E d =
     (let txs = accounts_executed_transactions_2 d in
      map (\<lambda>a. let rows = filter (\<lambda>r. tx_desc r = a) txs in
             (a, recent_gas E 86400 rows, recent_gas E 604800 rows, map tx_gas_limit rows))
        (pg_groups E (remdups (map tx_desc txs))))"

section \<open>Invariant and steps\<close>

definition secret_row_ok :: "secret_row \<Rightarrow> bool" where
  "secret_row_ok r \<longleftrightarrow> length (sec_eoa r) \<le> 42 \<and>
     (case sec_secret r of None \<Rightarrow> True | Some s \<Rightarrow> length s \<le> 64)"

text \<open>The constraints the schema declares: unique keys, unique nonces, bounded columns.\<close>

definition db_ok :: "db \<Rightarrow> bool" where
  "db_ok d \<longleftrightarrow>
     distinct (map key_id (accounts_sender_keys_1 d)) \<and>
     distinct (map (\<lambda>r. (non_eoa r, non_nonce r)) (accounts_secrets_nonces_2 d)) \<and>
     list_all secret_row_ok (accounts_secrets_2 d) \<and>
     list_all (\<lambda>r. tx_gas_limit r < 2 ^ 31 \<and> length (tx_hash r) \<le> 66) (accounts_executed_transactions_2 d)"

text \<open>What a statement of the server that writes has done, in whatever circumstances it ran.\<close>

datatype db_event = KeyPicked "string option" | Issued string string "i32 option" | Tracked string | Refused string

inductive db_step :: "db \<Rightarrow> db_event \<Rightarrow> db \<Rightarrow> bool" where
  step_pick: "accounts_get_private_key_2 E d = (k, d') \<Longrightarrow> db_step d (KeyPicked k) d'"
| step_secret: "insert_secret E eoa secret d = (Ok (), d') \<Longrightarrow>
    db_step d (Issued (bpchar eoa) (bpchar secret) None) d'"
| step_secret_err: "insert_secret E eoa secret d = (Err e, d') \<Longrightarrow> db_step d (Refused e) d'"
| step_nonce: "accounts_insert_nonce_secret_3 E eoa secret nonce d = (Ok (), d') \<Longrightarrow>
    db_step d (Issued (bpchar eoa) (bpchar secret) (Some nonce)) d'"
| step_nonce_err: "accounts_insert_nonce_secret_3 E eoa secret nonce d = (Err e, d') \<Longrightarrow> db_step d (Refused e) d'"
| step_tx: "insert_tx E eoa h gas desc d = (Ok (), d') \<Longrightarrow> db_step d (Tracked desc) d'"
| step_tx_err: "insert_tx E eoa h gas desc d = (Err e, d') \<Longrightarrow> db_step d (Refused e) d'"

inductive_cases db_stepE: "db_step d ev d'"

text \<open>Consecutive calls of \<^verbatim>\<open>accounts_get_private_key_2\<close>, each at its time and with its choice.\<close>

fun pick_many :: "pg \<Rightarrow> (nat \<times> nat) list \<Rightarrow> db \<Rightarrow> string option list \<times> db" where
  "pick_many E [] d = ([], d)"
| "pick_many E ((now, tie) # ts) d =
     (let (k, d') = accounts_get_private_key_2 (E\<lparr>pg_now := now, pg_tie := tie\<rparr>) d;
          (ks, d'') = pick_many E ts d'
      in (k # ks, d''))"

text \<open>The pairs a request may authenticate with, the nonces that are taken, and what an event adds.\<close>

definition accepts_row :: "db \<Rightarrow> string \<Rightarrow> string \<Rightarrow> bool" where
  "accepts_row d a x \<longleftrightarrow> list_ex (\<lambda>r. sec_eoa r = a \<and> sec_secret r = Some x) (accounts_secrets_2 d)"

fun issued_pair :: "db_event \<Rightarrow> (string \<times> string) option" where
  "issued_pair (Issued a x n) = Some (a, x)"
| "issued_pair (KeyPicked k) = None"
| "issued_pair (Tracked t) = None"
| "issued_pair (Refused e) = None"

fun used_nonce :: "db_event \<Rightarrow> (string \<times> i32) option" where
  "used_nonce (Issued a x n) = map_option (\<lambda>n. (a, n)) n"
| "used_nonce (KeyPicked k) = None"
| "used_nonce (Tracked t) = None"
| "used_nonce (Refused e) = None"

definition nonces_of :: "db \<Rightarrow> (string \<times> i32) set" where
  "nonces_of d = (\<lambda>r. (non_eoa r, non_nonce r)) ` set (accounts_secrets_nonces_2 d)"

text \<open>The keys not used since a time.\<close>

definition idle_keys :: "nat \<Rightarrow> key_row list \<Rightarrow> key_row list" where
  "idle_keys t0 ks = filter (\<lambda>k. last_accessed k < SqlTime t0) ks"

section \<open>Lemmas\<close>

lemma bpchar_id [simp]: "CHR '' '' \<notin> set s \<Longrightarrow> bpchar s = s"
proof -
  assume "CHR '' '' \<notin> set s"
  then have "dropWhile (\<lambda>c. c = CHR '' '') (rev s) = rev s"
    by (cases "rev s") (auto simp: rev_eq_Cons_iff)
  then show ?thesis by (simp add: bpchar_def)
qed

lemma bpchar_idem [simp]: "bpchar (bpchar s) = bpchar s"
  by (simp add: bpchar_def)

lemma hex_digit_not_blank [simp]: "n < 16 \<Longrightarrow> hex_digit n \<noteq> CHR '' ''"
  using hex_val_digit [of n] by (auto simp: hex_val_def)

lemma blank_notin_hex [simp]: "CHR '' '' \<notin> set (hex_encode b)"
  by (induction b) (auto dest: sym)

lemma blank_notin_addr_hex [simp]: "CHR '' '' \<notin> set (addr_hex a)"
  by (simp add: addr_hex_def)

lemma as_char_Ok_iff: "as_char n s = Ok t \<longleftrightarrow> t = bpchar s \<and> length (bpchar s) \<le> n"
  by (auto simp: as_char_def)

lemma as_char_not [simp]: "as_char n s \<noteq> Panic p" "as_char n s \<noteq> Exit p"
  by (simp_all add: as_char_def)

text \<open>Each writing statement: what it does when it succeeds, and nothing otherwise.\<close>

lemma insert_secret_eq:
  "insert_secret E eoa secret d =
     (case pg_fault E (InsertSecret eoa secret) of Some e \<Rightarrow> (Err e, d) | None \<Rightarrow>
      if 42 < length (bpchar eoa) then (Err (''pq: value too long for type character('' @ dec_nat 42 @ '')''), d)
      else if 64 < length (bpchar secret) then (Err (''pq: value too long for type character('' @ dec_nat 64 @ '')''), d)
      else (Ok (), d\<lparr>accounts_secrets_2 := accounts_secrets_2 d @
          [\<lparr>sec_eoa = bpchar eoa, sec_secret = Some (bpchar secret), sec_valid_until = pg_month E (pg_now E)\<rparr>]\<rparr>))"
  by (simp add: insert_secret_def exec_stmt_def as_char_def split: option.splits)

lemma nonce_secret_eq:
  "accounts_insert_nonce_secret_3 E eoa secret nonce d =
     (case pg_fault E (InsertNonceSecret eoa secret nonce) of Some e \<Rightarrow> (Err e, d) | None \<Rightarrow>
      if 42 < length (bpchar eoa) then (Err (''pq: value too long for type character('' @ dec_nat 42 @ '')''), d)
      else if 64 < length (bpchar secret) then (Err (''pq: value too long for type character('' @ dec_nat 64 @ '')''), d)
      else if nonce_used d (bpchar eoa) nonce then (Err nonce_conflict, d)
      else (Ok (), d\<lparr>
          accounts_secrets_nonces_2 := accounts_secrets_nonces_2 d @ [\<lparr>non_eoa = bpchar eoa, non_nonce = nonce\<rparr>],
          accounts_secrets_2 := accounts_secrets_2 d @
            [\<lparr>sec_eoa = bpchar eoa, sec_secret = Some (bpchar secret), sec_valid_until = pg_month E (pg_now E)\<rparr>]\<rparr>))"
  by (simp add: accounts_insert_nonce_secret_3_def exec_stmt_def as_char_def guardR_def split: option.splits)

lemma insert_tx_effect:
  "insert_tx E eoa h gas desc d = (r, d') \<Longrightarrow>
     (\<exists>e. r = Err e \<and> d' = d) \<or>
     (r = Ok () \<and> unat gas < 2 ^ 31 \<and> length (bpchar eoa) \<le> 42 \<and> length (bpchar h) \<le> 66 \<and>
      d' = d\<lparr>accounts_executed_transactions_2 := accounts_executed_transactions_2 d @
        [\<lparr>tx_created_at = pg_now E, tx_eoa = bpchar eoa, tx_hash = bpchar h, tx_gas_limit = unat gas, tx_desc = desc\<rparr>]\<rparr>)"
  by (auto simp: insert_tx_def exec_stmt_def as_char_def guardR_def split: option.splits if_splits)

lemma accounts_get_private_key_2_effect:
  "accounts_get_private_key_2 E d = (k, d') \<Longrightarrow>
     \<exists>ks. d' = d\<lparr>accounts_sender_keys_1 := ks\<rparr> \<and> map key_id ks = map key_id (accounts_sender_keys_1 d) \<and>
       map private_key ks = map private_key (accounts_sender_keys_1 d)"
  by (auto simp: accounts_get_private_key_2_def touch_key_def Let_def split: if_splits
      intro: exI [of _ "accounts_sender_keys_1 d"])

text \<open>Every step keeps the declared constraints.\<close>

lemma nonce_used_iff: "nonce_used d a n \<longleftrightarrow> (a, n) \<in> (\<lambda>r. (non_eoa r, non_nonce r)) ` set (accounts_secrets_nonces_2 d)"
  by (force simp: nonce_used_def list_ex_iff)

lemma secret_row_ok_new [simp]:
  "secret_row_ok \<lparr>sec_eoa = a, sec_secret = Some s, sec_valid_until = t\<rparr> \<longleftrightarrow> length a \<le> 42 \<and> length s \<le> 64"
  by (simp add: secret_row_ok_def)

lemma db_step_ok: "db_step d ev d' \<Longrightarrow> db_ok d \<Longrightarrow> db_ok d'"
proof (induction rule: db_step.induct)
  case (step_pick E d k d')
  then show ?case using accounts_get_private_key_2_effect [OF step_pick.hyps] by (auto simp: db_ok_def)
next
  case (step_tx E eoa h gas desc d d')
  then show ?case using insert_tx_effect [OF step_tx.hyps] by (auto simp: db_ok_def)
next
  case (step_tx_err E eoa h gas desc d e d')
  then show ?case using insert_tx_effect [OF step_tx_err.hyps] by auto
next
  case (step_nonce E eoa secret nonce d d')
  then show ?case
    by (auto simp: nonce_secret_eq db_ok_def nonce_used_iff split: option.splits if_splits)
qed (auto simp: insert_secret_eq nonce_secret_eq db_ok_def split: option.splits if_splits)

subsection \<open>The store of secrets\<close>

text \<open>
  What the authentication of a request relies on: a pair is accepted once it has been
  issued, and no other statement adds or removes one.
\<close>

locale secret_store =
  fixes accepts :: "'s \<Rightarrow> 'a \<Rightarrow> 'x \<Rightarrow> bool" and step :: "'s \<Rightarrow> 'e \<Rightarrow> 's \<Rightarrow> bool"
    and issues :: "'e \<Rightarrow> ('a \<times> 'x) option"
  assumes accepts_step: "step s ev s' \<Longrightarrow> accepts s' a x \<longleftrightarrow> accepts s a x \<or> issues ev = Some (a, x)"
begin

lemma accepts_trace:
  "trace step s evs s' \<Longrightarrow> accepts s' a x \<longleftrightarrow> accepts s a x \<or> Some (a, x) \<in> issues ` set evs"
  by (induction rule: trace.induct) (auto simp: accepts_step)

end

text \<open>
  What a replay protection relies on: an event that uses a token finds it unused and
  leaves it used, and no event frees one.
\<close>

locale token_store =
  fixes used :: "'s \<Rightarrow> 't set" and step :: "'s \<Rightarrow> 'e \<Rightarrow> 's \<Rightarrow> bool" and uses :: "'e \<Rightarrow> 't option"
  assumes used_step: "step s ev s' \<Longrightarrow> used s' = used s \<union> set_option (uses ev)"
    and uses_unused: "step s ev s' \<Longrightarrow> uses ev = Some t \<Longrightarrow> t \<notin> used s"
begin

lemma uses_once:
  "trace step s evs s' \<Longrightarrow>
     distinct (List.map_filter uses evs) \<and> set (List.map_filter uses evs) \<inter> used s = {} \<and>
     used s' = used s \<union> set (List.map_filter uses evs)"
proof (induction rule: trace.induct)
  case (trace_refl s)
  show ?case by (simp add: List.map_filter_def)
next
  case (trace_step s evs t ev u)
  show ?case
  proof (cases "uses ev")
    case None
    then show ?thesis using trace_step used_step [OF trace_step.hyps(2)] by (simp add: List.map_filter_def)
  next
    case (Some x)
    then show ?thesis
      using trace_step.IH used_step [OF trace_step.hyps(2)] uses_unused [OF trace_step.hyps(2) Some]
      by (auto simp: List.map_filter_def)
  qed
qed

end

lemma count_secret_pos: "0 < count_secret d a x \<longleftrightarrow> accepts_row d (bpchar a) (bpchar x)"
  by (auto simp: count_secret_def accepts_row_def list_ex_iff filter_empty_conv)

lemma db_step_effect:
  "db_step d ev d' \<Longrightarrow>
     (accepts_row d' a x \<longleftrightarrow> accepts_row d a x \<or> issued_pair ev = Some (a, x)) \<and>
     nonces_of d' = nonces_of d \<union> set_option (used_nonce ev) \<and>
     (\<forall>t. used_nonce ev = Some t \<longrightarrow> t \<notin> nonces_of d)"
proof (induction rule: db_step.induct)
  case (step_pick E d k d')
  then show ?case
    using accounts_get_private_key_2_effect [OF step_pick.hyps] by (auto simp: accepts_row_def nonces_of_def)
next
  case (step_tx E eoa h gas desc d d')
  then show ?case using insert_tx_effect [OF step_tx.hyps] by (auto simp: accepts_row_def nonces_of_def)
next
  case (step_tx_err E eoa h gas desc d e d')
  then show ?case using insert_tx_effect [OF step_tx_err.hyps] by auto
qed (auto simp: insert_secret_eq nonce_secret_eq accepts_row_def nonces_of_def nonce_used_iff
      split: option.splits if_splits)

interpretation secrets: secret_store accepts_row db_step issued_pair
  by unfold_locales (use db_step_effect in blast)

interpretation nonces: token_store nonces_of db_step used_nonce
  by unfold_locales (use db_step_effect in blast)+

subsection \<open>Rotation of the sender keys\<close>

lemma least_recent_iff:
  "r \<in> set (least_recent ks) \<longleftrightarrow> r \<in> set ks \<and> (\<forall>q \<in> set ks. last_accessed r \<le> last_accessed q)"
  by (auto simp: least_recent_def list_all_iff)

lemma least_recent_exists:
  assumes "ks \<noteq> []" shows "least_recent ks \<noteq> []"
proof -
  have f: "finite (last_accessed ` set ks)" "last_accessed ` set ks \<noteq> {}" using assms by simp_all
  then obtain r where "r \<in> set ks" "last_accessed r = Min (last_accessed ` set ks)"
    using Min_in [OF f] by (metis imageE)
  moreover have "\<forall>q \<in> set ks. Min (last_accessed ` set ks) \<le> last_accessed q" using f by simp
  ultimately have "r \<in> set (least_recent ks)" by (simp add: least_recent_iff)
  then show ?thesis by auto
qed

text \<open>While a key is idle, the one picked is idle, and it alone stops being idle.\<close>

lemma pick_idle:
  assumes "distinct (map key_id (accounts_sender_keys_1 d))"
    and "idle_keys t0 (accounts_sender_keys_1 d) \<noteq> []" and "t0 \<le> pg_now E"
  shows "\<exists>r d'. accounts_get_private_key_2 E d = (Some (pad_char 64 (private_key r)), d') \<and>
    r \<in> set (idle_keys t0 (accounts_sender_keys_1 d)) \<and>
    map key_id (accounts_sender_keys_1 d') = map key_id (accounts_sender_keys_1 d) \<and>
    idle_keys t0 (accounts_sender_keys_1 d') =
      filter (\<lambda>k. key_id k \<noteq> key_id r) (idle_keys t0 (accounts_sender_keys_1 d))"
proof -
  let ?ks = "accounts_sender_keys_1 d" and ?cs = "least_recent (accounts_sender_keys_1 d)"
  let ?r = "?cs ! (pg_tie E mod length ?cs)"
  obtain q where q: "q \<in> set ?ks" "last_accessed q < SqlTime t0"
    using assms(2) by (auto simp: idle_keys_def filter_empty_conv)
  have "?ks \<noteq> []" using q by auto
  then have cs: "?cs \<noteq> []" by (rule least_recent_exists)
  then have "?r \<in> set ?cs" by (simp add: nth_mem)
  then have r: "?r \<in> set ?ks" "last_accessed ?r \<le> last_accessed q"
    using q(1) by (auto simp: least_recent_iff)
  then have idle: "?r \<in> set (idle_keys t0 ?ks)"
    using q(2) by (auto simp: idle_keys_def)
  have late: "\<not> SqlTime (pg_now E) < SqlTime t0" using assms(3) by (simp add: not_less)
  have "idle_keys t0 (touch_key (pg_now E) i ks) = filter (\<lambda>k. key_id k \<noteq> i) (idle_keys t0 ks)" for i ks
    using late by (induction ks) (auto simp: idle_keys_def touch_key_def)
  moreover have "map key_id (touch_key (pg_now E) i ks) = map key_id ks" for i ks
    by (induction ks) (auto simp: touch_key_def)
  ultimately show ?thesis
    using cs idle by (auto simp: accounts_get_private_key_2_def Let_def)
qed

lemma mset_remove_key:
  "distinct (map key_id ks) \<Longrightarrow> r \<in> set ks \<Longrightarrow>
     mset ks = add_mset r (mset (filter (\<lambda>k. key_id k \<noteq> key_id r) ks))"
proof (induction ks)
  case (Cons k ks)
  show ?case
  proof (cases "k = r")
    case True
    then have "key_id r \<notin> key_id ` set ks" using Cons.prems(1) by simp
    then have "key_id x \<noteq> key_id r" if "x \<in> set ks" for x using that by (metis imageI)
    then have "filter (\<lambda>k. key_id k \<noteq> key_id r) ks = ks" by (simp add: filter_id_conv)
    then show ?thesis using True by simp
  next
    case False
    then show ?thesis using Cons by auto
  qed
qed simp

lemma pick_many_idle:
  assumes "distinct (map key_id (accounts_sender_keys_1 d))"
    and "list_all (\<lambda>(now, tie). t0 \<le> now) ts" and "length ts = length (idle_keys t0 (accounts_sender_keys_1 d))"
  shows "mset (fst (pick_many E ts d)) =
    image_mset (\<lambda>k. Some (pad_char 64 (private_key k))) (mset (idle_keys t0 (accounts_sender_keys_1 d)))"
  using assms
proof (induction ts arbitrary: d)
  case Nil
  then show ?case by simp
next
  case (Cons nt ts)
  obtain now tie where nt: "nt = (now, tie)" by (cases nt)
  have ne: "idle_keys t0 (accounts_sender_keys_1 d) \<noteq> []" using Cons.prems(3) by auto
  have "t0 \<le> pg_now (E\<lparr>pg_now := now, pg_tie := tie\<rparr>)" using Cons.prems(2) nt by simp
  from pick_idle [OF Cons.prems(1) ne this] obtain r d' where
    p: "accounts_get_private_key_2 (E\<lparr>pg_now := now, pg_tie := tie\<rparr>) d = (Some (pad_char 64 (private_key r)), d')"
    and r: "r \<in> set (idle_keys t0 (accounts_sender_keys_1 d))"
    and ids: "map key_id (accounts_sender_keys_1 d') = map key_id (accounts_sender_keys_1 d)"
    and idle: "idle_keys t0 (accounts_sender_keys_1 d') =
      filter (\<lambda>k. key_id k \<noteq> key_id r) (idle_keys t0 (accounts_sender_keys_1 d))"
    by blast
  have "distinct (map key_id (idle_keys t0 (accounts_sender_keys_1 d)))"
    using Cons.prems(1) by (simp add: idle_keys_def distinct_map_filter)
  from mset_remove_key [OF this r]
  have m: "mset (idle_keys t0 (accounts_sender_keys_1 d)) = add_mset r (mset (idle_keys t0 (accounts_sender_keys_1 d')))"
    unfolding idle .
  then have "length (idle_keys t0 (accounts_sender_keys_1 d)) = Suc (length (idle_keys t0 (accounts_sender_keys_1 d')))"
    by (metis size_add_mset size_mset)
  with Cons.IH [of d'] Cons.prems ids show ?case
    using p m nt by (simp add: case_prod_unfold Let_def)
qed

lemma distinct_filter_one:
  "distinct xs \<Longrightarrow> length (filter (\<lambda>b. b = y) xs) = (if y \<in> set xs then 1 else 0)"
  by (induction xs) auto

section \<open>Properties\<close>

text \<open>
  C31. The sender keys rotate: when the pool has \<^verbatim>\<open>n\<close> keys, \<^verbatim>\<open>n\<close> consecutive calls of
  \<^verbatim>\<open>accounts_get_private_key_2\<close>, at times after every earlier use and whatever the server
  picks among keys of equal age, return each key exactly once.
\<close>

theorem key_rotation:
  assumes "db_ok d" and "length ts = length (accounts_sender_keys_1 d)"
    and "list_all (\<lambda>(now, tie). t0 \<le> now) ts"
    and "list_all (\<lambda>k. last_accessed k < SqlTime t0) (accounts_sender_keys_1 d)"
  shows "mset (fst (pick_many E ts d)) =
    mset (map (\<lambda>k. Some (pad_char 64 (private_key k))) (accounts_sender_keys_1 d))"
proof -
  have "idle_keys t0 (accounts_sender_keys_1 d) = accounts_sender_keys_1 d"
    using assms(4) by (simp add: idle_keys_def filter_id_conv list_all_iff)
  then show ?thesis
    using pick_many_idle [of d t0 ts E] assms by (simp add: db_ok_def)
qed

theorem key_rotation_witness:
  "mset (fst (pick_many ref_pg [(5, 1), (5, 0)]
     (empty_db\<lparr>accounts_sender_keys_1 := [\<lparr>key_id = 1, private_key = ''aa'', last_accessed = SqlNull\<rparr>,
        \<lparr>key_id = 2, private_key = ''bb'', last_accessed = SqlTime 3\<rparr>]\<rparr>))) =
   {# Some (pad_char 64 ''aa''), Some (pad_char 64 ''bb'') #}"
proof -
  let ?d = "empty_db\<lparr>accounts_sender_keys_1 := [\<lparr>key_id = 1, private_key = ''aa'', last_accessed = SqlNull\<rparr>,
      \<lparr>key_id = 2, private_key = ''bb'', last_accessed = SqlTime 3\<rparr>]\<rparr>"
  have "db_ok ?d" by (simp add: db_ok_def empty_db_def)
  from key_rotation [OF this, of "[(5, 1), (5, 0)]" 4 ref_pg] show ?thesis
    by (simp add: less_sql_time_def add_mset_commute)
qed

text \<open>
  \<^verbatim>\<open>PickPrivateKey\<close> returns a key of the pool that was used least recently, with the
  address of its public key, and stamps that key and no other with the current time. On an
  empty pool it fails on reading the \<^verbatim>\<open>NULL\<close> the function returns, so its branch for a
  missing row is never taken; it never panics.
\<close>

theorem pick_private_key:
  assumes "pg_fault E PickKey = None" and "PickPrivateKey L E d = (r, d')"
  shows "(accounts_sender_keys_1 d = [] \<longrightarrow> r = Err (''calling function: '' @ null_scan) \<and> d' = d) \<and>
    (accounts_sender_keys_1 d \<noteq> [] \<longrightarrow>
      (\<exists>k \<in> set (accounts_sender_keys_1 d).
        (\<forall>q \<in> set (accounts_sender_keys_1 d). last_accessed k \<le> last_accessed q) \<and>
        d' = d\<lparr>accounts_sender_keys_1 := touch_key (pg_now E) (key_id k) (accounts_sender_keys_1 d)\<rparr> \<and>
        (case HexToECDSA L (pad_char 64 (private_key k)) of
           Inl e \<Rightarrow> r = Err (''hex to ecdsa: '' @ e)
         | Inr key \<Rightarrow> r = Ok (key, PubkeyToAddress L (ECDSA_Public L key)))))"
proof (cases "accounts_sender_keys_1 d = []")
  case True
  then have "accounts_get_private_key_2 E d = (None, d)"
    by (simp add: accounts_get_private_key_2_def least_recent_def)
  then show ?thesis using assms True by (auto simp: PickPrivateKey_def exec_stmt_def)
next
  case False
  let ?cs = "least_recent (accounts_sender_keys_1 d)"
  let ?k = "?cs ! (pg_tie E mod length ?cs)"
  have cs: "?cs \<noteq> []" using False by (rule least_recent_exists)
  then have "?k \<in> set ?cs" by (simp add: nth_mem)
  then have k: "?k \<in> set (accounts_sender_keys_1 d)"
    "\<forall>q \<in> set (accounts_sender_keys_1 d). last_accessed ?k \<le> last_accessed q"
    by (auto simp: least_recent_iff)
  have "accounts_get_private_key_2 E d = (Some (pad_char 64 (private_key ?k)),
      d\<lparr>accounts_sender_keys_1 := touch_key (pg_now E) (key_id ?k) (accounts_sender_keys_1 d)\<rparr>)"
    using cs by (simp add: accounts_get_private_key_2_def Let_def)
  then show ?thesis
    using assms False k
    by (cases "HexToECDSA L (pad_char 64 (private_key ?k))") (auto simp: PickPrivateKey_def exec_stmt_def)
qed

theorem pick_private_key_witness:
  "PickPrivateKey ref_libs ref_pg empty_db = (Err (''calling function: '' @ null_scan), empty_db)"
proof -
  obtain r d' where r: "PickPrivateKey ref_libs ref_pg empty_db = (r, d')"
    by (cases "PickPrivateKey ref_libs ref_pg empty_db")
  have "pg_fault ref_pg PickKey = None" by (simp add: ref_pg_def)
  from pick_private_key [OF this r] r show ?thesis by (simp add: empty_db_def)
qed

text \<open>
  C32. The table of secrets accepts exactly what was issued: over any sequence of the
  server's writing statements, a pair of an address and a secret is counted afterwards
  exactly when it was counted before or one of the statements issued it. No statement
  revokes a pair, so one that was accepted is accepted for ever: the expiry of the row
  plays no part.
\<close>

theorem secrets_exact:
  assumes "trace db_step d evs d'"
  shows "0 < count_secret d' a x \<longleftrightarrow>
    0 < count_secret d a x \<or> Some (bpchar a, bpchar x) \<in> issued_pair ` set evs"
  using secrets.accepts_trace [OF assms] by (simp add: count_secret_pos)

theorem secrets_exact_witness:
  "\<exists>d'. trace db_step empty_db [Issued ''0x01'' ''ab'' None] d' \<and> 0 < count_secret d' ''0x01'' ''ab'' \<and>
     count_secret d' ''0x01'' ''cd'' = 0"
proof -
  obtain d' where "insert_secret ref_pg ''0x01'' ''ab'' empty_db = (Ok (), d')"
    by (simp add: insert_secret_eq ref_pg_def)
  from step_secret [OF this] have "db_step empty_db (Issued ''0x01'' ''ab'' None) d'" by simp
  with trace_refl [of db_step empty_db] have t: "trace db_step empty_db ([] @ [Issued ''0x01'' ''ab'' None]) d'"
    by (rule trace_step)
  show ?thesis
    using t secrets_exact [OF t, of "''0x01''" "''ab''"] secrets_exact [OF t, of "''0x01''" "''cd''"]
    by (auto simp: count_secret_def empty_db_def)
qed

text \<open>
  A nonce is good once: over any sequence of the server's writing statements, the pairs
  of an address and a nonce for which \<^verbatim>\<open>accounts_insert_nonce_secret_3\<close> issued a secret
  are all different, none was taken before, and all are taken afterwards; a further call
  with one of them is refused and changes nothing.
\<close>

theorem nonce_once:
  assumes "trace db_step d evs d'"
  shows "distinct (List.map_filter used_nonce evs) \<and>
    set (List.map_filter used_nonce evs) \<inter> nonces_of d = {} \<and>
    nonces_of d' = nonces_of d \<union> set (List.map_filter used_nonce evs) \<and>
    (\<forall>eoa n. (bpchar eoa, n) \<in> set (List.map_filter used_nonce evs) \<longrightarrow>
      (\<exists>e. accounts_insert_nonce_secret_3 E eoa secret n d' = (Err e, d')))"
proof -
  have "\<exists>e. accounts_insert_nonce_secret_3 E eoa secret n d' = (Err e, d')"
    if "(bpchar eoa, n) \<in> nonces_of d'" for eoa n
    using that by (auto simp: nonce_secret_eq nonces_of_def nonce_used_iff split: option.splits)
  then show ?thesis using nonces.uses_once [OF assms] by auto
qed

theorem nonce_once_witness:
  "\<exists>d' e. trace db_step empty_db [Issued ''0x01'' ''ab'' (Some 7)] d' \<and>
     accounts_insert_nonce_secret_3 ref_pg ''0x01'' ''cd'' 7 d' = (Err e, d')"
proof -
  obtain d' where "accounts_insert_nonce_secret_3 ref_pg ''0x01'' ''ab'' 7 empty_db = (Ok (), d')"
    by (simp add: nonce_secret_eq ref_pg_def nonce_used_def empty_db_def)
  from step_nonce [OF this] have "db_step empty_db (Issued ''0x01'' ''ab'' (Some 7)) d'" by simp
  with trace_refl [of db_step empty_db] have t: "trace db_step empty_db ([] @ [Issued ''0x01'' ''ab'' (Some 7)]) d'"
    by (rule trace_step)
  show ?thesis
    using t nonce_once [OF t, of ref_pg "''cd''"] by (auto simp: List.map_filter_def)
qed

text \<open>
  The constraints the schema declares hold after any sequence of the server's writing
  statements on tables that meet them: sender keys keep their distinct identifiers, no
  pair of an address and a nonce appears twice, and no stored text or gas limit exceeds
  its column.
\<close>

theorem schema_invariant:
  assumes "trace db_step d evs d'" and "db_ok d"
  shows "db_ok d'"
  using assms by (rule trace_invariant) (rule db_step_ok)

theorem schema_invariant_witness:
  "\<exists>d'. trace db_step empty_db [KeyPicked None] d' \<and> db_ok d'"
proof -
  have "accounts_get_private_key_2 ref_pg empty_db = (None, empty_db)"
    by (simp add: accounts_get_private_key_2_def least_recent_def empty_db_def)
  from trace_step [OF trace_refl [of db_step empty_db] step_pick [OF this]]
  have t: "trace db_step empty_db [KeyPicked None] empty_db" by simp
  have "db_ok empty_db" by (simp add: db_ok_def empty_db_def)
  from schema_invariant [OF t this] t show ?thesis by blast
qed

text \<open>
  Migrating the accounts of the old table is invisible: every address is reported as
  created afterwards exactly when it was before, every pair of an address and a secret is
  accepted exactly when it was before (the migrated rows have no secret, and no secret
  equals it), each old address has one new row more, and the constraints are kept.
\<close>

theorem migration_invisible:
  assumes "pg_ok E" and "db_ok d" and "list_all (\<lambda>r. length (leg_eoa r) \<le> 42) (accounts_secrets_1 d)"
  shows "(0 < count_accounts (migrate_accounts E d) a \<longleftrightarrow> 0 < count_accounts d a) \<and>
    count_secret (migrate_accounts E d) a x = count_secret d a x \<and>
    count_accounts (migrate_accounts E d) a =
      count_accounts d a + (if bpchar a \<in> leg_eoa ` set (accounts_secrets_1 d) then 1 else 0) \<and>
    db_ok (migrate_accounts E d)"
proof -
  let ?as = "pg_groups E (remdups (map leg_eoa (accounts_secrets_1 d)))"
  have m: "mset ?as = mset (remdups (map leg_eoa (accounts_secrets_1 d)))"
    using assms(1) by (simp add: pg_ok_def)
  then have s: "set ?as = leg_eoa ` set (accounts_secrets_1 d)" "distinct ?as"
    by (metis set_mset_mset set_remdups set_map) (metis m distinct_remdups mset_eq_imp_distinct_iff)
  have "length (filter (\<lambda>b. b = bpchar a) ?as) =
      (if bpchar a \<in> leg_eoa ` set (accounts_secrets_1 d) then 1 else 0)"
    using distinct_filter_one [OF s(2)] s(1) by simp
  then have c: "count_accounts (migrate_accounts E d) a =
      count_accounts d a + (if bpchar a \<in> leg_eoa ` set (accounts_secrets_1 d) then 1 else 0)"
    by (simp add: count_accounts_def migrate_accounts_def filter_map o_def)
  moreover have "0 < count_accounts d a" if "bpchar a \<in> leg_eoa ` set (accounts_secrets_1 d)"
    using that by (auto simp: count_accounts_def filter_empty_conv)
  moreover have "count_secret (migrate_accounts E d) a x = count_secret d a x"
    by (simp add: count_secret_def migrate_accounts_def filter_map o_def)
  moreover have "db_ok (migrate_accounts E d)"
    using assms(2,3) s(1) by (auto simp: db_ok_def migrate_accounts_def list_all_iff secret_row_ok_def)
  ultimately show ?thesis by auto
qed

theorem migration_invisible_witness:
  "count_accounts (migrate_accounts ref_pg (empty_db\<lparr>accounts_secrets_1 :=
     [\<lparr>leg_eoa = ''0x01'', leg_priv_key = ''aa'', leg_salt = ''bb'', leg_valid_until = 0\<rparr>]\<rparr>)) ''0x01'' = 2"
proof -
  let ?d = "empty_db\<lparr>accounts_secrets_1 :=
     [\<lparr>leg_eoa = ''0x01'', leg_priv_key = ''aa'', leg_salt = ''bb'', leg_valid_until = 0\<rparr>]\<rparr>"
  have "pg_ok ref_pg" "db_ok ?d" by (simp_all add: pg_ok_def ref_pg_def db_ok_def empty_db_def)
  from migration_invisible [OF this, of "''0x01''" "''''"] show ?thesis
    by (simp add: count_accounts_def empty_db_def)
qed

end
