(* ===== verification/Client.thy ===== *)
theory Client
  imports Libs
begin

text \<open>
  Sending transactions, \<^verbatim>\<open>lib/client/client.go\<close>. The node the client talks to and the
  transaction signer of \<^verbatim>\<open>go-ethereum\<close> are the record \<^verbatim>\<open>rpc\<close>; the state is the list
  of the transactions the node has accepted. The floating-point margin on the gas limit is
  written out on integers.
\<close>

section \<open>Floating point\<close>

text \<open>
  Rounding to the nearest \<^verbatim>\<open>float64\<close>, ties to even, of a natural number: \<^verbatim>\<open>excess\<close> is
  the number of bits that do not fit in the 53 of the significand.
\<close>

fun excess :: "nat \<Rightarrow> nat" where
  "excess n = (if n < 2 ^ 53 then 0 else Suc (excess (n div 2)))"

declare excess.simps [simp del]

definition round53 :: "nat \<Rightarrow> nat" where
  "round53 n =
     (let u = 2 ^ excess n; q = n div u; r = n mod u in
      (if u < 2 * r \<or> (2 * r = u \<and> odd q) then q + 1 else q) * u)"

text \<open>
  \<^verbatim>\<open>uint64(float64(g) * 0.30)\<close>: the constant is \<^verbatim>\<open>5404319552844595 / 2^54\<close>, the
  \<^verbatim>\<open>float64\<close> nearest to it, and a product rounds the same at every power of two.
\<close>

definition gas_margin :: "u64 \<Rightarrow> u64" where
  "gas_margin g = of_nat (round53 (round53 (unat g) * 5404319552844595) div 2 ^ 54)"

section \<open>The node\<close>

record CallMsg =
  msg_From :: Address
  msg_To :: Address
  msg_Data :: bytes
  msg_Value :: int

record DynamicFeeTx =
  dft_ChainID :: int
  dft_Nonce :: u64
  dft_GasFeeCap :: int
  dft_GasTipCap :: int
  dft_Gas :: u64
  dft_Value :: int
  dft_Data :: bytes
  dft_To :: Address

record signed_tx =
  stx_Tx :: DynamicFeeTx
  stx_Sig :: bytes

text \<open>The base fee of the latest header is a pointer, nil before the London fork.\<close>

record rpc =
  EstimateGas :: "CallMsg \<Rightarrow> string + u64"
  HeaderByNumber :: "string + int option"
  SuggestGasTipCap :: "string + int"
  PendingNonceAt :: "Address \<Rightarrow> string + u64"
  CallContract :: "CallMsg \<Rightarrow> string + bytes"
  SendTransaction :: "signed_tx \<Rightarrow> string option"
  CodeAt :: "Address \<Rightarrow> string + bytes"
  SignTx :: "DynamicFeeTx \<Rightarrow> int \<Rightarrow> bytes \<Rightarrow> string + bytes"
  Tx_Hash :: "signed_tx \<Rightarrow> bytes"

abbreviation nil_panic :: string where
  "nil_panic \<equiv> ''runtime error: invalid memory address or nil pointer dereference''"

section \<open>Sending\<close>

text \<open>The target and the calldata, through the safety router or directly.\<close>

definition route :: "libs \<Rightarrow> Address \<Rightarrow> bool \<Rightarrow> Address \<Rightarrow> bytes \<Rightarrow> Address \<times> bytes" where
  "route L addrSafetyRouter useSafetyRouter to b =
     (if useSafetyRouter then (addrSafetyRouter, LeftPadBytes L to 32 @ b) else (to, b))"

text \<open>Everything before the branch on \<^verbatim>\<open>dryrun\<close>: the signed transaction and its gas limit.\<close>

definition prepare :: "rpc \<Rightarrow> int \<Rightarrow> bytes \<Rightarrow> Address \<Rightarrow> Address \<Rightarrow> Address \<Rightarrow> bytes \<Rightarrow> int \<Rightarrow> signed_tx res" where
  "prepare N chainId privateKey from to target b eth =
     bindR (case EstimateGas N \<lparr>msg_From = from, msg_To = target, msg_Data = b, msg_Value = eth\<rparr> of
              Inl err \<Rightarrow> Err (''estimate gas: to: '' @ hex_encode to @ '', from: '' @ hex_encode from @
                '', data '' @ hex_encode b @ '', '' @ err)
            | Inr g \<Rightarrow> Ok (g + gas_margin g)) (\<lambda>gasLimit.
     bindR (wrapR ''header'' (of_sum (HeaderByNumber N))) (\<lambda>baseFee.
     bindR (wrapR ''gas tip cap'' (of_sum (SuggestGasTipCap N))) (\<lambda>gasTipCap.
     bindR (wrapR ''nonce'' (of_sum (PendingNonceAt N from))) (\<lambda>nonce.
     bindR (case baseFee of None \<Rightarrow> Panic nil_panic | Some f \<Rightarrow> Ok (gasTipCap + f * 2)) (\<lambda>gasFeeCap.
     let baseTx = \<lparr>dft_ChainID = chainId, dft_Nonce = nonce, dft_GasFeeCap = gasFeeCap,
           dft_GasTipCap = gasTipCap, dft_Gas = gasLimit, dft_Value = eth, dft_Data = b, dft_To = target\<rparr> in
     bindR (wrapR ''signed'' (of_sum (SignTx N baseTx chainId privateKey))) (\<lambda>sig.
     Ok \<lparr>stx_Tx = baseTx, stx_Sig = sig\<rparr>))))))"

text \<open>
  \<^verbatim>\<open>Send\<close>. The simulation of a dry run passes no value; only the other branch reaches the
  chain.
\<close>

definition Send :: "libs \<Rightarrow> rpc \<Rightarrow> Address \<Rightarrow> bool \<Rightarrow> int \<Rightarrow> bytes \<Rightarrow> Address \<Rightarrow> Address \<Rightarrow> bytes
    \<Rightarrow> int option \<Rightarrow> bool \<Rightarrow> (signed_tx list, bytes \<times> u64) gm" where
  "Send L N addrSafetyRouter useSafetyRouter chainId privateKey from to b eth dryrun =
     (let eth = (case eth of None \<Rightarrow> 0 | Some e \<Rightarrow> e);
          (target, b) = route L addrSafetyRouter useSafetyRouter to b in
      bindM (liftR (prepare N chainId privateKey from to target b eth)) (\<lambda>signed.
      bindM (if dryrun
             then liftR (bindR (wrapR ''dryrun simulate'' (of_sum (CallContract N
                    \<lparr>msg_From = from, msg_To = target, msg_Data = b, msg_Value = 0\<rparr>))) (\<lambda>_. Ok ()))
             else (\<lambda>sent. case SendTransaction N signed of
                     Some err \<Rightarrow> (Err (''send transaction: '' @ err), sent)
                   | None \<Rightarrow> (Ok (), sent @ [signed]))) (\<lambda>_.
      retM (Tx_Hash N signed, dft_Gas (stx_Tx signed)))))"

definition SendArguments :: "libs \<Rightarrow> rpc \<Rightarrow> Address \<Rightarrow> bool \<Rightarrow> int \<Rightarrow> bytes \<Rightarrow> Address \<Rightarrow> Address \<Rightarrow> Args
    \<Rightarrow> bool \<Rightarrow> (signed_tx list, bytes \<times> u64) gm" where
  "SendArguments L N addrSafetyRouter useSafetyRouter chainId privateKey from to args dryrun =
     bindM (liftR (wrapR ''serialising borsh'' (of_sum (borsh_Serialize L (VArgs args))))) (\<lambda>b.
     Send L N addrSafetyRouter useSafetyRouter chainId privateKey from to b None dryrun)"

text \<open>A node that accepts everything.\<close>

definition ref_rpc :: rpc where
  "ref_rpc = \<lparr>EstimateGas = (\<lambda>_. Inr 100000), HeaderByNumber = Inr (Some 7), SuggestGasTipCap = Inr 2,
     PendingNonceAt = (\<lambda>_. Inr 5), CallContract = (\<lambda>_. Inr []), SendTransaction = (\<lambda>_. None),
     CodeAt = (\<lambda>_. Inr [1]), SignTx = (\<lambda>t c k. Inr k), Tx_Hash = (\<lambda>_. zeros 32)\<rparr>"

section \<open>Lemmas\<close>

subsection \<open>The margin\<close>

lemma excess_bounds:
  "n < 2 ^ 53 * 2 ^ excess n \<and> (0 < excess n \<longrightarrow> 2 ^ 52 * 2 ^ excess n \<le> n)"
proof (induction n rule: excess.induct)
  case (1 n)
  show ?case
  proof (cases "n < 2 ^ 53")
    case True
    then show ?thesis by (simp add: excess.simps [of n])
  next
    case False
    then have e: "excess n = Suc (excess (n div 2))" by (simp add: excess.simps [of n])
    have up: "n div 2 < 2 ^ 53 * 2 ^ excess (n div 2)" using 1 False by blast
    have lo: "2 ^ 52 * 2 ^ excess (n div 2) \<le> n div 2"
    proof (cases "excess (n div 2) = 0")
      case True
      then show ?thesis using False by simp
    next
      case False
      then show ?thesis using 1 \<open>\<not> n < 2 ^ 53\<close> by blast
    qed
    show ?thesis unfolding e power_Suc using up lo by linarith
  qed
qed

lemma excess_le:
  assumes "n < 2 ^ 53 * 2 ^ k" shows "excess n \<le> k"
proof (rule ccontr)
  assume "\<not> excess n \<le> k"
  then have "0 < excess n" "k + 1 \<le> excess n" by simp_all
  then have "2 ^ 52 * 2 ^ (k + 1) \<le> (2 :: nat) ^ 52 * 2 ^ excess n"
    by (intro mult_le_mono power_increasing) simp_all
  also have "\<dots> \<le> n" using excess_bounds [of n] \<open>0 < excess n\<close> by blast
  finally show False using assms by simp
qed

lemma round53_small: "n < 2 ^ 53 \<Longrightarrow> round53 n = n"
  by (simp add: round53_def excess.simps [of n])

text \<open>The rounding error is at most half a unit in the last place.\<close>

lemma round53_error:
  "2 * round53 n \<le> 2 * n + 2 ^ excess n \<and> 2 * n \<le> 2 * round53 n + 2 ^ excess n"
proof -
  let ?u = "2 ^ excess n :: nat" and ?q = "n div 2 ^ excess n" and ?r = "n mod 2 ^ excess n"
  have n: "n = ?q * ?u + ?r" by (rule div_mult_mod_eq [symmetric])
  have r: "?r < ?u" by simp
  show ?thesis
  proof (cases "?u < 2 * ?r \<or> (2 * ?r = ?u \<and> odd ?q)")
    case True
    then have "round53 n = ?q * ?u + ?u" by (simp add: round53_def Let_def)
    then show ?thesis using True n r by linarith
  next
    case False
    then have "round53 n = ?q * ?u" by (simp add: round53_def Let_def)
    then show ?thesis using False n r by linarith
  qed
qed

text \<open>A multiple of the last place less than half of it above is where the rounding goes.\<close>

lemma round53_up:
  assumes "n + d = k * 2 ^ excess n" and "2 * d < 2 ^ excess n"
  shows "round53 n = k * 2 ^ excess n"
proof -
  obtain u where u: "u = (2 :: nat) ^ excess n" and pos: "0 < u" by simp
  have "round53 n = k * u"
  proof (cases "d = 0")
    case True
    then have "n = k * u" using assms(1) u by simp
    then have "n mod u = 0" "n div u = k" using pos by simp_all
    then show ?thesis using pos by (simp add: round53_def u [symmetric])
  next
    case False
    have "0 < k" using assms(1) False by (cases k) auto
    then obtain j where k: "k = Suc j" by (cases k) auto
    have "n + d = k * u" "2 * d < u" using assms u by simp_all
    then have n: "n = j * u + (u - d)" using k by simp
    have lt: "u - d < u" using False pos by simp
    have "n div u = j" "n mod u = u - d" using lt by (simp_all add: n)
    moreover have "u < 2 * (u - d)" using \<open>2 * d < u\<close> by linarith
    ultimately show ?thesis using k by (simp add: round53_def u [symmetric] Let_def)
  qed
  then show ?thesis by (simp add: u)
qed

text \<open>
  The constant is a little below three tenths. On a multiple of ten the product falls just
  short of the integer, and rounds to it.
\<close>

lemma margin_multiple:
  assumes "h < 2 ^ 48"
  shows "round53 (10 * h * 5404319552844595) = 3 * h * 2 ^ 54"
proof -
  let ?N = "10 * h * 5404319552844595"
  have N: "?N + 2 * h = 3 * h * 2 ^ 54" by simp
  have "?N < 2 ^ 53 * 2 ^ 52" using assms by simp
  then have e: "excess ?N \<le> 52" by (rule excess_le)
  have "2 ^ 53 * (4 * h) \<le> ?N" by simp
  also have "?N < 2 ^ 53 * 2 ^ excess ?N" using excess_bounds by blast
  finally have "4 * h < 2 ^ excess ?N" by (rule mult_less_cancel1 [THEN iffD1, THEN conjunct2])
  then have d: "2 * (2 * h) < 2 ^ excess ?N" by linarith
  have "(2 :: nat) ^ 54 = 2 ^ (54 - excess ?N) * 2 ^ excess ?N"
    using e by (simp only: power_add [symmetric]) simp
  then have "?N + 2 * h = (3 * h * 2 ^ (54 - excess ?N)) * 2 ^ excess ?N" using N by (simp only: mult.assoc)
  from round53_up [OF this d] show ?thesis
    using \<open>(2 :: nat) ^ 54 = 2 ^ (54 - excess ?N) * 2 ^ excess ?N\<close> by (simp only: mult.assoc)
qed

lemma margin_exact:
  assumes "g < 2 ^ 48"
  shows "round53 (g * 5404319552844595) div 2 ^ 54 = 3 * g div 10"
proof -
  let ?N = "g * 5404319552844595"
  define R where "R = round53 ?N"
  obtain m r where mr: "3 * g = 10 * m + r" "r \<le> 9" and m: "m = 3 * g div 10"
    using mult_div_mod_eq [of 10 "3 * g"] that [of "3 * g div 10" "3 * g mod 10"] by simp
  have "?N < 2 ^ 53 * 2 ^ 48" using assms by simp
  then have "(2 :: nat) ^ excess ?N \<le> 2 ^ 48" by (intro power_increasing excess_le) simp_all
  then have err: "2 * R \<le> 2 * ?N + 2 ^ 48" "2 * ?N \<le> 2 * R + 2 ^ 48"
    using round53_error [of ?N] unfolding R_def by linarith+
  have "18014398509481984 * m \<le> R \<and> R < 18014398509481984 * m + 18014398509481984"
  proof (cases "r = 0")
    case False
    then have "1 \<le> r" by simp
    then show ?thesis using err mr assms by simp
  next
    case True
    then have "g = 10 * (7 * m - 2 * g)" "m = 3 * (7 * m - 2 * g)" using mr(1) by linarith+
    then obtain h where h: "g = 10 * h" "m = 3 * h" by blast
    then have "h < 2 ^ 48" using assms by simp
    from margin_multiple [OF this] have "R = 3 * h * 2 ^ 54" by (simp add: R_def h)
    then show ?thesis using h by simp
  qed
  then have "R div 18014398509481984 = m" by (intro div_nat_eqI) simp_all
  then show ?thesis by (simp add: R_def m)
qed

lemma unat_of_nat_u64: "n < 2 ^ 64 \<Longrightarrow> unat (of_nat n :: u64) = n"
  by (simp add: unat_of_nat take_bit_eq_mod)

lemma gas_margin_eq:
  assumes "unat g < 2 ^ 48" shows "unat (g + gas_margin g) = unat g + 3 * unat g div 10"
proof -
  have "round53 (unat g) = unat g" using assms by (intro round53_small) simp
  then have "gas_margin g = of_nat (3 * unat g div 10)"
    unfolding gas_margin_def using margin_exact [OF assms] by (simp only:)
  then have s: "g + gas_margin g = of_nat (unat g + 3 * unat g div 10)" by simp
  have "unat g + 3 * unat g div 10 < 2 ^ 64" using assms by simp
  then show ?thesis unfolding s by (rule unat_of_nat_u64)
qed

subsection \<open>Sending\<close>

lemma prepare_Ok_iff:
  "prepare N chainId key from to target b eth = Ok stx \<longleftrightarrow>
     (\<exists>g fee tip nonce sig.
        EstimateGas N \<lparr>msg_From = from, msg_To = target, msg_Data = b, msg_Value = eth\<rparr> = Inr g \<and>
        HeaderByNumber N = Inr (Some fee) \<and> SuggestGasTipCap N = Inr tip \<and> PendingNonceAt N from = Inr nonce \<and>
        SignTx N (stx_Tx stx) chainId key = Inr sig \<and>
        stx = \<lparr>stx_Tx = \<lparr>dft_ChainID = chainId, dft_Nonce = nonce, dft_GasFeeCap = tip + fee * 2,
          dft_GasTipCap = tip, dft_Gas = g + gas_margin g, dft_Value = eth, dft_Data = b, dft_To = target\<rparr>,
          stx_Sig = sig\<rparr>)"
  by (auto simp: prepare_def Let_def split: sum.splits option.splits)

lemma prepare_no_exit [simp]: "prepare N chainId key from to target b eth \<noteq> Exit e"
  by (simp add: prepare_def Let_def bindR_Exit_iff split: sum.splits option.splits)

lemma Send_cases:
  assumes "Send L N router use chainId key from to b eth dryrun sent = (r, sent')"
    and "route L router use to b = (target, cd)"
  shows "(case prepare N chainId key from to target cd (case eth of None \<Rightarrow> 0 | Some e \<Rightarrow> e) of
       Ok stx \<Rightarrow>
         (if dryrun then sent' = sent \<and>
            (case CallContract N \<lparr>msg_From = from, msg_To = target, msg_Data = cd, msg_Value = 0\<rparr> of
               Inl e \<Rightarrow> r = Err (''dryrun simulate: '' @ e) | Inr _ \<Rightarrow> r = Ok (Tx_Hash N stx, dft_Gas (stx_Tx stx)))
          else (case SendTransaction N stx of
             Some e \<Rightarrow> r = Err (''send transaction: '' @ e) \<and> sent' = sent
           | None \<Rightarrow> r = Ok (Tx_Hash N stx, dft_Gas (stx_Tx stx)) \<and> sent' = sent @ [stx]))
     | Err e \<Rightarrow> r = Err e \<and> sent' = sent
     | Panic p \<Rightarrow> r = Panic p \<and> sent' = sent
     | Exit e \<Rightarrow> r = Exit e \<and> sent' = sent)"
  using assms by (auto simp: Send_def Let_def bindM_def of_sum_def split: res.splits option.splits sum.splits if_splits)

text \<open>
  What a handler relies on when it sends: a simulation and a failure leave the chain as it
  is, and a success adds one transaction.
\<close>

locale broadcaster =
  fixes send :: "bool \<Rightarrow> ('t list, 'r) gm"
  assumes dry_keeps: "send True s = (r, s') \<Longrightarrow> s' = s"
    and fail_keeps: "send False s = (r, s') \<Longrightarrow> \<not> is_ok r \<Longrightarrow> s' = s"
    and ok_adds: "send False s = (Ok x, s') \<Longrightarrow> \<exists>t. s' = s @ [t]"
begin

lemma effect:
  "send dryrun s = (r, s') \<Longrightarrow> s' = s \<and> (dryrun \<or> \<not> is_ok r) \<or> (\<exists>t. s' = s @ [t]) \<and> \<not> dryrun \<and> is_ok r"
  by (cases dryrun; cases r) (auto dest: dry_keeps fail_keeps ok_adds)

text \<open>Over any number of calls, as many transactions are added as calls succeeded for real.\<close>

lemma count_real:
  "fold (\<lambda>d (n, s). case send d s of (r, s') \<Rightarrow> (if \<not> d \<and> is_ok r then Suc n else n, s')) ds (n, s) = (m, s') \<Longrightarrow>
     length s' - length s = m - n \<and> n \<le> m \<and> take (length s) s' = s"
proof (induction ds arbitrary: n s)
  case Nil
  then show ?case by simp
next
  case (Cons d ds)
  obtain r u where u: "send d s = (r, u)" by (cases "send d s")
  define k where "k = (if \<not> d \<and> is_ok r then Suc n else n)"
  have "fold (\<lambda>d (n, s). case send d s of (r, s') \<Rightarrow> (if \<not> d \<and> is_ok r then Suc n else n, s')) ds (k, u) = (m, s')"
    using Cons.prems u by (simp add: k_def)
  from Cons.IH [OF this] have ih: "length s' - length u = m - k" "k \<le> m" "take (length u) s' = u" by simp_all
  then have "length u \<le> length s'" by (metis length_take min.cobounded1)
  with effect [OF u] ih show ?case
    by (auto simp: k_def split: if_splits) (metis append_eq_conv_conj append_take_drop_id append.assoc)
qed

end

lemma Send_effects:
  assumes "Send L N router use chainId key from to b eth dryrun sent = (r, sent')"
  shows "dryrun \<or> \<not> is_ok r \<Longrightarrow> sent' = sent" and "\<not> dryrun \<Longrightarrow> is_ok r \<Longrightarrow> \<exists>t. sent' = sent @ [t]"
proof -
  obtain target cd where "route L router use to b = (target, cd)" by (cases "route L router use to b")
  from Send_cases [OF assms this]
  show "dryrun \<or> \<not> is_ok r \<Longrightarrow> sent' = sent" and "\<not> dryrun \<Longrightarrow> is_ok r \<Longrightarrow> \<exists>t. sent' = sent @ [t]"
    by (auto split: res.splits option.splits sum.splits if_splits)
qed

lemma SendArguments_eq:
  "SendArguments L N router use chainId key from to args dryrun sent =
     (case borsh_Serialize L (VArgs args) of
        Inl e \<Rightarrow> (Err (''serialising borsh: '' @ e), sent)
      | Inr b \<Rightarrow> Send L N router use chainId key from to b None dryrun sent)"
  by (simp add: SendArguments_def bindM_def split: sum.splits)

interpretation send_args: broadcaster "SendArguments L N router use chainId key sender to args"
  for L N router use chainId key sender to args
  by unfold_locales (auto simp: SendArguments_eq split: sum.splits dest: Send_effects)

lemma SendArguments_sent:
  assumes "geth_ok L" and "length to = 20"
    and "SendArguments L N router use chainId key from to args dryrun sent = (r, sent')"
    and real: "\<not> dryrun" "is_ok r"
  shows "\<exists>b g fee tip nonce sig t.
        borsh_Serialize L (VArgs args) = Inr b \<and>
        t = \<lparr>dft_ChainID = chainId, dft_Nonce = nonce, dft_GasFeeCap = tip + 2 * fee, dft_GasTipCap = tip,
             dft_Gas = g + gas_margin g, dft_Value = 0,
             dft_Data = (if use then zeros 12 @ to @ b else b), dft_To = (if use then router else to)\<rparr> \<and>
        EstimateGas N \<lparr>msg_From = from, msg_To = dft_To t, msg_Data = dft_Data t, msg_Value = 0\<rparr> = Inr g \<and>
        HeaderByNumber N = Inr (Some fee) \<and> SuggestGasTipCap N = Inr tip \<and>
        PendingNonceAt N from = Inr nonce \<and> SignTx N t chainId key = Inr sig \<and>
        sent' = sent @ [\<lparr>stx_Tx = t, stx_Sig = sig\<rparr>] \<and>
        r = Ok (Tx_Hash N \<lparr>stx_Tx = t, stx_Sig = sig\<rparr>, dft_Gas t)"
proof -
  obtain b where b: "borsh_Serialize L (VArgs args) = Inr b"
    and send: "Send L N router use chainId key from to b None dryrun sent = (r, sent')"
    using assms(3) real by (cases "borsh_Serialize L (VArgs args)") (auto simp: SendArguments_eq)
  have pad: "LeftPadBytes L to 32 = zeros 12 @ to" using assms(1,2) by (simp add: geth_okD)
  then have route: "route L router use to b =
      (if use then router else to, if use then zeros 12 @ to @ b else b)"
    by (simp add: route_def)
  from Send_cases [OF send route] real obtain stx where
    p: "prepare N chainId key from to (if use then router else to) (if use then zeros 12 @ to @ b else b) 0 = Ok stx"
    and o: "sent' = sent @ [stx]" "r = Ok (Tx_Hash N stx, dft_Gas (stx_Tx stx))"
    by (simp split: res.splits option.splits if_splits)
  from p [unfolded prepare_Ok_iff] obtain g fee tip nonce sig where
    q: "EstimateGas N \<lparr>msg_From = from, msg_To = (if use then router else to),
          msg_Data = (if use then zeros 12 @ to @ b else b), msg_Value = 0\<rparr> = Inr g"
      "HeaderByNumber N = Inr (Some fee)" "SuggestGasTipCap N = Inr tip" "PendingNonceAt N from = Inr nonce"
      "SignTx N (stx_Tx stx) chainId key = Inr sig"
    and stx: "stx = \<lparr>stx_Tx = \<lparr>dft_ChainID = chainId, dft_Nonce = nonce, dft_GasFeeCap = tip + fee * 2,
          dft_GasTipCap = tip, dft_Gas = g + gas_margin g, dft_Value = 0,
          dft_Data = (if use then zeros 12 @ to @ b else b), dft_To = (if use then router else to)\<rparr>,
          stx_Sig = sig\<rparr>"
    by blast
  show ?thesis
    by (rule exI [of _ b], rule exI [of _ g], rule exI [of _ fee], rule exI [of _ tip],
        rule exI [of _ nonce], rule exI [of _ sig], rule exI [of _ "stx_Tx stx"])
      (use b q o stx in simp)
qed

section \<open>Properties\<close>

text \<open>
  C24. Sending reaches the chain once or not at all: a dry run and a failure leave the
  accepted transactions as they are; a successful call adds exactly one, with the chain's
  id, the pending nonce of the sender, a fee cap of the tip plus twice the base fee, the gas
  the node estimated for that target and data plus the margin, no value, signed with the given
  key, addressed to the safety router with the recipient as the first word of the calldata or
  straight to the recipient, and carrying the serialised arguments; its hash and gas limit are
  returned. In whose name the estimate is asked for is left open.
\<close>

theorem send_arguments_exact:
  assumes "geth_ok L" and "length to = 20"
    and "SendArguments L N router use chainId key from to args dryrun sent = (r, sent')"
  shows "(dryrun \<or> \<not> is_ok r \<longrightarrow> sent' = sent) \<and>
    (\<not> dryrun \<longrightarrow> is_ok r \<longrightarrow>
      (\<exists>b g fee tip nonce sig t caller.
        borsh_Serialize L (VArgs args) = Inr b \<and>
        t = \<lparr>dft_ChainID = chainId, dft_Nonce = nonce, dft_GasFeeCap = tip + 2 * fee, dft_GasTipCap = tip,
             dft_Gas = g + gas_margin g, dft_Value = 0,
             dft_Data = (if use then zeros 12 @ to @ b else b), dft_To = (if use then router else to)\<rparr> \<and>
        EstimateGas N \<lparr>msg_From = caller, msg_To = dft_To t, msg_Data = dft_Data t, msg_Value = 0\<rparr> = Inr g \<and>
        HeaderByNumber N = Inr (Some fee) \<and> SuggestGasTipCap N = Inr tip \<and>
        PendingNonceAt N from = Inr nonce \<and> SignTx N t chainId key = Inr sig \<and>
        sent' = sent @ [\<lparr>stx_Tx = t, stx_Sig = sig\<rparr>] \<and>
        r = Ok (Tx_Hash N \<lparr>stx_Tx = t, stx_Sig = sig\<rparr>, dft_Gas t)))"
  using send_args.effect [OF assms(3)] SendArguments_sent [OF assms] by fastforce

theorem send_arguments_exact_witness:
  "\<exists>h b t. SendArguments ref_libs ref_rpc (zeros 20) True 1 [9] (zeros 20) (replicate 20 1)
       (fresh_args zero_FreshBackwards) False [] = (Ok (h, dft_Gas (stx_Tx t)), [t]) \<and>
     borsh_Serialize ref_libs (VArgs (fresh_args zero_FreshBackwards)) = Inr b \<and>
     dft_To (stx_Tx t) = zeros 20 \<and> dft_Data (stx_Tx t) = zeros 12 @ replicate 20 1 @ b"
proof -
  obtain r sent' where r: "SendArguments ref_libs ref_rpc (zeros 20) True 1 [9] (zeros 20) (replicate 20 1)
     (fresh_args zero_FreshBackwards) False [] = (r, sent')" and ok: "is_ok r"
    by (simp add: SendArguments_def Send_def prepare_def route_def ref_rpc_def ref_libs_def Let_def bindM_def)
  from send_arguments_exact [OF ref_geth_ok _ r] r ok show ?thesis by fastforce
qed

text \<open>
  C36. The margin computed in floating point is exact where it matters: for an estimate
  below \<^verbatim>\<open>2^48\<close> the gas limit is the estimate plus three tenths of it, rounded down, and
  nothing wraps.
\<close>

theorem gas_limit_margin:
  assumes "unat g < 2 ^ 48"
  shows "unat (gas_margin g) = 3 * unat g div 10 \<and> unat (g + gas_margin g) = unat g + 3 * unat g div 10"
proof -
  have "unat (g + gas_margin g) = unat g + 3 * unat g div 10" using assms by (rule gas_margin_eq)
  moreover have "unat (gas_margin g) = 3 * unat g div 10"
  proof -
    have "round53 (unat g) = unat g" using assms by (intro round53_small) simp
    then show ?thesis
      unfolding gas_margin_def using margin_exact [OF assms] assms by (simp add: unat_of_nat_u64)
  qed
  ultimately show ?thesis by simp
qed

theorem gas_limit_margin_witness:
  "unat (100000 + gas_margin 100000) = 130000"
  using gas_limit_margin [of 100000] by simp

text \<open>
  Calldata through the safety router is unambiguous: two routed calls whose
  transactions carry the same data have the same recipient and the same arguments.
\<close>

theorem routed_data_binds:
  assumes "geth_ok L" and "borsh_ok (borsh_Serialize L)"
    and "length to = 20" "length to' = 20" and "bw_Args args" "bw_Args args'"
    and "borsh_Serialize L (VArgs args) = Inr b" "borsh_Serialize L (VArgs args') = Inr b'"
    and "route L router True to b = (target, data)" "route L router True to' b' = (target', data)"
  shows "target = router \<and> length data = 32 + length b \<and> to = to' \<and> args = args'"
proof -
  have "LeftPadBytes L a 32 = zeros 12 @ a" if "length a = 20" for a
    using assms(1) that by (simp add: geth_okD)
  then have d: "data = zeros 12 @ to @ b" "data = zeros 12 @ to' @ b'" "target = router"
    using assms(3,4,9,10) by (auto simp: route_def)
  then have e: "to @ b = to' @ b'" by simp
  then have "to = to'" "b = b'" using assms(3,4) by simp_all
  then have "args = args'"
    using borsh_ok_inj [OF assms(2), of "VArgs args" "VArgs args'" b] assms by simp
  then show ?thesis using d assms(3) \<open>to = to'\<close> by simp
qed

theorem routed_data_binds_witness:
  "\<exists>b data. borsh_Serialize ref_libs (VArgs (fresh_args zero_FreshBackwards)) = Inr b \<and>
     route ref_libs (zeros 20) True (replicate 20 1) b = (zeros 20, data) \<and> length data = 32 + length b"
proof -
  have w: "bw_Args (fresh_args zero_FreshBackwards)"
    by (simp add: bw_Args_def fresh_args_def zero_Args_def bw_FreshBackwards_def wf_FreshBackwards_def
        zero_FreshBackwards_def small_def)
  then obtain b where b: "borsh_Serialize ref_libs (VArgs (fresh_args zero_FreshBackwards)) = Inr b"
    using borsh_ok_total [OF ref_borsh_ok] bw_value.simps(4) by blast
  obtain t data where r: "route ref_libs (zeros 20) True (replicate 20 1) b = (t, data)"
    by (cases "route ref_libs (zeros 20) True (replicate 20 1) b")
  from routed_data_binds [OF ref_geth_ok ref_borsh_ok _ _ w w b b r r] b r show ?thesis by simp
qed

end
