(* ===== verification/Resolvers.thy ===== *)
theory Resolvers
  imports Convertor Proxy Database Client
begin

text \<open>
  The GraphQL resolvers, \<^verbatim>\<open>graph/schema.resolvers.go\<close>, with the helpers of
  \<^verbatim>\<open>graph/utils.go\<close> and \<^verbatim>\<open>graph/secret.go\<close>. A handler is a state transformer on the
  tables, the transactions the chain has accepted and the alarms raised; what the process
  talks to is the record \<^verbatim>\<open>env\<close>. Logging is left out; the end of the process through
  \<^verbatim>\<open>log.Fatalf\<close> is an outcome.
\<close>

section \<open>State\<close>

record world =
  w_db :: db
  w_sent :: "signed_tx list"
  w_alarms :: "(string \<times> int \<times> string) list"

text \<open>
  The surroundings of one request: \<^verbatim>\<open>e_rand\<close> is what the system's random source
  returns, \<^verbatim>\<open>e_post\<close> the failure of a webhook call, \<^verbatim>\<open>e_AssetUsdc\<close> the constant of
  \<^verbatim>\<open>superposition_assets\<close>, \<^verbatim>\<open>e_fmt\<close> the verb \<^verbatim>\<open>%+v\<close> on a pointer-holding struct, whose
  text has addresses of the heap in it.
\<close>

record env =
  e_libs :: libs
  e_rpc :: rpc
  e_pg :: pg
  e_rand :: "bytes \<times> string option"
  e_post :: "string \<Rightarrow> string option"
  e_AssetUsdc :: Asset
  e_fmt :: "FreshBackwards \<Rightarrow> string"

record Resolver =
  r_ChainId :: int
  r_MinimumAmount :: int
  r_AccountsFactoryAddr :: Address
  r_ClaimantHelperAddr :: Address
  r_SafetyRouterAddr :: Address
  r_AccPubKey :: bytes
  r_UrlAlarm :: string
  r_FeatureClaimDisabled :: bool
  r_FeatureMintDisabled :: bool
  r_FeatureCheckCode :: bool

text \<open>The values the middleware puts in the context of a request; an absent one reads as zero.\<close>

record ctx =
  ctx_snowflake :: "int option"
  ctx_authed :: "bool option"
  ctx_eoa :: "Address option"
  ctx_is_admin :: "bool option"

definition snowflake_of :: "ctx \<Rightarrow> int" where
  "snowflake_of c = (case ctx_snowflake c of None \<Rightarrow> 0 | Some n \<Rightarrow> n)"

definition on_db :: "(db, 'a) gm \<Rightarrow> (world, 'a) gm" where
  "on_db m = (\<lambda>w. case m (w_db w) of (r, d) \<Rightarrow> (r, w\<lparr>w_db := d\<rparr>))"

definition on_chain :: "(signed_tx list, 'a) gm \<Rightarrow> (world, 'a) gm" where
  "on_chain m = (\<lambda>w. case m (w_sent w) of (r, s) \<Rightarrow> (r, w\<lparr>w_sent := s\<rparr>))"

definition wrapM :: "string \<Rightarrow> ('s, 'a) gm \<Rightarrow> ('s, 'a) gm" where
  "wrapM c m = catchM m (\<lambda>e. liftR (Err (c @ '': '' @ e)))"

section \<open>Helpers\<close>

definition ProgDalek :: string where
  "ProgDalek = ''/usr/local/bin/ed25519-dalek-ph''"

definition isDryrun :: "bool option \<Rightarrow> bool" where
  "isDryrun x \<longleftrightarrow> (case x of None \<Rightarrow> False | Some b \<Rightarrow> b)"

text \<open>
  The response of a failed \<^verbatim>\<open>http.Post\<close> is nil, its error is dropped, and the body is
  closed all the same.
\<close>

definition activateSoftAlarm :: "env \<Rightarrow> string \<Rightarrow> int \<Rightarrow> string \<Rightarrow> (world, unit) gm" where
  "activateSoftAlarm E url snowflake err = (\<lambda>w.
     if url = [] then (Ok (), w)
     else (case e_post E url of
         Some _ \<Rightarrow> (Panic nil_panic, w)
       | None \<Rightarrow> (Ok (), w\<lparr>w_alarms := w_alarms w @ [(url, snowflake, err)]\<rparr>)))"

definition trackTx :: "env \<Rightarrow> string \<Rightarrow> string \<Rightarrow> u64 \<Rightarrow> string \<Rightarrow> (world, unit) gm" where
  "trackTx E eoaS txHash gasLimit desc =
     catchM (on_db (insert_tx (e_pg E) eoaS txHash gasLimit desc)) (\<lambda>_. retM ())"

definition isIgnorable :: "string \<Rightarrow> bool" where
  "isIgnorable es \<longleftrightarrow> contains es ''res: 99090e'' \<or>
     contains es ''ERC20: transfer amount exceeds balance'' \<or> contains es ''res: 990995''"

text \<open>The words of the literal, least significant first.\<close>

definition secpMaxS :: int where
  "secpMaxS = 16134479119472337056 + 6725966010171805725 * 2 ^ 64 +
     18446744073709551615 * 2 ^ 128 + 9223372036854775807 * 2 ^ 192"

definition makeSecret :: "env \<Rightarrow> bytes res" where
  "makeSecret E = (case e_rand E of (secret, err) \<Rightarrow>
     if length secret \<noteq> 32 \<or> err \<noteq> None
     then Panic (''error with randomness: '' @ (case err of None \<Rightarrow> ''<nil>'' | Some e \<Rightarrow> e))
     else Ok secret)"

section \<open>Creating an account\<close>

definition CreateAccountExec ::
    "env \<Rightarrow> Resolver \<Rightarrow> ctx \<Rightarrow> model_CreateAccount \<Rightarrow> model_Mint option \<Rightarrow> bool option
       \<Rightarrow> (world, model_CreateAccountExec) gm" where
  "CreateAccountExec E R c createAccount mint dryrun =
     (let L = e_libs E; eoa = HexToAddress L (ca_EoaAddr createAccount) in
      bindM (liftR (wrapR ''create account''
        (CreateAccountToFreshBackwardsGraph (r_AccPubKey R) createAccount))) (\<lambda>f.
      bindM (liftR (guardR (\<not> IsHexAddress L (ca_EoaAddr createAccount)) ''not eoa address'')) (\<lambda>_.
      bindM (case mint of None \<Rightarrow> retM f | Some m \<Rightarrow> liftR (wrapR ''mint tagging''
        (TagFreshBackwardsWithMintGraph L ProgDalek f (e_AssetUsdc E) (mint_Market m) (mint_Outcome m)
          (mint_Amount m) (mint_Referrer m) eoa (mint_Permit m) (mint_MsTs m)))) (\<lambda>f.
      bindM (catchM (on_db (PickPrivateKey L (e_pg E)))
        (\<lambda>e. liftR (Exit (''error picking private key: '' @ e)))) (\<lambda>(privKey, sender).
      bindM (catchM (on_chain (SendArguments L (e_rpc E) (r_SafetyRouterAddr R) False (r_ChainId R)
          privKey sender (r_AccountsFactoryAddr R)
          (zero_Args\<lparr>args_Enum := ArgsFreshBackwards, args_FreshBackwards := f\<rparr>) (isDryrun dryrun)))
        (\<lambda>e. bindM (if isIgnorable e then retM ()
                    else activateSoftAlarm E (r_UrlAlarm R) (snowflake_of c)
                      (''create account exec, user address: '' @ Address_String L eoa @ '', sender: '' @
                       Address_String L sender @ '', contract: '' @ Address_String L (r_AccountsFactoryAddr R) @
                       '', err: '' @ e))
           (\<lambda>_. liftR (Err (''send arguments: fresh backwards '' @ e_fmt E f @ '': '' @ e))))) (\<lambda>(h, gasLimit).
      bindM (liftR (makeSecret E)) (\<lambda>secret.
      let secretX = hex_encode secret; eoaS = to_lower (Address_String L eoa) in
      bindM (if isDryrun dryrun then retM ()
             else bindM (catchM (on_db (insert_secret (e_pg E) eoaS secretX))
                          (\<lambda>_. liftR (Err ''error inserting secret'')))
                    (\<lambda>_. trackTx E eoaS (addr_hex h) gasLimit ''create account'')) (\<lambda>_.
      retM \<lparr>cae_Hash = addr_hex h, cae_Secret = secretX\<rparr>))))))))"

section \<open>Requesting a secret\<close>

text \<open>
  The 65 bytes of the signature: the decoded words are copied to the front of their
  thirds, whatever their length, and the recovery byte is brought to 0 or 1.
\<close>

definition request_sig :: "bytes \<Rightarrow> bytes \<Rightarrow> i32 \<Rightarrow> bytes" where
  "request_sig r s sigV =
     (let v = (of_int (sint sigV) :: u8) in
      go_copy (zeros 32) r @ go_copy (zeros 32) s @ [if v = 27 \<or> v = 28 then v - 27 else v])"

definition request_preimage :: "bytes \<Rightarrow> i32 \<Rightarrow> bytes" where
  "request_preimage accPubKey nonce =
     0x19 # bytes_of_string (''Ethereum Signed Message:'' @ [CHR 10] @ ''72'' @
       hex_encode accPubKey @ hex_encode (be_fixed 4 (unat nonce)))"

definition RequestSecret ::
    "env \<Rightarrow> Resolver \<Rightarrow> ctx \<Rightarrow> string \<Rightarrow> i32 \<Rightarrow> i32 \<Rightarrow> string \<Rightarrow> string \<Rightarrow> bool option \<Rightarrow> (world, string) gm" where
  "RequestSecret E R c eoaAddr nonce sigV sigR sigS dryrun =
     (let L = e_libs E; eoaAddr' = HexToAddress L eoaAddr in
      bindM (liftR (guardR (\<not> IsHexAddress L eoaAddr) ''decoding address'')) (\<lambda>_.
      bindM (liftR (wrapR ''decoding r'' (hex_decode_string sigR))) (\<lambda>r.
      bindM (liftR (wrapR ''decoding s'' (hex_decode_string sigS))) (\<lambda>s.
      bindM (liftR (guardR (secpMaxS < int (be_value s)) ''s malleable'')) (\<lambda>_.
      bindM (liftR (guardR (exceeds_u8 sigV) ''decoding v: too large'')) (\<lambda>_.
      bindM (liftR (wrapR ''recover pubkey''
        (of_sum (SigToPub L (Keccak256 L (request_preimage (r_AccPubKey R) nonce)) (request_sig r s sigV))))) (\<lambda>pubKey.
      let expAddr = PubkeyToAddress L pubKey in
      bindM (liftR (guardR (eoaAddr' \<noteq> expAddr)
        (''bad derivation: '' @ Address_String L eoaAddr' @ '', expected: '' @ Address_String L expAddr))) (\<lambda>_.
      let clientAddr = GetClientAddr L (r_AccountsFactoryAddr R) eoaAddr' in
      bindM (if r_FeatureCheckCode R
             then (case CodeAt (e_rpc E) clientAddr of
                 Inl _ \<Rightarrow> liftR (Err ''acc addr searching error'')
               | Inr code \<Rightarrow> liftR (guardR (code = []) ''account has no code''))
             else retM ()) (\<lambda>_.
      bindM (liftR (makeSecret E)) (\<lambda>secret.
      let eoaS = to_lower (Address_String L eoaAddr'); secretX = hex_encode secret in
      bindM (if isDryrun dryrun then retM ()
             else catchM (on_db (accounts_insert_nonce_secret_3 (e_pg E) eoaS secretX nonce))
                    (\<lambda>_. liftR (Err ''error inserting secret''))) (\<lambda>_.
      retM secretX)))))))))))"

section \<open>Minting and claiming\<close>

definition NinelivesMint :: "env \<Rightarrow> Resolver \<Rightarrow> ctx \<Rightarrow> model_Mint \<Rightarrow> bool option \<Rightarrow> (world, string) gm" where
  "NinelivesMint E R c mint dryrun =
     (let L = e_libs E in
      bindM (liftR (guardR (r_FeatureMintDisabled R) ''mint disabled'')) (\<lambda>_.
      bindM (case big_SetString10 (mint_Amount mint) of
               None \<Rightarrow> liftR (Panic nil_panic)
             | Some amt \<Rightarrow> liftR (guardR (amt < r_MinimumAmount R)
                 (''below the minimum amount ('' @ dec_int amt @ '')''))) (\<lambda>_.
      bindM (liftR (guardR (ctx_authed c \<noteq> Some True) ''not authed in the handler'')) (\<lambda>_.
      bindM (case ctx_eoa c of None \<Rightarrow> liftR (Err ''bad eoa address'') | Some eoa \<Rightarrow> retM eoa) (\<lambda>eoa.
      let clientAddr = GetClientAddr L (r_AccountsFactoryAddr R) eoa in
      bindM (catchM (on_db (PickPrivateKey L (e_pg E)))
        (\<lambda>e. liftR (Exit (''picking private key: '' @ e)))) (\<lambda>(privKey, sender).
      bindM (catchM (liftR (CreateSolveArgsSigArgsMintGraph L ProgDalek (e_AssetUsdc E) (mint_Market mint)
          (mint_Outcome mint) (mint_Amount mint) (mint_Referrer mint) eoa (mint_Permit mint) (mint_MsTs mint)))
        (\<lambda>e. bindM (if isIgnorable e then retM ()
                    else activateSoftAlarm E (r_UrlAlarm R) (snowflake_of c)
                      (''mint, market: '' @ mint_Market mint @ '', outcome: '' @ mint_Outcome mint @
                       '', user address: '' @ Address_String L eoa @ '', sender: '' @ Address_String L sender @
                       '', err: '' @ e))
           (\<lambda>_. liftR (Err (''error creating solve args: '' @ e))))) (\<lambda>f.
      bindM (liftR (wrapR ''error creating solve v2 args'' (CreateSolveV2 L ProgDalek [sas_Args f] eoa eoa))) (\<lambda>solveV2.
      bindM (catchM (on_chain (SendArguments L (e_rpc E) (r_SafetyRouterAddr R) True (r_ChainId R) privKey sender
          clientAddr solveV2 (isDryrun dryrun)))
        (\<lambda>e. bindM (if isIgnorable e then retM ()
                    else activateSoftAlarm E (r_UrlAlarm R) (snowflake_of c)
                      (''mint send, market: '' @ mint_Market mint @ '', outcome: '' @ mint_Outcome mint @
                       '', user address: '' @ Address_String L eoa @ '', sender: '' @ Address_String L sender @
                       '', err: '' @ e))
           (\<lambda>_. liftR (Err (''last error sending: '' @ e))))) (\<lambda>(h, gasLimit).
      bindM (if isDryrun dryrun then retM ()
             else trackTx E (Address_String L eoa) (addr_hex h) gasLimit ''mint'') (\<lambda>_.
      retM (addr_hex h)))))))))))"

definition ClaimRewards :: "env \<Rightarrow> Resolver \<Rightarrow> ctx \<Rightarrow> string list \<Rightarrow> string \<Rightarrow> bool option \<Rightarrow> (world, string) gm" where
  "ClaimRewards E R c markets msTs dryrun =
     (let L = e_libs E in
      bindM (liftR (guardR (r_FeatureClaimDisabled R) ''claim is disabled'')) (\<lambda>_.
      bindM (liftR (guardR (ctx_authed c \<noteq> Some True) ''not authed in the handler for claim rewards'')) (\<lambda>_.
      bindM (case ctx_eoa c of None \<Rightarrow> liftR (Err ''bad eoa address'') | Some eoa \<Rightarrow> retM eoa) (\<lambda>eoa.
      let clientAddr = GetClientAddr L (r_AccountsFactoryAddr R) eoa in
      bindM (catchM (on_db (PickPrivateKey L (e_pg E)))
        (\<lambda>e. liftR (Exit (''picking private key: '' @ e)))) (\<lambda>(privKey, sender).
      bindM (liftR (wrapR ''error creating solve args''
        (CreatePayoffForOtherArgsGraph L ProgDalek (r_ClaimantHelperAddr R) eoa markets msTs))) (\<lambda>f.
      bindM (liftR (wrapR ''error creating solve v2 args'' (CreateSolveV2 L ProgDalek [sas_Args f] eoa eoa))) (\<lambda>solveV2.
      bindM (catchM (on_chain (SendArguments L (e_rpc E) (r_SafetyRouterAddr R) True (r_ChainId R) privKey sender
          clientAddr solveV2 (isDryrun dryrun)))
        (\<lambda>e. bindM (activateSoftAlarm E (r_UrlAlarm R) (snowflake_of c)
                      (''claim, user address: '' @ Address_String L eoa @ '', sender: '' @ Address_String L sender @
                       '', contract: '' @ Address_String L (r_AccountsFactoryAddr R) @ '', err: '' @ e))
           (\<lambda>_. liftR (Err (''last error sending: '' @ e))))) (\<lambda>(h, gasLimit).
      bindM (if isDryrun dryrun then retM ()
             else trackTx E (Address_String L eoa) (addr_hex h) gasLimit ''claim rewards'') (\<lambda>_.
      retM (addr_hex h))))))))))"

section \<open>Queries\<close>

definition Publickey :: "Resolver \<Rightarrow> string res" where
  "Publickey R = Ok (hex_encode (r_AccPubKey R))"

definition EoaForAddress :: "env \<Rightarrow> Resolver \<Rightarrow> string \<Rightarrow> string res" where
  "EoaForAddress E R address =
     (if \<not> IsHexAddress (e_libs E) address then Err ''not address''
      else Ok (Address_String (e_libs E)
        (GetClientAddr (e_libs E) (r_AccountsFactoryAddr R) (HexToAddress (e_libs E) address))))"

definition HasCreated :: "env \<Rightarrow> string \<Rightarrow> (world, bool) gm" where
  "HasCreated E address =
     bindM (wrapM ''query row'' (on_db (exec_stmt (e_pg E) (CountAccounts (to_lower address))
       (\<lambda>d. (Ok (count_accounts d (to_lower address)), d))))) (\<lambda>count.
     retM (count > 0))"

text \<open>
  Reading one row: an average over no transaction is \<^verbatim>\<open>NULL\<close>, which a \<^verbatim>\<open>float64\<close> cannot
  hold. \<^verbatim>\<open>avg\<close> is the average of the database as the driver converts it.
\<close>

definition scan_statistics ::
    "(nat list \<Rightarrow> 'q) \<Rightarrow> string \<times> nat list \<times> nat list \<times> nat list \<Rightarrow> 'q model_Statistics res" where
  "scan_statistics avg row = (case row of (action, day, week, all) \<Rightarrow>
     if day = [] \<or> week = [] \<or> all = [] then Err ''failed to scan statistics''
     else Ok \<lparr>stats_Action = action, stats_AvgGasLimit24Hours = avg day, stats_AvgGasLimitWeek = avg week,
        stats_AvgGasLimitAllTime = avg all, stats_Tx24Hours = of_nat (length day),
        stats_TxWeek = of_nat (length week), stats_TxAllTime = of_nat (length all)\<rparr>)"

fun scan_all :: "(nat list \<Rightarrow> 'q) \<Rightarrow> (string \<times> nat list \<times> nat list \<times> nat list) list
    \<Rightarrow> 'q model_Statistics list res" where
  "scan_all avg [] = Ok []"
| "scan_all avg (row # rows) =
     bindR (scan_statistics avg row) (\<lambda>m. bindR (scan_all avg rows) (\<lambda>ms. Ok (m # ms)))"

text \<open>The loop ends when no row comes any more, for whatever reason.\<close>

definition Statistics :: "(nat list \<Rightarrow> 'q) \<Rightarrow> env \<Rightarrow> (world, 'q model_Statistics list) gm" where
  "Statistics avg E =
     bindM (catchM (on_db (exec_stmt (e_pg E) SelectStatistics
         (\<lambda>d. (Ok (accounts_transaction_statistics_1 (e_pg E) d), d))))
       (\<lambda>_. liftR (Err ''error retrieving statistics''))) (\<lambda>rows.
     liftR (scan_all avg (case pg_rows (e_pg E) of None \<Rightarrow> rows | Some n \<Rightarrow> take n rows)))"

section \<open>Instances\<close>

definition ref_env :: env where
  "ref_env = \<lparr>e_libs = ref_libs, e_rpc = ref_rpc, e_pg = ref_pg, e_rand = (replicate 32 42, None),
     e_post = (\<lambda>_. None), e_AssetUsdc = 0, e_fmt = (\<lambda>_. ''&{}'')\<rparr>"

definition ref_resolver :: Resolver where
  "ref_resolver = \<lparr>r_ChainId = 55244, r_MinimumAmount = 0, r_AccountsFactoryAddr = replicate 20 1,
     r_ClaimantHelperAddr = replicate 20 2, r_SafetyRouterAddr = replicate 20 3, r_AccPubKey = replicate 32 4,
     r_UrlAlarm = '''', r_FeatureClaimDisabled = False, r_FeatureMintDisabled = False, r_FeatureCheckCode = False\<rparr>"

definition ref_world :: world where
  "ref_world = \<lparr>w_db = empty_db\<lparr>accounts_sender_keys_1 :=
       [\<lparr>key_id = 1, private_key = hex_encode (replicate 32 5), last_accessed = SqlNull\<rparr>]\<rparr>,
     w_sent = [], w_alarms = []\<rparr>"

definition anon_ctx :: ctx where
  "anon_ctx = \<lparr>ctx_snowflake = None, ctx_authed = None, ctx_eoa = None, ctx_is_admin = None\<rparr>"

section \<open>Footprints\<close>

text \<open>What a handler may do to the tables, and what a dry run may not touch.\<close>

definition within_db :: "world \<Rightarrow> world \<Rightarrow> bool" where
  "within_db w w' \<longleftrightarrow> (\<exists>evs. trace db_step (w_db w) evs (w_db w'))"

definition silent :: "world \<Rightarrow> world \<Rightarrow> bool" where
  "silent w w' \<longleftrightarrow> w_sent w' = w_sent w \<and>
     accounts_secrets_1 (w_db w') = accounts_secrets_1 (w_db w) \<and>
     accounts_secrets_2 (w_db w') = accounts_secrets_2 (w_db w) \<and>
     accounts_secrets_nonces_2 (w_db w') = accounts_secrets_nonces_2 (w_db w) \<and>
     accounts_executed_transactions_2 (w_db w') = accounts_executed_transactions_2 (w_db w)"

definition no_send :: "world \<Rightarrow> world \<Rightarrow> bool" where
  "no_send w w' \<longleftrightarrow> w_sent w' = w_sent w"

definition at_most_one :: "(world, 'a) gm \<Rightarrow> bool" where
  "at_most_one m \<longleftrightarrow> (\<forall>w. \<exists>l. length l \<le> 1 \<and> w_sent (snd (m w)) = w_sent w @ l)"

section \<open>Lemmas\<close>

interpretation db_fp: footprint within_db
proof
  show "within_db s s" for s unfolding within_db_def by (rule exI, rule trace.trace_refl)
  show "within_db s t \<Longrightarrow> within_db t u \<Longrightarrow> within_db s u" for s t u
    unfolding within_db_def by (elim exE) (rule exI, erule (1) trace_append)
qed

interpretation silent_fp: footprint silent
  by unfold_locales (simp_all add: silent_def)

interpretation ns_fp: footprint no_send
  by unfold_locales (simp_all add: no_send_def)

lemma keeps_on_db:
  "(\<And>w. R w (w\<lparr>w_db := snd (m (w_db w))\<rparr>)) \<Longrightarrow> keeps R (on_db m)"
  by (simp add: keeps_def on_db_def case_prod_unfold)

lemma PickPrivateKey_step:
  "\<exists>k. snd (PickPrivateKey L E d) = d \<or> db_step d (KeyPicked k) (snd (PickPrivateKey L E d))"
proof (cases "pg_fault E PickKey")
  case None
  obtain k d' where k: "accounts_get_private_key_2 E d = (k, d')" by (cases "accounts_get_private_key_2 E d")
  then have "snd (PickPrivateKey L E d) = d'"
    using None by (auto simp: PickPrivateKey_def exec_stmt_def split: option.splits sum.splits)
  then show ?thesis using step_pick [OF k] by auto
next
  case (Some e)
  then show ?thesis by (simp add: PickPrivateKey_def exec_stmt_def)
qed

lemma PickPrivateKey_silent:
  "\<exists>ks. snd (PickPrivateKey L E d) = d\<lparr>accounts_sender_keys_1 := ks\<rparr>"
proof -
  obtain k where "snd (PickPrivateKey L E d) = d \<or> db_step d (KeyPicked k) (snd (PickPrivateKey L E d))"
    using PickPrivateKey_step by blast
  then show ?thesis
  proof
    assume "snd (PickPrivateKey L E d) = d"
    then show ?thesis by (intro exI [of _ "accounts_sender_keys_1 d"]) simp
  next
    assume "db_step d (KeyPicked k) (snd (PickPrivateKey L E d))"
    then obtain E' where "accounts_get_private_key_2 E' d = (k, snd (PickPrivateKey L E d))"
      by (cases rule: db_step.cases) auto
    from accounts_get_private_key_2_effect [OF this] show ?thesis by blast
  qed
qed

lemma insert_secret_step: "\<exists>ev. db_step d ev (snd (insert_secret E a s d))"
proof -
  obtain r d' where r: "insert_secret E a s d = (r, d')" by (cases "insert_secret E a s d")
  then have "(\<exists>e. r = Err e) \<or> r = Ok ()"
    by (auto simp: insert_secret_eq split: option.splits if_splits)
  then show ?thesis using r step_secret step_secret_err by (metis snd_conv)
qed

lemma nonce_secret_step: "\<exists>ev. db_step d ev (snd (accounts_insert_nonce_secret_3 E a s n d))"
proof -
  obtain r d' where r: "accounts_insert_nonce_secret_3 E a s n d = (r, d')"
    by (cases "accounts_insert_nonce_secret_3 E a s n d")
  then have "(\<exists>e. r = Err e) \<or> r = Ok ()"
    by (auto simp: nonce_secret_eq split: option.splits if_splits)
  then show ?thesis using r step_nonce step_nonce_err by (metis snd_conv)
qed

lemma insert_tx_step: "\<exists>ev. db_step d ev (snd (insert_tx E a h g desc d))"
proof -
  obtain r d' where r: "insert_tx E a h g desc d = (r, d')" by (cases "insert_tx E a h g desc d")
  then have "(\<exists>e. r = Err e) \<or> r = Ok ()" using insert_tx_effect by blast
  then show ?thesis using r step_tx step_tx_err by (metis snd_conv)
qed

text \<open>The calls of the handlers, each within its footprint.\<close>

lemma within_db_calls:
  "keeps within_db (on_db (PickPrivateKey L P))"
  "keeps within_db (on_db (insert_secret P a s))"
  "keeps within_db (on_db (accounts_insert_nonce_secret_3 P a s n))"
  "keeps within_db (on_chain m)"
  "keeps within_db (activateSoftAlarm E url sf msg)"
  "keeps within_db (trackTx E a h g desc)"
proof -
  have one: "keeps within_db (on_db m)" if "\<And>d. \<exists>ev. snd (m d) = d \<or> db_step d ev (snd (m d))"
    for m :: "(db, 'x) gm"
    using that by (intro keeps_on_db) (metis within_db_def trace_one trace.trace_refl world.select_convs(1)
        world.update_convs(1) world.surjective)
  show "keeps within_db (on_db (PickPrivateKey L P))" by (rule one) (use PickPrivateKey_step in blast)
  show "keeps within_db (on_db (insert_secret P a s))" by (rule one) (use insert_secret_step in blast)
  show "keeps within_db (on_db (accounts_insert_nonce_secret_3 P a s n))"
    by (rule one) (use nonce_secret_step in blast)
  show "keeps within_db (on_chain m)"
    by (auto simp: keeps_def on_chain_def within_db_def case_prod_unfold intro: trace.trace_refl)
  show "keeps within_db (activateSoftAlarm E url sf msg)"
    by (auto simp: keeps_def activateSoftAlarm_def within_db_def split: option.splits intro: trace.trace_refl)
  have "keeps within_db (on_db (insert_tx (e_pg E) a h g desc))" by (rule one) (use insert_tx_step in blast)
  then show "keeps within_db (trackTx E a h g desc)"
    unfolding trackTx_def by (intro db_fp.keeps_catchM db_fp.keeps_retM)
qed

lemma silent_calls:
  "keeps silent (on_db (PickPrivateKey L P))"
  "keeps silent (activateSoftAlarm E url sf msg)"
  "keeps silent (on_chain (SendArguments L N router use chainId key sender to args True))"
proof -
  show "keeps silent (on_db (PickPrivateKey L P))"
  proof (rule keeps_on_db)
    fix w :: world
    obtain ks where "snd (PickPrivateKey L P (w_db w)) = (w_db w)\<lparr>accounts_sender_keys_1 := ks\<rparr>"
      using PickPrivateKey_silent by blast
    then show "silent w (w\<lparr>w_db := snd (PickPrivateKey L P (w_db w))\<rparr>)" by (simp add: silent_def)
  qed
  show "keeps silent (activateSoftAlarm E url sf msg)"
    by (auto simp: keeps_def activateSoftAlarm_def silent_def split: option.splits)
  show "keeps silent (on_chain (SendArguments L N router use chainId key sender to args True))"
    unfolding keeps_def on_chain_def
  proof
    fix w :: world
    obtain r s' where "SendArguments L N router use chainId key sender to args True (w_sent w) = (r, s')"
      by (cases "SendArguments L N router use chainId key sender to args True (w_sent w)")
    moreover from send_args.dry_keeps [OF this] have "s' = w_sent w" .
    ultimately show "silent w (snd (case SendArguments L N router use chainId key sender to args True (w_sent w) of
        (r, s) \<Rightarrow> (r, w\<lparr>w_sent := s\<rparr>)))"
      by (simp add: silent_def)
  qed
qed

lemma no_send_calls:
  "keeps no_send (on_db m)"
  "keeps no_send (activateSoftAlarm E url sf msg)"
  "keeps no_send (trackTx E a h g desc)"
proof -
  show db: "keeps no_send (on_db m)" for m :: "(db, 'x) gm"
    by (simp add: keeps_def on_db_def no_send_def case_prod_unfold)
  show "keeps no_send (activateSoftAlarm E url sf msg)"
    by (auto simp: keeps_def activateSoftAlarm_def no_send_def split: option.splits)
  show "keeps no_send (trackTx E a h g desc)"
    unfolding trackTx_def by (intro ns_fp.keeps_catchM ns_fp.keeps_retM db)
qed

lemmas keeps_cases = keeps_if keeps_prod keeps_option keeps_sum

lemmas db_intros = db_fp.keeps_bindM db_fp.keeps_catchM db_fp.keeps_liftR db_fp.keeps_retM within_db_calls keeps_cases

lemmas silent_intros = silent_fp.keeps_bindM silent_fp.keeps_catchM silent_fp.keeps_liftR silent_fp.keeps_retM
  silent_calls keeps_cases

lemmas ns_intros = ns_fp.keeps_bindM ns_fp.keeps_catchM ns_fp.keeps_liftR ns_fp.keeps_retM no_send_calls keeps_cases

lemma handlers_within_db:
  "keeps within_db (CreateAccountExec E R c ca mint dry)"
  "keeps within_db (RequestSecret E R c eoa nonce v r s dry)"
  "keeps within_db (NinelivesMint E R c m dry)"
  "keeps within_db (ClaimRewards E R c markets msTs dry)"
  unfolding CreateAccountExec_def RequestSecret_def NinelivesMint_def ClaimRewards_def Let_def
  by (intro db_intros)+

lemma handlers_silent:
  assumes "isDryrun dry"
  shows "keeps silent (CreateAccountExec E R c ca mint dry)"
    "keeps silent (RequestSecret E R c eoa nonce v r s dry)"
    "keeps silent (NinelivesMint E R c m dry)"
    "keeps silent (ClaimRewards E R c markets msTs dry)"
  unfolding CreateAccountExec_def RequestSecret_def NinelivesMint_def ClaimRewards_def Let_def
    eqTrueI [OF assms] if_True
  by (intro silent_intros)+

lemma requests_no_send: "keeps no_send (RequestSecret E R c eoa nonce v r s dry)"
  unfolding RequestSecret_def Let_def by (intro ns_intros)

subsection \<open>At most one transaction\<close>

lemma at_most_one_pre:
  assumes "keeps no_send m" and "\<And>x. at_most_one (f x)" shows "at_most_one (bindM m f)"
  unfolding at_most_one_def
proof
  fix w
  obtain r u where m: "m w = (r, u)" by (cases "m w")
  have u: "w_sent u = w_sent w" using ns_fp.keepsD [OF assms(1) m] by (simp add: no_send_def)
  show "\<exists>l. length l \<le> 1 \<and> w_sent (snd (bindM m f w)) = w_sent w @ l"
  proof (cases r)
    case (Ok x)
    have "\<exists>l. length l \<le> 1 \<and> w_sent (snd (f x u)) = w_sent u @ l"
      using assms(2) [of x] unfolding at_most_one_def by blast
    then show ?thesis using m u Ok by (simp add: bindM_def)
  qed (use m u in \<open>auto simp: bindM_def\<close>)
qed

lemma at_most_one_post:
  assumes "at_most_one m" and "\<And>x. keeps no_send (f x)" shows "at_most_one (bindM m f)"
  unfolding at_most_one_def
proof
  fix w
  obtain r u where m: "m w = (r, u)" by (cases "m w")
  have u: "\<exists>l. length l \<le> 1 \<and> w_sent u = w_sent w @ l"
    using assms(1) m unfolding at_most_one_def by (metis snd_conv)
  show "\<exists>l. length l \<le> 1 \<and> w_sent (snd (bindM m f w)) = w_sent w @ l"
  proof (cases r)
    case (Ok x)
    have "w_sent (snd (f x u)) = w_sent u" using assms(2) [of x] by (simp add: keeps_def no_send_def)
    then show ?thesis using m u Ok by (simp add: bindM_def)
  qed (use m u in \<open>auto simp: bindM_def\<close>)
qed

lemma at_most_one_catch:
  assumes "at_most_one m" and "\<And>x. keeps no_send (h x)" shows "at_most_one (catchM m h)"
  unfolding at_most_one_def
proof
  fix w
  obtain r u where m: "m w = (r, u)" by (cases "m w")
  have u: "\<exists>l. length l \<le> 1 \<and> w_sent u = w_sent w @ l"
    using assms(1) m unfolding at_most_one_def by (metis snd_conv)
  show "\<exists>l. length l \<le> 1 \<and> w_sent (snd (catchM m h w)) = w_sent w @ l"
  proof (cases r)
    case (Err e)
    have "w_sent (snd (h e u)) = w_sent u" using assms(2) [of e] by (simp add: keeps_def no_send_def)
    then show ?thesis using m u Err by (simp add: catchM_def)
  qed (use m u in \<open>auto simp: catchM_def\<close>)
qed

lemma at_most_one_send: "at_most_one (on_chain (SendArguments L N router use chainId key sender to args dry))"
  unfolding at_most_one_def
proof
  fix w :: world
  obtain r s' where s: "SendArguments L N router use chainId key sender to args dry (w_sent w) = (r, s')"
    by (cases "SendArguments L N router use chainId key sender to args dry (w_sent w)")
  from send_args.effect [OF this]
  have "\<exists>l. length l \<le> 1 \<and> s' = w_sent w @ l" by fastforce
  then show "\<exists>l. length l \<le> 1 \<and>
      w_sent (snd (on_chain (SendArguments L N router use chainId key sender to args dry) w)) = w_sent w @ l"
    using s by (simp add: on_chain_def)
qed

lemma at_most_one_prod: "(\<And>a b. at_most_one (f a b)) \<Longrightarrow> at_most_one (case p of (a, b) \<Rightarrow> f a b)"
  by (cases p) simp

lemma handlers_at_most_one:
  "at_most_one (CreateAccountExec E R c ca mint dry)"
  "at_most_one (NinelivesMint E R c m dry)"
  "at_most_one (ClaimRewards E R c markets msTs dry)"
  unfolding CreateAccountExec_def NinelivesMint_def ClaimRewards_def Let_def
  by ((rule at_most_one_post, rule at_most_one_catch, rule at_most_one_send, intro ns_intros, intro ns_intros) |
      rule at_most_one_pre at_most_one_prod | (intro ns_intros))+

subsection \<open>Success\<close>

lemma catchM_fail_Ok [simp]:
  "catchM m (\<lambda>e. liftR (Err (g e))) s = (Ok y, t) \<longleftrightarrow> m s = (Ok y, t)"
  "catchM m (\<lambda>e. liftR (Exit (g e))) s = (Ok y, t) \<longleftrightarrow> m s = (Ok y, t)"
  "catchM m (\<lambda>e. bindM (a e) (\<lambda>_. liftR (Err (g e)))) s = (Ok y, t) \<longleftrightarrow> m s = (Ok y, t)"
  by (auto simp: catchM_def bindM_def split: prod.splits res.splits)

lemma on_db_Ok_iff [simp]:
  "on_db m w = (Ok y, w') \<longleftrightarrow> (\<exists>d. m (w_db w) = (Ok y, d) \<and> w' = w\<lparr>w_db := d\<rparr>)"
  by (auto simp: on_db_def split: prod.splits)

lemma on_chain_Ok_iff [simp]:
  "on_chain m w = (Ok y, w') \<longleftrightarrow> (\<exists>s. m (w_sent w) = (Ok y, s) \<and> w' = w\<lparr>w_sent := s\<rparr>)"
  by (auto simp: on_chain_def split: prod.splits)

lemma trackTx_eq:
  "trackTx E a h g desc w = (Ok (), w\<lparr>w_db := snd (insert_tx (e_pg E) a h g desc (w_db w))\<rparr>)"
proof -
  obtain r d' where r: "insert_tx (e_pg E) a h g desc (w_db w) = (r, d')"
    by (cases "insert_tx (e_pg E) a h g desc (w_db w)")
  then have "(\<exists>e. r = Err e) \<or> r = Ok ()" using insert_tx_effect by blast
  then show ?thesis using r by (auto simp: trackTx_def catchM_def on_db_def)
qed

lemma makeSecret_Ok_iff: "makeSecret E = Ok s \<longleftrightarrow> e_rand E = (s, None) \<and> length s = 32"
  by (auto simp: makeSecret_def split: prod.splits)

text \<open>What has happened when a mint succeeds.\<close>

lemma NinelivesMint_OkD:
  assumes "NinelivesMint E R c mint dry w = (Ok h, w')"
  shows "\<exists>amt eoa key sender d f v2 hash gas sent.
     \<not> r_FeatureMintDisabled R \<and> big_SetString10 (mint_Amount mint) = Some amt \<and> r_MinimumAmount R \<le> amt \<and>
     ctx_authed c = Some True \<and> ctx_eoa c = Some eoa \<and>
     PickPrivateKey (e_libs E) (e_pg E) (w_db w) = (Ok (key, sender), d) \<and>
     CreateSolveArgsSigArgsMintGraph (e_libs E) ProgDalek (e_AssetUsdc E) (mint_Market mint) (mint_Outcome mint)
       (mint_Amount mint) (mint_Referrer mint) eoa (mint_Permit mint) (mint_MsTs mint) = Ok f \<and>
     CreateSolveV2 (e_libs E) ProgDalek [sas_Args f] eoa eoa = Ok v2 \<and>
     SendArguments (e_libs E) (e_rpc E) (r_SafetyRouterAddr R) True (r_ChainId R) key sender
       (GetClientAddr (e_libs E) (r_AccountsFactoryAddr R) eoa) v2 (isDryrun dry) (w_sent w) = (Ok (hash, gas), sent) \<and>
     h = addr_hex hash \<and> w_sent w' = sent"
proof -
  from assms obtain amt where amt: "big_SetString10 (mint_Amount mint) = Some amt"
    by (cases "big_SetString10 (mint_Amount mint)") (auto simp: NinelivesMint_def Let_def bindM_Ok_iff)
  from assms amt obtain eoa where eoa: "ctx_eoa c = Some eoa"
    by (cases "ctx_eoa c") (auto simp: NinelivesMint_def Let_def bindM_Ok_iff)
  from assms amt eoa show ?thesis
    by (cases "isDryrun dry")
      (auto simp: NinelivesMint_def Let_def bindM_Ok_iff trackTx_eq not_less split: prod.splits)
qed

lemma CreateAccountExec_OkD:
  assumes "CreateAccountExec E R c ca mint dry w = (Ok x, w')"
  shows "\<exists>f key sender d g hash gas sent secret.
     CreateAccountToFreshBackwardsGraph (r_AccPubKey R) ca = Ok f \<and> IsHexAddress (e_libs E) (ca_EoaAddr ca) \<and>
     (case mint of None \<Rightarrow> g = f
      | Some m \<Rightarrow> TagFreshBackwardsWithMintGraph (e_libs E) ProgDalek f (e_AssetUsdc E) (mint_Market m)
          (mint_Outcome m) (mint_Amount m) (mint_Referrer m) (HexToAddress (e_libs E) (ca_EoaAddr ca))
          (mint_Permit m) (mint_MsTs m) = Ok g) \<and>
     PickPrivateKey (e_libs E) (e_pg E) (w_db w) = (Ok (key, sender), d) \<and>
     SendArguments (e_libs E) (e_rpc E) (r_SafetyRouterAddr R) False (r_ChainId R) key sender
       (r_AccountsFactoryAddr R) (fresh_args g) (isDryrun dry) (w_sent w) = (Ok (hash, gas), sent) \<and>
     e_rand E = (secret, None) \<and> length secret = 32 \<and>
     x = \<lparr>cae_Hash = addr_hex hash, cae_Secret = hex_encode secret\<rparr> \<and> w_sent w' = sent \<and>
     (\<not> isDryrun dry \<longrightarrow> (\<exists>d'. insert_secret (e_pg E)
         (to_lower (Address_String (e_libs E) (HexToAddress (e_libs E) (ca_EoaAddr ca)))) (hex_encode secret) d = (Ok (), d') \<and>
       w_db w' = snd (insert_tx (e_pg E) (to_lower (Address_String (e_libs E) (HexToAddress (e_libs E) (ca_EoaAddr ca))))
         (addr_hex hash) gas ''create account'' d')))"
  using assms
  by (cases mint; cases "isDryrun dry")
    (auto simp: CreateAccountExec_def Let_def bindM_Ok_iff trackTx_eq makeSecret_Ok_iff fresh_args_def
      split: prod.splits)

lemma RequestSecret_OkD:
  assumes "RequestSecret E R c eoaAddr nonce sigV sigR sigS dry w = (Ok x, w')"
  shows "\<exists>r s pub secret.
     IsHexAddress (e_libs E) eoaAddr \<and> hex_decode_string sigR = Ok r \<and> hex_decode_string sigS = Ok s \<and>
     int (be_value s) \<le> secpMaxS \<and> 0 \<le> sint sigV \<and> sint sigV \<le> 255 \<and>
     SigToPub (e_libs E) (Keccak256 (e_libs E) (request_preimage (r_AccPubKey R) nonce)) (request_sig r s sigV) = Inr pub \<and>
     HexToAddress (e_libs E) eoaAddr = PubkeyToAddress (e_libs E) pub \<and>
     (r_FeatureCheckCode R \<longrightarrow> (\<exists>code. CodeAt (e_rpc E)
        (GetClientAddr (e_libs E) (r_AccountsFactoryAddr R) (HexToAddress (e_libs E) eoaAddr)) = Inr code \<and> code \<noteq> [])) \<and>
     e_rand E = (secret, None) \<and> length secret = 32 \<and> x = hex_encode secret \<and>
     (if isDryrun dry then w' = w
      else \<exists>d. accounts_insert_nonce_secret_3 (e_pg E)
          (to_lower (Address_String (e_libs E) (HexToAddress (e_libs E) eoaAddr))) (hex_encode secret) nonce (w_db w) = (Ok (), d) \<and>
        w' = w\<lparr>w_db := d\<rparr>)"
proof -
  have code: "(case CodeAt (e_rpc E) a of Inl b \<Rightarrow> liftR (Err x) | Inr code \<Rightarrow> liftR (guardR (code = []) y)) s = (Ok u, t)
      \<longleftrightarrow> t = s \<and> (\<exists>code. CodeAt (e_rpc E) a = Inr code \<and> code \<noteq> [])"
    for a x y u and s t :: world
    by (cases "CodeAt (e_rpc E) a") auto
  show ?thesis
    using assms
    by (cases "r_FeatureCheckCode R"; cases "isDryrun dry")
      (auto simp: RequestSecret_def Let_def bindM_Ok_iff makeSecret_Ok_iff exceeds_u8_def not_less code)
qed

lemma ClaimRewards_OkD:
  assumes "ClaimRewards E R c markets msTs dry w = (Ok h, w')"
  shows "\<exists>eoa key sender d f v2 hash gas sent.
     \<not> r_FeatureClaimDisabled R \<and> ctx_authed c = Some True \<and> ctx_eoa c = Some eoa \<and>
     PickPrivateKey (e_libs E) (e_pg E) (w_db w) = (Ok (key, sender), d) \<and>
     CreatePayoffForOtherArgsGraph (e_libs E) ProgDalek (r_ClaimantHelperAddr R) eoa markets msTs = Ok f \<and>
     CreateSolveV2 (e_libs E) ProgDalek [sas_Args f] eoa eoa = Ok v2 \<and>
     SendArguments (e_libs E) (e_rpc E) (r_SafetyRouterAddr R) True (r_ChainId R) key sender
       (GetClientAddr (e_libs E) (r_AccountsFactoryAddr R) eoa) v2 (isDryrun dry) (w_sent w) = (Ok (hash, gas), sent) \<and>
     h = addr_hex hash \<and> w_sent w' = sent"
proof -
  from assms obtain eoa where eoa: "ctx_eoa c = Some eoa"
    by (cases "ctx_eoa c") (auto simp: ClaimRewards_def Let_def bindM_Ok_iff)
  from assms eoa show ?thesis
    by (cases "isDryrun dry")
      (auto simp: ClaimRewards_def Let_def bindM_Ok_iff trackTx_eq split: prod.splits)
qed

subsection \<open>Refusals and instances\<close>

lemma at_most_oneD: "m w = (r, w') \<Longrightarrow> at_most_one m \<Longrightarrow> \<exists>l. length l \<le> 1 \<and> w_sent w' = w_sent w @ l"
  unfolding at_most_one_def by (metis snd_conv)

lemma sent_one:
  "SendArguments L N router use chainId key sender to args dry s = (Ok x, s') \<Longrightarrow> \<not> dry \<Longrightarrow> \<exists>t. s' = s @ [t]"
  using send_args.ok_adds by (cases dry) auto


lemma bindM_not_Ok: "m s = (r, t) \<Longrightarrow> \<not> is_ok r \<Longrightarrow> \<exists>q. bindM m f s = (q, t) \<and> \<not> is_ok q"
  by (cases r) (auto simp: bindM_def)

lemma CreateAccountExec_sent:
  "CreateAccountExec E R c ca mint dry w = (Ok x, w') \<Longrightarrow> \<not> isDryrun dry \<Longrightarrow> \<exists>t. w_sent w' = w_sent w @ [t]"
  by (drule CreateAccountExec_OkD, elim exE conjE) (auto dest: sent_one)

lemma NinelivesMint_sent:
  "NinelivesMint E R c m dry w = (Ok x, w') \<Longrightarrow> \<not> isDryrun dry \<Longrightarrow> \<exists>t. w_sent w' = w_sent w @ [t]"
  by (drule NinelivesMint_OkD, elim exE conjE) (auto dest: sent_one)

lemma ClaimRewards_sent:
  "ClaimRewards E R c markets msTs dry w = (Ok x, w') \<Longrightarrow> \<not> isDryrun dry \<Longrightarrow> \<exists>t. w_sent w' = w_sent w @ [t]"
  by (drule ClaimRewards_OkD, elim exE conjE) (auto dest: sent_one)

text \<open>The middleware's values missing, the two handlers stop before they touch anything.\<close>

lemma mint_unauthed:
  assumes "ctx_authed c \<noteq> Some True \<or> ctx_eoa c = None"
  shows "\<exists>r. NinelivesMint E R c mint dry w = (r, w) \<and> \<not> is_ok r"
  using assms
  by (cases "ctx_eoa c"; cases "ctx_authed c = Some True"; cases "big_SetString10 (mint_Amount mint)")
    (auto simp: NinelivesMint_def Let_def bindM_def guardR_def)

lemma claim_unauthed:
  assumes "ctx_authed c \<noteq> Some True \<or> ctx_eoa c = None"
  shows "\<exists>r. ClaimRewards E R c markets msTs dry w = (r, w) \<and> \<not> is_ok r"
  using assms
  by (cases "ctx_eoa c"; cases "ctx_authed c = Some True")
    (auto simp: ClaimRewards_def Let_def bindM_def guardR_def)

lemma ref_send:
  assumes "bw_Args args"
  shows "\<exists>t. SendArguments ref_libs ref_rpc router use chainId key sender to args False sent =
    (Ok (zeros 32, 100000 + gas_margin 100000), sent @ [t])"
proof -
  obtain b where b: "borsh_Serialize ref_libs (VArgs args) = Inr b"
    using borsh_ok_total [OF ref_borsh_ok] assms bw_value.simps(4) by blast
  show ?thesis
    by (simp add: SendArguments_eq b Send_def prepare_def route_def ref_rpc_def bindM_def Let_def)
qed

lemma ref_pick:
  "PickPrivateKey ref_libs ref_pg (w_db ref_world) = (Ok (replicate 32 5, replicate 20 5),
     (w_db ref_world)\<lparr>accounts_sender_keys_1 :=
       [\<lparr>key_id = 1, private_key = hex_encode (replicate 32 5), last_accessed = SqlTime 1000\<rparr>]\<rparr>)"
proof -
  have h: "HexToECDSA ref_libs (hex_encode b) = Inr b" for b by (simp add: ref_libs_def)
  have p: "pad_char 64 (hex_encode (replicate 32 5)) = hex_encode (replicate 32 (5 :: byte))"
    by (simp add: pad_char_def)
  have a: "PubkeyToAddress ref_libs (ECDSA_Public ref_libs (replicate 32 5)) = replicate 20 (5 :: byte)"
    by (simp add: ref_libs_def ref_crop_def zeros_def)
  show ?thesis
    using h [of "replicate 32 5"] p a
    by (simp add: PickPrivateKey_def exec_stmt_def ref_pg_def accounts_get_private_key_2_def ref_world_def
        least_recent_def touch_key_def Let_def del: hex_encode_Cons)
qed

section \<open>Properties\<close>

text \<open>
  Whatever a request does and however it ends, its effect on the tables is a sequence
  of the server's writing statements; in particular the constraints of the schema are kept
  by each of the four mutations.
\<close>

theorem handlers_keep_schema:
  assumes "db_ok (w_db w)"
    and "(r, w') = CreateAccountExec E R c ca mint dry w \<or> (q, w') = RequestSecret E R c eoa nonce v sr ss dry w \<or>
      (q, w') = NinelivesMint E R c m dry w \<or> (q, w') = ClaimRewards E R c markets msTs dry w"
  shows "(\<exists>evs. trace db_step (w_db w) evs (w_db w')) \<and> db_ok (w_db w')"
proof -
  have "within_db w w'"
    using assms(2) by (elim disjE) (rule handlers_within_db [THEN db_fp.keepsD], erule sym)+
  then obtain evs where t: "trace db_step (w_db w) evs (w_db w')" by (auto simp: within_db_def)
  moreover have "db_ok (w_db w')" using t assms(1) by (rule trace_invariant) (rule db_step_ok)
  ultimately show ?thesis by blast
qed

theorem handlers_keep_schema_witness:
  "db_ok (w_db (snd (NinelivesMint ref_env ref_resolver anon_ctx
     \<lparr>mint_Market = [], mint_Outcome = [], mint_Amount = ''5'', mint_Permit = None, mint_Referrer = [], mint_MsTs = []\<rparr>
     None ref_world)))"
proof -
  let ?m = "\<lparr>mint_Market = [], mint_Outcome = [], mint_Amount = ''5'', mint_Permit = None, mint_Referrer = [], mint_MsTs = []\<rparr>"
  have "db_ok (w_db ref_world)" by (simp add: db_ok_def ref_world_def empty_db_def)
  moreover obtain q w' where q: "(q, w') = NinelivesMint ref_env ref_resolver anon_ctx ?m None ref_world"
    by (metis prod.collapse)
  ultimately have "db_ok (w_db w')"
    using handlers_keep_schema [OF _ disjI2 [OF disjI2 [OF disjI1 [OF q]]]] by blast
  then show ?thesis unfolding q [symmetric] by simp
qed

text \<open>
  C26. A dry run changes nothing that lasts: none of the four mutations, run dry, sends a
  transaction or writes a secret, a nonce or an executed transaction, whatever happens on
  the way. Only the time a sender key was last picked, and the alarms, may differ.
\<close>

theorem dryrun_is_silent:
  assumes "isDryrun dry"
    and "(r, w') = CreateAccountExec E R c ca mint dry w \<or> (q, w') = RequestSecret E R c eoa nonce v sr ss dry w \<or>
      (q, w') = NinelivesMint E R c m dry w \<or> (q, w') = ClaimRewards E R c markets msTs dry w"
  shows "w_sent w' = w_sent w \<and>
    accounts_secrets_2 (w_db w') = accounts_secrets_2 (w_db w) \<and>
    accounts_secrets_nonces_2 (w_db w') = accounts_secrets_nonces_2 (w_db w) \<and>
    accounts_executed_transactions_2 (w_db w') = accounts_executed_transactions_2 (w_db w)"
proof -
  have "silent w w'"
    using assms(2) by (elim disjE) (rule handlers_silent [OF assms(1), THEN silent_fp.keepsD], erule sym)+
  then show ?thesis by (simp add: silent_def)
qed

theorem dryrun_is_silent_witness:
  "w_sent (snd (ClaimRewards ref_env ref_resolver anon_ctx [] ''1'' (Some True) ref_world)) = []"
proof -
  have d: "isDryrun (Some True)" by (simp add: isDryrun_def)
  have "w_sent ref_world = []" by (simp add: ref_world_def)
  moreover obtain q w' where q: "(q, w') = ClaimRewards ref_env ref_resolver anon_ctx [] ''1'' (Some True) ref_world"
    by (metis prod.collapse)
  moreover from dryrun_is_silent [OF d disjI2 [OF disjI2 [OF disjI2 [OF q]]]] have "w_sent w' = w_sent ref_world"
    by (rule conjunct1)
  ultimately show ?thesis unfolding q [symmetric] by simp
qed

text \<open>
  A request sends at most one transaction, and one that creates an account, mints or
  claims and succeeds for real has sent exactly one; requesting a secret sends none.
\<close>

theorem one_transaction:
  assumes "(r, w') = CreateAccountExec E R c ca mint dry w \<and> ok = is_ok r \<or>
      (q, w') = NinelivesMint E R c m dry w \<and> ok = is_ok q \<or>
      (q, w') = ClaimRewards E R c markets msTs dry w \<and> ok = is_ok q"
  shows "(\<exists>l. w_sent w' = w_sent w @ l \<and> length l \<le> 1 \<and> (ok \<longrightarrow> \<not> isDryrun dry \<longrightarrow> length l = 1)) \<and>
    w_sent (snd (RequestSecret E R c eoa nonce v sr ss dry w)) = w_sent w"
proof
  show "w_sent (snd (RequestSecret E R c eoa nonce v sr ss dry w)) = w_sent w"
    using requests_no_send by (auto simp: keeps_def no_send_def)
  have one: "\<exists>l. length l \<le> 1 \<and> w_sent w' = w_sent w @ l"
    using assms by (elim disjE conjE) (rule at_most_oneD, erule sym, rule handlers_at_most_one)+
  have real: "\<exists>t. w_sent w' = w_sent w @ [t]" if o: "ok" and nd: "\<not> isDryrun dry"
    using assms
  proof (elim disjE conjE)
    assume *: "(r, w') = CreateAccountExec E R c ca mint dry w" "ok = is_ok r"
    then obtain x where "CreateAccountExec E R c ca mint dry w = (Ok x, w')" using o by (metis is_ok_iff)
    then show ?thesis using nd by (rule CreateAccountExec_sent)
  next
    assume *: "(q, w') = NinelivesMint E R c m dry w" "ok = is_ok q"
    then obtain x where "NinelivesMint E R c m dry w = (Ok x, w')" using o by (metis is_ok_iff)
    then show ?thesis using nd by (rule NinelivesMint_sent)
  next
    assume *: "(q, w') = ClaimRewards E R c markets msTs dry w" "ok = is_ok q"
    then obtain x where "ClaimRewards E R c markets msTs dry w = (Ok x, w')" using o by (metis is_ok_iff)
    then show ?thesis using nd by (rule ClaimRewards_sent)
  qed
  show "\<exists>l. w_sent w' = w_sent w @ l \<and> length l \<le> 1 \<and> (ok \<longrightarrow> \<not> isDryrun dry \<longrightarrow> length l = 1)"
    using one real by (cases "ok \<and> \<not> isDryrun dry") auto
qed

theorem one_transaction_witness:
  "\<exists>l. w_sent (snd (ClaimRewards ref_env ref_resolver anon_ctx [] ''1'' None ref_world)) = w_sent ref_world @ l \<and>
     length l \<le> 1"
proof -
  obtain q w' where q: "(q, w') = ClaimRewards ref_env ref_resolver anon_ctx [] ''1'' None ref_world"
    by (metis prod.collapse)
  from conjunct1 [OF one_transaction [OF disjI2 [OF disjI2 [OF conjI [OF q refl]]]]]
  show ?thesis unfolding q [symmetric] by auto
qed

end
