(* ===== verification/Handlers.thy ===== *)
theory Handlers
  imports Resolvers
begin

text \<open>
  What the resolvers of the theory \<^verbatim>\<open>Resolvers\<close> guarantee about a single request: on whose
  behalf a transaction is sent, what a secret is given out for, how the requests fail, and
  what the queries report.
\<close>

section \<open>An authenticated request\<close>

definition ref_mint_args :: model_Mint where
  "ref_mint_args = \<lparr>mint_Market = addr_hex (replicate 20 1), mint_Outcome = addr_hex (replicate 8 2),
     mint_Amount = ''5'', mint_Permit = None, mint_Referrer = '''', mint_MsTs = ''1''\<rparr>"

definition ref_create_args :: model_CreateAccount where
  "ref_create_args = \<lparr>ca_EoaAddr = addr_hex (replicate 20 6), ca_SigV = 28, ca_SigR = addr_hex (replicate 32 1),
      ca_SigS = addr_hex (replicate 32 2), ca_Authority = None\<rparr>"

definition owner_ctx :: ctx where
  "owner_ctx = \<lparr>ctx_snowflake = Some 1, ctx_authed = Some True, ctx_eoa = Some (replicate 20 6), ctx_is_admin = None\<rparr>"

text \<open>
  What the statistics say of an action: the average gas limit and the number of its
  transactions of the last day, of the last seven days and of all time.
\<close>

definition since :: "nat \<Rightarrow> nat \<Rightarrow> tx_row list \<Rightarrow> tx_row list" where
  "since now seconds rows = filter (\<lambda>r. now \<le> tx_created_at r + seconds) rows"

definition action_statistics :: "(nat list \<Rightarrow> 'q) \<Rightarrow> nat \<Rightarrow> tx_row list \<Rightarrow> string \<Rightarrow> 'q model_Statistics" where
  "action_statistics avg now txs action =
     (let rows = filter (\<lambda>r. tx_desc r = action) txs;
          day = since now (24 * 60 * 60) rows;
          week = since now (7 * 24 * 60 * 60) rows
      in \<lparr>stats_Action = action,
          stats_AvgGasLimit24Hours = avg (map tx_gas_limit day), stats_AvgGasLimitWeek = avg (map tx_gas_limit week),
          stats_AvgGasLimitAllTime = avg (map tx_gas_limit rows),
          stats_Tx24Hours = of_nat (length day), stats_TxWeek = of_nat (length week), stats_TxAllTime = of_nat (length rows)\<rparr>)"

definition ref_tx :: "nat \<Rightarrow> nat \<Rightarrow> string \<Rightarrow> tx_row" where
  "ref_tx t gas action = \<lparr>tx_created_at = t, tx_eoa = ''a'', tx_hash = ''b'', tx_gas_limit = gas, tx_desc = action\<rparr>"

text \<open>The rows of the statistics no column of which is an average over nothing.\<close>

definition fresh_rows :: "(string \<times> nat list \<times> nat list \<times> nat list) list \<Rightarrow> bool" where
  "fresh_rows rows \<longleftrightarrow> list_all (\<lambda>(a, day, week, all). day \<noteq> [] \<and> week \<noteq> [] \<and> all \<noteq> []) rows"

section \<open>Lemmas\<close>

lemma mint_graph_calldata:
  assumes "abi_ok L" and "length recipient = 20"
    and "CreateSolveArgsSigArgsMintGraph L prog asset market outcome amount referrer recipient permit msTs = Ok m"
  shows "\<exists>oc a ref sel. strToBytes8 outcome = Ok oc \<and> parse_amount amount = Ok a \<and> strToAddr referrer = Ok ref \<and>
    strToAddr market = Ok (sa_Target (sas_Args m)) \<and> length sel = 4 \<and>
    sa_From (sas_Args m) = [\<lparr>from_Asset = asset, from_ToTake = a, from_MaxUnspent = zeros 32\<rparr>] \<and>
    sa_Cd (sas_Args m) = sel @ (oc @ zeros 24) @ a @ (zeros 12 @ ref) @ (zeros 12 @ recipient)"
proof -
  obtain oc a t ref ts p cd e out where
    f: "strToBytes8 outcome = Ok oc" "parse_amount amount = Ok a" "strToAddr market = Ok t"
      "strToAddr referrer = Ok ref"
    and cd: "NewMint L oc a ref recipient = Ok cd"
    and m: "m = \<lparr>sas_Sig = go_copy (zeros 64) out, sas_Args = token_solve (asset, t, a, cd, p, ts)\<rparr>"
    using CreateSolveArgsSigArgsMintGraph_OkD [OF assms(3)] by blast
  obtain sel where "length sel = 4"
    "cd = sel @ (oc @ zeros 24) @ a @ (zeros 12 @ ref) @ (zeros 12 @ recipient)"
    using NewMint_layout [OF assms(1) strToBytes8_length [OF f(1)] parse_amount_length [OF f(2)]
        strToAddr_length [OF f(4)] assms(2)] cd by auto
  then show ?thesis using f by (force simp: m token_solve_def)
qed

lemma CreateSolveV2_OkD:
  assumes "CreateSolveV2 L prog args p t = Ok x"
  shows "\<exists>sig. length sig = 64 \<and> x = solve_v2_args
    \<lparr>v2_Args = \<lparr>v2a_Args = args, v2a_PermitOwner = p, v2a_TransferOwner = t\<rparr>, v2_Sig = sig\<rparr>"
proof -
  from v2b.build_Ok_iff [of L prog "(args, p, t)" x] assms
  obtain out where "x = solve_v2_args \<lparr>v2_Args = \<lparr>v2a_Args = args, v2a_PermitOwner = p, v2a_TransferOwner = t\<rparr>,
      v2_Sig = go_copy (zeros 64) out\<rparr>" by auto
  then show ?thesis by (intro exI [of _ "go_copy (zeros 64) out"]) simp
qed

text \<open>A routed call for an authenticated user: the shape of the transaction it adds.\<close>

lemma routed_solve_sent:
  assumes "geth_ok L"
    and "CreateSolveV2 L prog args p t = Ok v2"
    and "SendArguments L N router True chainId key sender (GetClientAddr L factory eoa) v2 False sent = (Ok (h, gas), sent')"
  shows "\<exists>tx sig ssig b. sent' = sent @ [\<lparr>stx_Tx = tx, stx_Sig = sig\<rparr>] \<and>
    h = Tx_Hash N \<lparr>stx_Tx = tx, stx_Sig = sig\<rparr> \<and> dft_To tx = router \<and> dft_ChainID tx = chainId \<and> dft_Value tx = 0 \<and>
    dft_Data tx = zeros 12 @ GetClientAddr L factory eoa @ b \<and> length ssig = 64 \<and>
    borsh_Serialize L (VArgs (solve_v2_args \<lparr>v2_Args = \<lparr>v2a_Args = args, v2a_PermitOwner = p, v2a_TransferOwner = t\<rparr>,
      v2_Sig = ssig\<rparr>)) = Inr b"
proof -
  obtain ssig where v2: "length ssig = 64" "v2 = solve_v2_args
      \<lparr>v2_Args = \<lparr>v2a_Args = args, v2a_PermitOwner = p, v2a_TransferOwner = t\<rparr>, v2_Sig = ssig\<rparr>"
    using CreateSolveV2_OkD [OF assms(2)] by blast
  have len: "length (GetClientAddr L factory eoa) = 20" using assms(1) by (rule length_GetClientAddr)
  show ?thesis
    using SendArguments_sent [OF assms(1) len assms(3)] v2 by auto
qed

lemma lower_address: "geth_ok L \<Longrightarrow> to_lower (Address_String L (HexToAddress L s)) = addr_hex (HexToAddress L s)"
  by (simp add: geth_okD)

subsection \<open>A request that succeeds\<close>

lemma mint_graph_bw:
  assumes "abi_ok L" and "length recipient = 20"
    and "CreateSolveArgsSigArgsMintGraph L prog asset market outcome amount referrer recipient permit msTs = Ok m"
  shows "bw_SolveArgs (sas_Args m)"
proof -
  obtain oc a ref sel where "strToBytes8 outcome = Ok oc" "parse_amount amount = Ok a" "strToAddr referrer = Ok ref"
      "length sel = 4" and cd: "sa_Cd (sas_Args m) = sel @ (oc @ zeros 24) @ a @ (zeros 12 @ ref) @ (zeros 12 @ recipient)"
    using mint_graph_calldata [OF assms] by blast
  then have "length (sa_Cd (sas_Args m)) = 132"
    using assms(2) by (simp add: strToBytes8_length parse_amount_length strToAddr_length)
  moreover have "length (sa_Permit (sas_Args m)) \<le> 1" "length (sa_From (sas_Args m)) = 1"
    using CreateSolveArgsSigArgsMintGraph_OkD [OF assms(3)]
    by (elim exE conjE, simp add: token_solve_def split: option.splits)+
  ultimately show ?thesis
    using mint_graph_wf [OF assms(3)] by (simp add: bw_SolveArgs_def wf_SolveArgsSigArgs_def small_def)
qed

lemma ref_exec: "exec_Output ref_libs prog d = (replicate 64 97, None)"
  by (simp add: ref_libs_def)

lemma ref_solve_v2:
  assumes "bw_SolveArgs a" "length p = 20" "length t = 20"
  shows "\<exists>v2. CreateSolveV2 ref_libs prog [a] p t = Ok v2 \<and> bw_Args v2"
proof -
  have w: "bw_SolveV2Args \<lparr>v2a_Args = [a], v2a_PermitOwner = p, v2a_TransferOwner = t\<rparr>"
    using assms by (simp add: bw_SolveV2Args_def wf_SolveV2Args_def small_def bw_SolveArgs_def)
  then obtain e where "borsh_Serialize ref_libs (VSolveV2Args \<lparr>v2a_Args = [a], v2a_PermitOwner = p, v2a_TransferOwner = t\<rparr>) = Inr e"
    using borsh_ok_total [OF ref_borsh_ok] bw_value.simps(2) by blast
  then obtain v2 where v2: "CreateSolveV2 ref_libs prog [a] p t = Ok v2"
    using v2b.build_Ok_iff [of ref_libs prog "([a], p, t)"] ref_exec by auto
  with w show ?thesis
    using CreateSolveV2_OkD [OF v2] by (auto simp: bw_Args_def solve_v2_args_def)
qed

lemma ref_mint_graph:
  "\<exists>m. CreateSolveArgsSigArgsMintGraph ref_libs prog asset (addr_hex (replicate 20 1)) (addr_hex (replicate 8 2)) ''5'' ''''
     (replicate 20 6) None ''1'' = Ok m"
proof -
  have n: "parse_amount ''5'' = Ok (be_fixed 32 5)" "parse_msTs_front ''1'' = Ok (go_copy (zeros 16) (big_Bytes 1))"
    by (simp_all add: parse_amount_eq parse_msTs_front_eq big_SetString10_def scan_nat_def digit_val_def)
  have b: "strToBytes8 (addr_hex (replicate 8 2)) = Ok (replicate 8 2)"
    by (simp add: strToBytes8_def decode_array_Ok_iff)
  have x: "\<exists>out. exec_Output ref_libs prog d = (out, None)" for d using ref_exec by blast
  show ?thesis
    using CreateSolveArgsSigArgsMintGraph_OkI [OF ref_abi_ok ref_borsh_ok x _ b n(1)
        strToAddr_addr_hex _ n(2), of "replicate 20 6" "replicate 20 1" "''''" "zeros 20" asset None None]
    by (auto simp: strToAddr_def parse_permit_def)
qed

lemma ref_mint_ok: "\<exists>h w'. NinelivesMint ref_env ref_resolver owner_ctx ref_mint_args None ref_world = (Ok h, w')"
proof -
  obtain m where m: "CreateSolveArgsSigArgsMintGraph ref_libs ProgDalek 0 (addr_hex (replicate 20 1))
      (addr_hex (replicate 8 2)) ''5'' '''' (replicate 20 6) None ''1'' = Ok m"
    using ref_mint_graph by blast
  have "bw_SolveArgs (sas_Args m)" by (rule mint_graph_bw [OF ref_abi_ok _ m]) simp
  then obtain v2 where v2: "CreateSolveV2 ref_libs ProgDalek [sas_Args m] (replicate 20 6) (replicate 20 6) = Ok v2" "bw_Args v2"
    using ref_solve_v2 [of "sas_Args m" "replicate 20 6" "replicate 20 6" ProgDalek] by auto
  obtain t where s: "SendArguments ref_libs ref_rpc (replicate 20 3) True 55244 (replicate 32 5) (replicate 20 5)
      (GetClientAddr ref_libs (replicate 20 1) (replicate 20 6)) v2 False [] = (Ok (zeros 32, 100000 + gas_margin 100000), [t])"
    using ref_send [OF v2(2), where sent = "[]", unfolded append_Nil] by blast
  have five: "big_SetString10 ''5'' = Some 5" by (simp add: big_SetString10_def scan_nat_def digit_val_def)
  have E: "e_libs ref_env = ref_libs" "e_rpc ref_env = ref_rpc" "e_pg ref_env = ref_pg" "e_AssetUsdc ref_env = 0"
    by (simp_all add: ref_env_def)
  have W: "w_sent ref_world = []" by (simp add: ref_world_def)
  show ?thesis
    unfolding NinelivesMint_def Let_def ref_mint_args_def owner_ctx_def
    by (simp add: E five m v2 s W ref_pick bindM_def catchM_def on_db_def on_chain_def trackTx_eq
        ref_resolver_def isDryrun_def guardR_def)
qed

lemma ref_create_ok:
  "\<exists>x w'. CreateAccountExec ref_env ref_resolver anon_ctx ref_create_args None None ref_world = (Ok x, w')"
proof -
  define f where "f = \<lparr>fb_Key = replicate 32 4, fb_EoaAddr = replicate 20 6, fb_V = 28, fb_R = replicate 32 1,
    fb_S = replicate 32 2, fb_SolveArgs = [], fb_Authority = None\<rparr>"
  have f: "CreateAccountToFreshBackwardsGraph (replicate 32 4) ref_create_args = Ok f"
    by (simp add: CreateAccountToFreshBackwardsGraph_Ok_iff ref_create_args_def strToAddr_addr_hex strToBytes32_hex f_def)
  have "bw_Args (fresh_args f)"
    by (simp add: bw_Args_def fresh_args_def zero_Args_def f_def bw_FreshBackwards_def wf_FreshBackwards_def small_def)
  then obtain t where s: "SendArguments ref_libs ref_rpc (replicate 20 3) False 55244 (replicate 32 5) (replicate 20 5)
      (replicate 20 1) (fresh_args f) False [] = (Ok (zeros 32, 100000 + gas_margin 100000), [t])"
    using ref_send [where sent = "[]", unfolded append_Nil] by blast
  have E: "e_libs ref_env = ref_libs" "e_rpc ref_env = ref_rpc" "e_pg ref_env = ref_pg"
    "makeSecret ref_env = Ok (replicate 32 42)"
    by (simp_all add: ref_env_def makeSecret_def)
  have a: "IsHexAddress ref_libs (ca_EoaAddr ref_create_args)" "HexToAddress ref_libs (ca_EoaAddr ref_create_args) = replicate 20 6"
    "Address_String ref_libs (replicate 20 6) = addr_hex (replicate 20 6)"
    using geth_okD(8,9) [OF ref_geth_ok, of "replicate 20 6"] by (simp_all add: ref_libs_def ref_create_args_def)
  have i: "\<exists>d'. insert_secret ref_pg (addr_hex (replicate 20 6)) (hex_encode (replicate 32 42)) d = (Ok (), d')" for d
    by (simp add: insert_secret_eq ref_pg_def del: hex_encode_Cons)
  have W: "w_sent ref_world = []" by (simp add: ref_world_def)
  show ?thesis
    unfolding CreateAccountExec_def Let_def fresh_args_def [symmetric]
    using i [of "(w_db ref_world)\<lparr>accounts_sender_keys_1 :=
       [\<lparr>key_id = 1, private_key = hex_encode (replicate 32 5), last_accessed = SqlTime 1000\<rparr>]\<rparr>"]
    by (auto simp: E a f s W ref_pick bindM_def catchM_def on_db_def on_chain_def trackTx_eq
        ref_resolver_def isDryrun_def guardR_def simp del: hex_encode_Cons)
qed

lemma count_accounts_secret: "0 < count_secret d a x \<Longrightarrow> 0 < count_accounts d a"
  by (auto simp: count_secret_def count_accounts_def filter_empty_conv)

lemma insert_tx_secrets: "accounts_secrets_2 (snd (insert_tx E a h gas desc d)) = accounts_secrets_2 d"
  by (cases "insert_tx E a h gas desc d") (auto dest: insert_tx_effect)

lemma HasCreated_eq:
  "pg_fault (e_pg E) (CountAccounts (to_lower s)) = None \<Longrightarrow>
     HasCreated E s w = (Ok (0 < count_accounts (w_db w) (to_lower s)), w)"
  by (simp add: HasCreated_def wrapM_def bindM_def catchM_def on_db_def exec_stmt_def)

lemma fresh_graph_fields:
  assumes "CreateAccountToFreshBackwardsGraph key ca = Ok f"
    and "case mint of None \<Rightarrow> g = f
      | Some m \<Rightarrow> TagFreshBackwardsWithMintGraph L prog f asset (mint_Market m) (mint_Outcome m) (mint_Amount m)
          (mint_Referrer m) eoa (mint_Permit m) (mint_MsTs m) = Ok g"
  shows "fb_Key g = key \<and> strToAddr (ca_EoaAddr ca) = Ok (fb_EoaAddr g) \<and> length (fb_SolveArgs g) = (if mint = None then 0 else 1)"
  using assms
  by (cases mint) (auto simp: CreateAccountToFreshBackwardsGraph_Ok_iff TagFreshBackwardsWithMintGraph_def append_solve_Ok_iff)

lemma scan_all_Ok_iff:
  "scan_all avg rows = Ok ms \<longleftrightarrow>
     fresh_rows rows \<and>
     ms = map (\<lambda>(a, day, week, all). \<lparr>stats_Action = a, stats_AvgGasLimit24Hours = avg day, stats_AvgGasLimitWeek = avg week,
        stats_AvgGasLimitAllTime = avg all, stats_Tx24Hours = of_nat (length day),
        stats_TxWeek = of_nat (length week), stats_TxAllTime = of_nat (length all)\<rparr>) rows"
  by (induction rows arbitrary: ms) (auto simp: scan_statistics_def fresh_rows_def bindR_Ok_iff split: if_splits)

lemma scan_all_not_Ok:
  "\<not> fresh_rows rows \<Longrightarrow>
     scan_all avg rows = Err ''failed to scan statistics''"
  by (induction rows) (auto simp: scan_statistics_def fresh_rows_def split: prod.splits)

lemma Statistics_eq:
  assumes "pg_fault (e_pg E) SelectStatistics = None"
  shows "Statistics avg E w = (scan_all avg (case pg_rows (e_pg E) of
      None \<Rightarrow> accounts_transaction_statistics_1 (e_pg E) (w_db w)
    | Some n \<Rightarrow> take n (accounts_transaction_statistics_1 (e_pg E) (w_db w))), w)"
  using assms by (simp add: Statistics_def bindM_def catchM_def on_db_def exec_stmt_def liftR_def)

lemma fresh_rows_view:
  assumes "pg_ok P"
  shows "fresh_rows (accounts_transaction_statistics_1 P d) \<longleftrightarrow>
    (\<forall>t\<in>set (accounts_executed_transactions_2 d). \<exists>u\<in>set (accounts_executed_transactions_2 d).
       tx_desc u = tx_desc t \<and> pg_now P \<le> tx_created_at u + 86400)"
proof -
  have g: "set (pg_groups P (remdups xs)) = set xs" for xs
    using assms by (metis pg_ok_def set_mset_mset set_remdups)
  have day: "recent_gas P 86400 rows \<noteq> [] \<and> recent_gas P 604800 rows \<noteq> [] \<and> rows \<noteq> [] \<longleftrightarrow>
      (\<exists>u\<in>set rows. pg_now P \<le> tx_created_at u + 86400)" for rows
    by (fastforce simp: recent_gas_def filter_empty_conv)
  show ?thesis
    unfolding fresh_rows_def accounts_transaction_statistics_1_def Let_def list_all_iff
    by (auto simp: g day)
qed

section \<open>Properties\<close>

text \<open>
  C6. A mint acts only for the authenticated owner: when it succeeds for real, the request
  was authenticated, its amount is at least the configured minimum, and the one transaction
  sent goes to the safety router for the account derived from the owner's address, carrying
  a solve whose permit and transfer owner are that address, that takes the requested amount
  and mints the requested outcome for that amount to that address.
\<close>

theorem mint_acts_for_owner:
  assumes "geth_ok (e_libs E)" and "abi_ok (e_libs E)" and "ctx_eoa c = Some eoa" "length eoa = 20"
    and "NinelivesMint E R c mint dry w = (Ok h, w')" and "\<not> isDryrun dry"
  shows "ctx_authed c = Some True \<and>
    (\<exists>amt. big_SetString10 (mint_Amount mint) = Some amt \<and> r_MinimumAmount R \<le> amt) \<and>
    (\<exists>tx sig ssig b m oc a ref sel.
      w_sent w' = w_sent w @ [\<lparr>stx_Tx = tx, stx_Sig = sig\<rparr>] \<and>
      h = addr_hex (Tx_Hash (e_rpc E) \<lparr>stx_Tx = tx, stx_Sig = sig\<rparr>) \<and>
      dft_To tx = r_SafetyRouterAddr R \<and> dft_ChainID tx = r_ChainId R \<and> dft_Value tx = 0 \<and>
      dft_Data tx = zeros 12 @ GetClientAddr (e_libs E) (r_AccountsFactoryAddr R) eoa @ b \<and>
      borsh_Serialize (e_libs E) (VArgs (solve_v2_args \<lparr>v2_Args = \<lparr>v2a_Args = [m], v2a_PermitOwner = eoa,
        v2a_TransferOwner = eoa\<rparr>, v2_Sig = ssig\<rparr>)) = Inr b \<and>
      parse_amount (mint_Amount mint) = Ok a \<and> strToBytes8 (mint_Outcome mint) = Ok oc \<and>
      strToAddr (mint_Market mint) = Ok (sa_Target m) \<and>
      sa_From m = [\<lparr>from_Asset = e_AssetUsdc E, from_ToTake = a, from_MaxUnspent = zeros 32\<rparr>] \<and>
      sa_Cd m = sel @ (oc @ zeros 24) @ a @ (zeros 12 @ ref) @ (zeros 12 @ eoa))"
proof -
  obtain amt key sender d f v2 hash gas sent where
    a: "big_SetString10 (mint_Amount mint) = Some amt" "r_MinimumAmount R \<le> amt" "ctx_authed c = Some True"
    and f: "CreateSolveArgsSigArgsMintGraph (e_libs E) ProgDalek (e_AssetUsdc E) (mint_Market mint) (mint_Outcome mint)
       (mint_Amount mint) (mint_Referrer mint) eoa (mint_Permit mint) (mint_MsTs mint) = Ok f"
    and v2: "CreateSolveV2 (e_libs E) ProgDalek [sas_Args f] eoa eoa = Ok v2"
    and s: "SendArguments (e_libs E) (e_rpc E) (r_SafetyRouterAddr R) True (r_ChainId R) key sender
       (GetClientAddr (e_libs E) (r_AccountsFactoryAddr R) eoa) v2 False (w_sent w) = (Ok (hash, gas), sent)"
    and h: "h = addr_hex hash" "w_sent w' = sent"
    using NinelivesMint_OkD [OF assms(5)] assms(3,6) by auto
  obtain tx sig ssig b where A: "sent = w_sent w @ [\<lparr>stx_Tx = tx, stx_Sig = sig\<rparr>]"
      "hash = Tx_Hash (e_rpc E) \<lparr>stx_Tx = tx, stx_Sig = sig\<rparr>" "dft_To tx = r_SafetyRouterAddr R"
      "dft_ChainID tx = r_ChainId R" "dft_Value tx = 0"
      "dft_Data tx = zeros 12 @ GetClientAddr (e_libs E) (r_AccountsFactoryAddr R) eoa @ b"
      "borsh_Serialize (e_libs E) (VArgs (solve_v2_args \<lparr>v2_Args = \<lparr>v2a_Args = [sas_Args f], v2a_PermitOwner = eoa,
        v2a_TransferOwner = eoa\<rparr>, v2_Sig = ssig\<rparr>)) = Inr b"
    using routed_solve_sent [OF assms(1) v2 s] by blast
  obtain oc a' ref sel where B: "strToBytes8 (mint_Outcome mint) = Ok oc" "parse_amount (mint_Amount mint) = Ok a'"
      "strToAddr (mint_Market mint) = Ok (sa_Target (sas_Args f))"
      "sa_From (sas_Args f) = [\<lparr>from_Asset = e_AssetUsdc E, from_ToTake = a', from_MaxUnspent = zeros 32\<rparr>]"
      "sa_Cd (sas_Args f) = sel @ (oc @ zeros 24) @ a' @ (zeros 12 @ ref) @ (zeros 12 @ eoa)"
    using mint_graph_calldata [OF assms(2,4) f] by blast
  have "\<exists>amt. big_SetString10 (mint_Amount mint) = Some amt \<and> r_MinimumAmount R \<le> amt" using a by blast
  moreover have "w_sent w' = w_sent w @ [\<lparr>stx_Tx = tx, stx_Sig = sig\<rparr>]"
    "h = addr_hex (Tx_Hash (e_rpc E) \<lparr>stx_Tx = tx, stx_Sig = sig\<rparr>)"
    using h A(1,2) by simp_all
  ultimately show ?thesis using a(3) A(3-) B by blast
qed

theorem mint_acts_for_owner_witness:
  "\<exists>h w'. NinelivesMint ref_env ref_resolver owner_ctx ref_mint_args None ref_world = (Ok h, w') \<and>
     (\<exists>tx sig. w_sent w' = [\<lparr>stx_Tx = tx, stx_Sig = sig\<rparr>] \<and> dft_To tx = replicate 20 3)"
proof -
  obtain h w' where r: "NinelivesMint ref_env ref_resolver owner_ctx ref_mint_args None ref_world = (Ok h, w')"
    using ref_mint_ok by blast
  have "geth_ok (e_libs ref_env)" "abi_ok (e_libs ref_env)" "ctx_eoa owner_ctx = Some (replicate 20 6)"
    "\<not> isDryrun None" "w_sent ref_world = []" "r_SafetyRouterAddr ref_resolver = replicate 20 3"
    by (simp_all add: ref_env_def ref_geth_ok ref_abi_ok owner_ctx_def isDryrun_def ref_world_def ref_resolver_def)
  with mint_acts_for_owner [OF this(1-3) _ r] r show ?thesis by fastforce
qed

text \<open>
  Without the middleware's authentication, or without an address in the context,
  minting and claiming fail and leave the tables, the chain and the alarms exactly as they
  were, for every configuration and every request.
\<close>

theorem authentication_required:
  assumes "ctx_authed c \<noteq> Some True \<or> ctx_eoa c = None"
  shows "(\<exists>r. NinelivesMint E R c mint dry w = (r, w) \<and> \<not> is_ok r) \<and>
    (\<exists>r. ClaimRewards E R c markets msTs dry w = (r, w) \<and> \<not> is_ok r)"
  using mint_unauthed [OF assms] claim_unauthed [OF assms] by blast

theorem authentication_required_witness:
  "\<exists>r. NinelivesMint ref_env ref_resolver anon_ctx ref_mint_args None ref_world = (r, ref_world) \<and> \<not> is_ok r"
  using authentication_required [of anon_ctx] by (simp add: anon_ctx_def)

text \<open>
  A real request whose nonce is taken for the address it names fails, whatever its signature.
\<close>

lemma request_secret_taken:
  assumes "geth_ok (e_libs E)" and "\<not> isDryrun dry" and "(addr_hex (HexToAddress (e_libs E) eoaAddr), nonce) \<in> nonces_of (w_db w)"
  shows "\<not> is_ok (fst (RequestSecret E R c eoaAddr nonce sigV sigR sigS dry w))"
proof
  assume "is_ok (fst (RequestSecret E R c eoaAddr nonce sigV sigR sigS dry w))"
  then obtain y v where "RequestSecret E R c eoaAddr nonce sigV sigR sigS dry w = (Ok y, v)"
    by (metis is_ok_iff prod.collapse)
  then obtain sec d where
    "accounts_insert_nonce_secret_3 (e_pg E) (addr_hex (HexToAddress (e_libs E) eoaAddr)) (hex_encode sec) nonce (w_db w) = (Ok (), d)"
    using RequestSecret_OkD assms(2) lower_address [OF assms(1), of eoaAddr] by metis
  from nonces.uses_unused [OF step_nonce [OF this]] assms(3) show False by simp
qed

text \<open>
  C10. A secret is given out only against a signature: whenever \<^verbatim>\<open>RequestSecret\<close> succeeds, in a
  dry run too, the signature recovers the requested address from the digest of the server's
  public key and the nonce, and the answer is the hexadecimal form of 32 bytes. A dry run
  changes nothing, so that what it returns opens no door. Otherwise the nonce was unused for the
  address and is used afterwards, the returned secret is accepted for the address, and no later
  request for the address with the same nonce succeeds, whatever its signature, unless as a dry
  run. The comment of the schema asks for more, a nonce above the recorded ones and the secret of
  before; nothing here depends on either.
\<close>

theorem request_secret_sound:
  assumes "geth_ok (e_libs E)" and "RequestSecret E R c eoaAddr nonce sigV sigR sigS dry w = (Ok x, w')"
  shows "(\<exists>r s pub b. hex_decode_string sigR = Ok r \<and> hex_decode_string sigS = Ok s \<and>
      SigToPub (e_libs E) (Keccak256 (e_libs E) (request_preimage (r_AccPubKey R) nonce)) (request_sig r s sigV) = Inr pub \<and>
      PubkeyToAddress (e_libs E) pub = HexToAddress (e_libs E) eoaAddr \<and> length b = 32 \<and> x = hex_encode b) \<and>
    (if isDryrun dry then w' = w
     else (addr_hex (HexToAddress (e_libs E) eoaAddr), nonce) \<notin> nonces_of (w_db w) \<and>
       (addr_hex (HexToAddress (e_libs E) eoaAddr), nonce) \<in> nonces_of (w_db w') \<and>
       0 < count_secret (w_db w') (addr_hex (HexToAddress (e_libs E) eoaAddr)) x \<and>
       (\<forall>evs w'' E' R' c' again sigV' sigR' sigS' dry'.
          trace db_step (w_db w') evs (w_db w'') \<longrightarrow> e_libs E' = e_libs E \<longrightarrow> \<not> isDryrun dry' \<longrightarrow>
          HexToAddress (e_libs E) again = HexToAddress (e_libs E) eoaAddr \<longrightarrow>
          \<not> is_ok (fst (RequestSecret E' R' c' again nonce sigV' sigR' sigS' dry' w''))))"
proof -
  let ?a = "addr_hex (HexToAddress (e_libs E) eoaAddr)"
  obtain r s pub b where
    sig: "hex_decode_string sigR = Ok r" "hex_decode_string sigS = Ok s"
      "SigToPub (e_libs E) (Keccak256 (e_libs E) (request_preimage (r_AccPubKey R) nonce)) (request_sig r s sigV) = Inr pub"
      "PubkeyToAddress (e_libs E) pub = HexToAddress (e_libs E) eoaAddr" "length b = 32" "x = hex_encode b"
    and ins: "if isDryrun dry then w' = w else \<exists>d. accounts_insert_nonce_secret_3 (e_pg E) ?a x nonce (w_db w) = (Ok (), d) \<and> w' = w\<lparr>w_db := d\<rparr>"
    using RequestSecret_OkD [OF assms(2)] lower_address [OF assms(1), of eoaAddr] by metis
  have "(?a, nonce) \<notin> nonces_of (w_db w) \<and> (?a, nonce) \<in> nonces_of (w_db w') \<and> 0 < count_secret (w_db w') ?a x \<and>
      (\<forall>evs w'' E' R' c' again sigV' sigR' sigS' dry'.
        trace db_step (w_db w') evs (w_db w'') \<longrightarrow> e_libs E' = e_libs E \<longrightarrow> \<not> isDryrun dry' \<longrightarrow>
        HexToAddress (e_libs E) again = HexToAddress (e_libs E) eoaAddr \<longrightarrow>
        \<not> is_ok (fst (RequestSecret E' R' c' again nonce sigV' sigR' sigS' dry' w'')))" if "\<not> isDryrun dry"
  proof -
    have step: "db_step (w_db w) (Issued ?a x (Some nonce)) (w_db w')"
      using step_nonce ins that sig(6) by fastforce
    have used: "(?a, nonce) \<in> nonces_of (w_db w')" using nonces.used_step [OF step] by simp
    have "(?a, nonce) \<in> nonces_of d" if "trace db_step (w_db w') evs d" for evs d
      using nonces.uses_once [OF that] used by blast
    then have "\<not> is_ok (fst (RequestSecret E' R' c' again nonce sigV' sigR' sigS' dry' w''))"
      if "trace db_step (w_db w') evs (w_db w'')" "e_libs E' = e_libs E" "\<not> isDryrun dry'"
        "HexToAddress (e_libs E) again = HexToAddress (e_libs E) eoaAddr" for evs w'' E' R' c' again sigV' sigR' sigS' dry'
      by (intro request_secret_taken) (use assms(1) that in auto)
    then show ?thesis
      using nonces.uses_unused [OF step] used secrets.accepts_step [OF step, of ?a x] sig(6) by (simp add: count_secret_pos)
  qed
  with sig ins show ?thesis by auto
qed

theorem request_secret_sound_witness:
  "\<exists>x w'. RequestSecret ref_env ref_resolver anon_ctx (addr_hex (replicate 20 6)) 7 27
       (hex_encode (replicate 32 6)) (hex_encode [1]) None ref_world = (Ok x, w') \<and>
     0 < count_secret (w_db w') (addr_hex (replicate 20 6)) x \<and>
     \<not> is_ok (fst (RequestSecret ref_env ref_resolver anon_ctx (addr_hex (replicate 20 6)) 7 27
       (hex_encode (replicate 32 6)) (hex_encode [1]) None w'))"
proof -
  have h: "hex_decode_string (hex_encode (replicate 32 6)) = Ok (replicate 32 (6 :: byte))"
    "hex_decode_string (hex_encode [1]) = Ok [1 :: byte]" by (rule hex_decode_string_encode)+
  have a: "IsHexAddress ref_libs (addr_hex (replicate 20 6))" "HexToAddress ref_libs (addr_hex (replicate 20 6)) = replicate 20 6"
    "Address_String ref_libs (replicate 20 6) = addr_hex (replicate 20 6)"
    using geth_okD(8,9) [OF ref_geth_ok, of "replicate 20 6"] by (simp_all add: ref_libs_def)
  have k: "SigToPub ref_libs d (request_sig (replicate 32 6) [1] 27) = Inr (replicate 32 6)" for d
    by (simp add: request_sig_def ref_libs_def)
  have p: "PubkeyToAddress ref_libs (replicate 32 6) = replicate 20 (6 :: byte)"
    by (simp add: ref_libs_def ref_crop_def zeros_def)
  have E: "e_libs ref_env = ref_libs" "e_pg ref_env = ref_pg" "makeSecret ref_env = Ok (replicate 32 42)"
    by (simp_all add: ref_env_def makeSecret_def)
  have n: "\<exists>d. accounts_insert_nonce_secret_3 ref_pg (addr_hex (replicate 20 6)) (hex_encode (replicate 32 42)) 7
      (w_db ref_world) = (Ok (), d)"
    by (simp add: nonce_secret_eq ref_pg_def nonce_used_def ref_world_def empty_db_def del: hex_encode_Cons)
  then obtain w' where r: "RequestSecret ref_env ref_resolver anon_ctx (addr_hex (replicate 20 6)) 7 27
       (hex_encode (replicate 32 6)) (hex_encode [1]) None ref_world = (Ok (hex_encode (replicate 32 42)), w')"
    unfolding RequestSecret_def Let_def
    by (auto simp: h a k p E bindM_def catchM_def on_db_def ref_resolver_def isDryrun_def guardR_def exceeds_u8_def
        secpMaxS_def be_value_def simp del: hex_encode_Cons)
  have g: "geth_ok (e_libs ref_env)" "\<not> isDryrun None" by (simp_all add: E ref_geth_ok isDryrun_def)
  note sound = request_secret_sound [OF g(1) r, unfolded if_not_P [OF g(2)], THEN conjunct2]
  from r sound [THEN conjunct2, THEN conjunct2, THEN conjunct1]
    sound [THEN conjunct2, THEN conjunct2, THEN conjunct2, rule_format, OF trace_refl refl g(2) refl]
  show ?thesis unfolding E a(2) by blast
qed

text \<open>
  The bound on \<^verbatim>\<open>s\<close> is half the order of the curve, but it is checked on the number the
  decoded bytes spell and the signature takes them left-aligned: on fewer than 32 bytes the
  \<^verbatim>\<open>s\<close> that is verified is a power of 256 larger than the one that was checked, so that
  values above the bound pass. With all 32 bytes the two agree.
\<close>

theorem malleability_check:
  assumes "length s \<le> 32"
  shows "2 * secpMaxS + 1 = 115792089237316195423570985008687907852837564279074904382605163141518161494337 \<and>
    length (request_sig r s v) = 65 \<and>
    be_value (take 32 (drop 32 (request_sig r s v))) = be_value s * 256 ^ (32 - length s) \<and>
    (length s = 32 \<longrightarrow> be_value (take 32 (drop 32 (request_sig r s v))) = be_value s) \<and>
    (\<exists>t. int (be_value t) \<le> secpMaxS \<and> secpMaxS < int (be_value (take 32 (drop 32 (request_sig r t v)))))"
proof -
  have mid: "take 32 (drop 32 (request_sig r t v)) = go_copy (zeros 32) t" for t
    by (simp add: request_sig_def Let_def)
  have val: "be_value (go_copy (zeros 32) t) = be_value t * 256 ^ (32 - length t)" if "length t \<le> 32" for t
  proof -
    have "go_copy (zeros 32) t = t @ zeros (32 - length t)" using that by (simp add: go_copy_def zeros_def)
    then show ?thesis by (simp add: be_value_append)
  qed
  have "int (be_value [255]) \<le> secpMaxS \<and> secpMaxS < int (be_value (take 32 (drop 32 (request_sig r [255] v))))"
    unfolding mid by (subst val) (simp_all add: be_value_def secpMaxS_def)
  then show ?thesis
    using val [OF assms] by (auto simp: mid secpMaxS_def request_sig_def Let_def)
qed

theorem malleability_check_witness:
  "be_value (take 32 (drop 32 (request_sig [] [1] 0))) = 256 ^ 31"
  using malleability_check [of "[1]" "[]" 0] by (simp add: be_value_def)

text \<open>
  The amount of a mint is examined before the caller is: with minting enabled, an amount
  that is no decimal number makes the handler panic on a nil integer, authenticated or not,
  and one below the minimum is refused with that minimum's error; neither changes anything.
\<close>

theorem mint_amount_gate:
  assumes "\<not> r_FeatureMintDisabled R"
  shows "(big_SetString10 (mint_Amount mint) = None \<longrightarrow>
      NinelivesMint E R c mint dry w = (Panic nil_panic, w)) \<and>
    (\<forall>amt. big_SetString10 (mint_Amount mint) = Some amt \<longrightarrow> amt < r_MinimumAmount R \<longrightarrow>
      NinelivesMint E R c mint dry w = (Err (''below the minimum amount ('' @ dec_int amt @ '')''), w))"
  using assms
  by (simp_all add: NinelivesMint_def Let_def bindM_def guardR_def)

theorem mint_amount_gate_witness:
  "NinelivesMint ref_env ref_resolver anon_ctx (ref_mint_args\<lparr>mint_Amount := ''ten''\<rparr>) None ref_world =
     (Panic nil_panic, ref_world)"
proof -
  have "\<not> r_FeatureMintDisabled ref_resolver" by (simp add: ref_resolver_def)
  from mint_amount_gate [OF this, where E = ref_env and c = anon_ctx and mint = "ref_mint_args\<lparr>mint_Amount := ''ten''\<rparr>"] show ?thesis
    by (simp add: ref_mint_args_def big_SetString10_def scan_nat_def digit_val_def)
qed

text \<open>
  No claim with a real timestamp goes through: for an authenticated caller with claiming
  enabled and a sender key at hand, a timestamp below \<^verbatim>\<open>2^120\<close> makes the handler panic,
  after it has used up the turn of the key and before it sends anything.
\<close>

theorem claim_timestamp_panics:
  assumes "big_SetString10 msTs = Some i" "nat \<bar>i\<bar> < 2 ^ 120"
    and "\<not> r_FeatureClaimDisabled R" "ctx_authed c = Some True" "ctx_eoa c = Some eoa"
    and "PickPrivateKey (e_libs E) (e_pg E) (w_db w) = (Ok k, d)"
  shows "ClaimRewards E R c markets msTs dry w = (Panic ''slice bounds out of range'', w\<lparr>w_db := d\<rparr>)"
proof -
  have "nat \<bar>i\<bar> < 256 ^ 15" using assms(2) by simp
  then have "parse_msTs_padded msTs = Panic ''slice bounds out of range''"
    using assms(1) unfolding parse_msTs_padded_eq by simp
  then have "CreatePayoffForOtherArgsGraph L prog helper eoa markets msTs = Panic ''slice bounds out of range''"
    for L prog helper by (simp add: CreatePayoffForOtherArgsGraph_def)
  then show ?thesis
    using assms(3-)
    by (simp add: ClaimRewards_def Let_def bindM_def catchM_def on_db_def guardR_def split: prod.splits)
qed

theorem claim_timestamp_panics_witness:
  "fst (ClaimRewards ref_env ref_resolver owner_ctx [] ''1731628800000'' None ref_world) =
     Panic ''slice bounds out of range''"
proof -
  have t: "big_SetString10 ''1731628800000'' = Some 1731628800000"
    by (simp add: big_SetString10_def scan_nat_def digit_val_def)
  have c: "\<not> r_FeatureClaimDisabled ref_resolver" "ctx_authed owner_ctx = Some True"
    "ctx_eoa owner_ctx = Some (replicate 20 6)"
    by (simp_all add: ref_resolver_def owner_ctx_def)
  have "PickPrivateKey (e_libs ref_env) (e_pg ref_env) (w_db ref_world) = (Ok (replicate 32 5, replicate 20 5),
     (w_db ref_world)\<lparr>accounts_sender_keys_1 :=
       [\<lparr>key_id = 1, private_key = hex_encode (replicate 32 5), last_accessed = SqlTime 1000\<rparr>]\<rparr>)"
    using ref_pick by (simp add: ref_env_def)
  from claim_timestamp_panics [OF t _ c this] show ?thesis by simp
qed

text \<open>
  C25. Creating an account for real sends one transaction, straight to the factory, with a
  fresh account for the requested address under the server's key, and at most one solve; the
  returned secret is accepted for the address afterwards, and \<^verbatim>\<open>HasCreated\<close> answers yes for
  the address in whatever letter case it is asked.
\<close>

theorem create_account_effects:
  assumes "geth_ok (e_libs E)" and "length (r_AccountsFactoryAddr R) = 20" and "\<not> isDryrun dry"
    and "CreateAccountExec E R c ca mint dry w = (Ok x, w')"
    and "to_lower spelled = addr_hex (HexToAddress (e_libs E) (ca_EoaAddr ca))"
    and "pg_fault (e_pg E') (CountAccounts (to_lower spelled)) = None"
  shows "(\<exists>g tx sig b. w_sent w' = w_sent w @ [\<lparr>stx_Tx = tx, stx_Sig = sig\<rparr>] \<and>
      cae_Hash x = addr_hex (Tx_Hash (e_rpc E) \<lparr>stx_Tx = tx, stx_Sig = sig\<rparr>) \<and>
      dft_To tx = r_AccountsFactoryAddr R \<and> dft_Data tx = b \<and>
      borsh_Serialize (e_libs E) (VArgs (fresh_args g)) = Inr b \<and> fb_Key g = r_AccPubKey R \<and>
      strToAddr (ca_EoaAddr ca) = Ok (fb_EoaAddr g) \<and> length (fb_SolveArgs g) = (if mint = None then 0 else 1)) \<and>
    0 < count_secret (w_db w') (addr_hex (HexToAddress (e_libs E) (ca_EoaAddr ca))) (cae_Secret x) \<and>
    HasCreated E' spelled w' = (Ok True, w')"
proof -
  let ?a = "addr_hex (HexToAddress (e_libs E) (ca_EoaAddr ca))"
  obtain f key sender d g hash gas sent secret d' where
    f: "CreateAccountToFreshBackwardsGraph (r_AccPubKey R) ca = Ok f"
      "case mint of None \<Rightarrow> g = f
       | Some m \<Rightarrow> TagFreshBackwardsWithMintGraph (e_libs E) ProgDalek f (e_AssetUsdc E) (mint_Market m)
          (mint_Outcome m) (mint_Amount m) (mint_Referrer m) (HexToAddress (e_libs E) (ca_EoaAddr ca))
          (mint_Permit m) (mint_MsTs m) = Ok g"
    and s: "SendArguments (e_libs E) (e_rpc E) (r_SafetyRouterAddr R) False (r_ChainId R) key sender
       (r_AccountsFactoryAddr R) (fresh_args g) False (w_sent w) = (Ok (hash, gas), sent)"
    and x: "x = \<lparr>cae_Hash = addr_hex hash, cae_Secret = hex_encode secret\<rparr>" "w_sent w' = sent"
    and ins: "insert_secret (e_pg E) ?a (hex_encode secret) d = (Ok (), d')"
      "w_db w' = snd (insert_tx (e_pg E) ?a (addr_hex hash) gas ''create account'' d')"
    using CreateAccountExec_OkD [OF assms(4)] assms(3) lower_address [OF assms(1), of "ca_EoaAddr ca"] by auto
  obtain b tx sig where tx: "borsh_Serialize (e_libs E) (VArgs (fresh_args g)) = Inr b"
      "sent = w_sent w @ [\<lparr>stx_Tx = tx, stx_Sig = sig\<rparr>]" "hash = Tx_Hash (e_rpc E) \<lparr>stx_Tx = tx, stx_Sig = sig\<rparr>"
      "dft_To tx = r_AccountsFactoryAddr R" "dft_Data tx = b"
    using SendArguments_sent [OF assms(1,2) s] by auto
  have step: "db_step d (Issued ?a (hex_encode secret) None) d'"
    using step_secret [OF ins(1)] by simp
  have "accounts_secrets_2 (w_db w') = accounts_secrets_2 d'"
    unfolding ins(2) by (rule insert_tx_secrets)
  then have "accepts_row (w_db w') ?a (hex_encode secret)"
    using secrets.accepts_step [OF step, of ?a "hex_encode secret"] by (simp add: accepts_row_def)
  then have acc: "0 < count_secret (w_db w') ?a (cae_Secret x)"
    by (simp add: count_secret_pos x)
  have "HasCreated E' spelled w' = (Ok True, w')"
    using HasCreated_eq [OF assms(6), of w'] count_accounts_secret [OF acc] assms(5) by simp
  moreover have "w_sent w' = w_sent w @ [\<lparr>stx_Tx = tx, stx_Sig = sig\<rparr>]"
    "cae_Hash x = addr_hex (Tx_Hash (e_rpc E) \<lparr>stx_Tx = tx, stx_Sig = sig\<rparr>)"
    using x tx by simp_all
  ultimately show ?thesis using acc tx(1,4,5) fresh_graph_fields [OF f] by blast
qed

theorem create_account_effects_witness:
  "\<exists>x w'. CreateAccountExec ref_env ref_resolver anon_ctx ref_create_args None None ref_world = (Ok x, w') \<and>
     0 < count_secret (w_db w') (addr_hex (replicate 20 6)) (cae_Secret x) \<and>
     HasCreated ref_env (addr_hex (replicate 20 6)) w' = (Ok True, w')"
proof -
  obtain x w' where r: "CreateAccountExec ref_env ref_resolver anon_ctx ref_create_args None None ref_world = (Ok x, w')"
    using ref_create_ok by blast
  have "geth_ok (e_libs ref_env)" "length (r_AccountsFactoryAddr ref_resolver) = 20" "\<not> isDryrun None"
    "HexToAddress (e_libs ref_env) (ca_EoaAddr ref_create_args) = replicate 20 6"
    using geth_okD(9) [OF ref_geth_ok, of "replicate 20 6"]
    by (simp_all add: ref_env_def ref_geth_ok isDryrun_def ref_resolver_def ref_create_args_def)
  with create_account_effects [OF this(1-3) r, of "addr_hex (replicate 20 6)" ref_env] r show ?thesis
    by (auto simp: ref_env_def ref_pg_def simp del: hex_encode_Cons)
qed

text \<open>
  C40. The statistics fail as soon as one action was ever recorded and not within the last
  day, since the average of no transaction cannot be read; otherwise, over a healthy
  connection, they list every recorded action once, with the average gas limit and the number
  of its transactions of the last day, of the last seven days and of all time. The query
  changes nothing.
\<close>

theorem statistics_exact:
  assumes "pg_ok (e_pg E)" and "pg_fault (e_pg E) SelectStatistics = None" and "pg_rows (e_pg E) = None"
    and "txs = accounts_executed_transactions_2 (w_db w)"
  shows "snd (Statistics avg E w) = w \<and>
    (if \<forall>t\<in>set txs. \<exists>u\<in>set txs. tx_desc u = tx_desc t \<and> pg_now (e_pg E) \<le> tx_created_at u + 24 * 60 * 60
     then \<exists>actions. mset actions = mset (remdups (map tx_desc txs)) \<and>
       fst (Statistics avg E w) = Ok (map (action_statistics avg (pg_now (e_pg E)) txs) actions)
     else fst (Statistics avg E w) = Err ''failed to scan statistics'')"
proof -
  let ?rows = "accounts_transaction_statistics_1 (e_pg E) (w_db w)"
  let ?actions = "pg_groups (e_pg E) (remdups (map tx_desc txs))"
  have eq: "Statistics avg E w = (scan_all avg ?rows, w)"
    using Statistics_eq [OF assms(2), of avg w] assms(3) by simp
  have "scan_all avg ?rows = Ok (map (action_statistics avg (pg_now (e_pg E)) txs) ?actions)" if "fresh_rows ?rows"
    using that unfolding scan_all_Ok_iff
    by (simp add: accounts_transaction_statistics_1_def action_statistics_def since_def recent_gas_def Let_def assms(4))
  moreover have "mset ?actions = mset (remdups (map tx_desc txs))" using assms(1) by (simp add: pg_ok_def)
  moreover have "fresh_rows ?rows \<longleftrightarrow>
      (\<forall>t\<in>set txs. \<exists>u\<in>set txs. tx_desc u = tx_desc t \<and> pg_now (e_pg E) \<le> tx_created_at u + 24 * 60 * 60)"
    using fresh_rows_view [OF assms(1), of "w_db w"] assms(4) by simp
  ultimately show ?thesis
    unfolding eq using scan_all_not_Ok [of ?rows avg] by (cases "fresh_rows ?rows") auto
qed

theorem statistics_exact_witness:
  "fst (Statistics sum_list (ref_env\<lparr>e_pg := ref_pg\<lparr>pg_now := 1000000\<rparr>\<rparr>) (ref_world\<lparr>w_db := empty_db\<lparr>
        accounts_executed_transactions_2 := [ref_tx 999000 7 ''mint'', ref_tx 500000 2 ''mint'', ref_tx 5 1 ''mint'']\<rparr>\<rparr>)) =
      Ok [\<lparr>stats_Action = ''mint'', stats_AvgGasLimit24Hours = 7, stats_AvgGasLimitWeek = 9, stats_AvgGasLimitAllTime = 10,
           stats_Tx24Hours = 1, stats_TxWeek = 2, stats_TxAllTime = 3\<rparr>] \<and>
    fst (Statistics sum_list (ref_env\<lparr>e_pg := ref_pg\<lparr>pg_now := 1000000\<rparr>\<rparr>) (ref_world\<lparr>w_db := empty_db\<lparr>
        accounts_executed_transactions_2 := [ref_tx 999000 7 ''mint'', ref_tx 5 9 ''claim'']\<rparr>\<rparr>)) = Err ''failed to scan statistics''"
proof -
  let ?E = "ref_env\<lparr>e_pg := ref_pg\<lparr>pg_now := 1000000\<rparr>\<rparr>"
  let ?w = "\<lambda>txs. ref_world\<lparr>w_db := empty_db\<lparr>accounts_executed_transactions_2 := txs\<rparr>\<rparr>"
  have E: "pg_ok (e_pg ?E)" "pg_fault (e_pg ?E) SelectStatistics = None" "pg_rows (e_pg ?E) = None"
    by (simp_all add: pg_ok_def ref_pg_def)
  note exact = statistics_exact [OF E, of _ "?w _" sum_list]
  have "\<exists>actions. mset actions = {#''mint''#} \<and> fst (Statistics sum_list ?E (?w [ref_tx 999000 7 ''mint'', ref_tx 500000 2 ''mint'', ref_tx 5 1 ''mint''])) =
      Ok (map (action_statistics sum_list 1000000 [ref_tx 999000 7 ''mint'', ref_tx 500000 2 ''mint'', ref_tx 5 1 ''mint'']) actions)"
    using exact [of "[ref_tx 999000 7 ''mint'', ref_tx 500000 2 ''mint'', ref_tx 5 1 ''mint'']"] by (simp add: ref_tx_def)
  moreover have "fst (Statistics sum_list ?E (?w [ref_tx 999000 7 ''mint'', ref_tx 5 9 ''claim''])) = Err ''failed to scan statistics''"
    using exact [of "[ref_tx 999000 7 ''mint'', ref_tx 5 9 ''claim'']"] by (simp add: ref_tx_def)
  ultimately show ?thesis
    by (auto simp: action_statistics_def since_def ref_tx_def Let_def)
qed
text \<open>
  C39. A mint whose transaction cannot be sent returns the error of the node, wrapped, and
  sends nothing. The alarm is raised exactly once, unless no address is configured for it or
  the error is one of the three that are ignored; when the alarm itself cannot be delivered,
  the request panics instead of returning the error.
\<close>

theorem failed_mint_alarm:
  assumes "\<not> r_FeatureMintDisabled R" and "big_SetString10 (mint_Amount mint) = Some amt" "r_MinimumAmount R \<le> amt"
    and "ctx_authed c = Some True" "ctx_eoa c = Some eoa"
    and "PickPrivateKey (e_libs E) (e_pg E) (w_db w) = (Ok (key, sender), d)"
    and "CreateSolveArgsSigArgsMintGraph (e_libs E) ProgDalek (e_AssetUsdc E) (mint_Market mint) (mint_Outcome mint)
       (mint_Amount mint) (mint_Referrer mint) eoa (mint_Permit mint) (mint_MsTs mint) = Ok f"
    and "CreateSolveV2 (e_libs E) ProgDalek [sas_Args f] eoa eoa = Ok v2"
    and "SendArguments (e_libs E) (e_rpc E) (r_SafetyRouterAddr R) True (r_ChainId R) key sender
       (GetClientAddr (e_libs E) (r_AccountsFactoryAddr R) eoa) v2 (isDryrun dry) (w_sent w) = (Err e, sent)"
  shows "let u = w\<lparr>w_db := d\<rparr> in
    if isIgnorable e \<or> r_UrlAlarm R = [] then
      NinelivesMint E R c mint dry w = (Err (''last error sending: '' @ e), u)
    else if e_post E (r_UrlAlarm R) = None then
      \<exists>report. NinelivesMint E R c mint dry w = (Err (''last error sending: '' @ e),
        u\<lparr>w_alarms := w_alarms w @ [(r_UrlAlarm R, snowflake_of c, report)]\<rparr>)
    else NinelivesMint E R c mint dry w = (Panic nil_panic, u)"
proof -
  have "sent = w_sent w" using send_args.effect [OF assms(9)] by simp
  then show ?thesis
    using assms
    by (auto simp: NinelivesMint_def Let_def bindM_def catchM_def on_db_def on_chain_def guardR_def
        activateSoftAlarm_def split: option.splits)
qed

theorem failed_mint_alarm_witness:
  "\<exists>u. NinelivesMint (ref_env\<lparr>e_rpc := ref_rpc\<lparr>HeaderByNumber := Inl ''unavailable''\<rparr>, e_post := \<lambda>_. Some ''timeout''\<rparr>)
       (ref_resolver\<lparr>r_UrlAlarm := ''https://alarm''\<rparr>) owner_ctx ref_mint_args None ref_world = (Panic nil_panic, u)"
proof -
  let ?E = "ref_env\<lparr>e_rpc := ref_rpc\<lparr>HeaderByNumber := Inl ''unavailable''\<rparr>, e_post := \<lambda>_. Some ''timeout''\<rparr>"
  let ?R = "ref_resolver\<lparr>r_UrlAlarm := ''https://alarm''\<rparr>"
  obtain m where m: "CreateSolveArgsSigArgsMintGraph ref_libs ProgDalek 0 (addr_hex (replicate 20 1))
      (addr_hex (replicate 8 2)) ''5'' '''' (replicate 20 6) None ''1'' = Ok m"
    using ref_mint_graph by blast
  have "bw_SolveArgs (sas_Args m)" by (rule mint_graph_bw [OF ref_abi_ok _ m]) simp
  then obtain v2 where v2: "CreateSolveV2 ref_libs ProgDalek [sas_Args m] (replicate 20 6) (replicate 20 6) = Ok v2" "bw_Args v2"
    using ref_solve_v2 [of "sas_Args m" "replicate 20 6" "replicate 20 6" ProgDalek] by auto
  then obtain b where b: "borsh_Serialize ref_libs (VArgs v2) = Inr b"
    using borsh_ok_total [OF ref_borsh_ok] bw_value.simps(4) by blast
  have s: "\<exists>e. SendArguments ref_libs (ref_rpc\<lparr>HeaderByNumber := Inl ''unavailable''\<rparr>) (replicate 20 3) True 55244
      (replicate 32 5) (replicate 20 5) to v2 False [] = (Err e, []) \<and> \<not> isIgnorable e" for to
    by (simp add: SendArguments_eq b Send_def prepare_def route_def ref_rpc_def bindM_def Let_def isIgnorable_def)
  then obtain e where e: "SendArguments ref_libs (ref_rpc\<lparr>HeaderByNumber := Inl ''unavailable''\<rparr>) (replicate 20 3) True 55244
      (replicate 32 5) (replicate 20 5) (GetClientAddr ref_libs (replicate 20 1) (replicate 20 6)) v2 False [] = (Err e, [])"
      "\<not> isIgnorable e" by blast
  have amt: "big_SetString10 ''5'' = Some 5" by (simp add: big_SetString10_def scan_nat_def digit_val_def)
  have R: "\<not> r_FeatureMintDisabled ?R" "big_SetString10 (mint_Amount ref_mint_args) = Some 5" "r_MinimumAmount ?R \<le> 5"
    "ctx_authed owner_ctx = Some True" "ctx_eoa owner_ctx = Some (replicate 20 6)"
    using amt by (simp_all add: ref_resolver_def ref_mint_args_def owner_ctx_def)
  have P: "PickPrivateKey (e_libs ?E) (e_pg ?E) (w_db ref_world) = (Ok (replicate 32 5, replicate 20 5),
     (w_db ref_world)\<lparr>accounts_sender_keys_1 :=
       [\<lparr>key_id = 1, private_key = hex_encode (replicate 32 5), last_accessed = SqlTime 1000\<rparr>]\<rparr>)"
    using ref_pick by (simp add: ref_env_def)
  have "NinelivesMint ?E ?R owner_ctx ref_mint_args None ref_world = (Panic nil_panic, ref_world\<lparr>w_db :=
     (w_db ref_world)\<lparr>accounts_sender_keys_1 :=
       [\<lparr>key_id = 1, private_key = hex_encode (replicate 32 5), last_accessed = SqlTime 1000\<rparr>]\<rparr>\<rparr>)"
    using failed_mint_alarm [OF R P, of m v2 None e "[]"] m v2(1) e
    by (simp add: ref_env_def ref_mint_args_def ref_resolver_def ref_world_def isDryrun_def)
  then show ?thesis by blast
qed

end
