(* ===== verification/Server.thy ===== *)
theory Server
  imports Handlers
begin

text \<open>
  The HTTP server, \<^verbatim>\<open>main.go\<close>: the configuration \<^verbatim>\<open>main\<close> reads from the environment and
  the middleware every request passes, which turns an \<^verbatim>\<open>Authorization\<close> header into the
  context the resolvers consult. The handler behind the middleware is a parameter of the
  request, as it is in the code.
\<close>

section \<open>Requests and replies\<close>

text \<open>\<^verbatim>\<open>Header.Get\<close> of an absent header is the empty string.\<close>

record http_request =
  req_Method :: string
  req_Origin :: string
  req_Authorization :: string

record http_reply =
  rep_Headers :: "(string \<times> string) list"
  rep_Status :: nat
  rep_Body :: string

type_synonym http_handler = "ctx \<Rightarrow> http_request \<Rightarrow> (world, http_reply) gm"

record authMiddleware =
  am_srv :: http_handler
  am_adminSecret :: string

section \<open>The middleware\<close>

definition cors_headers :: "string \<Rightarrow> (string \<times> string) list" where
  "cors_headers origin =
     (if origin = [] then []
      else [(''Access-Control-Allow-Origin'', origin), (''Access-Control-Allow-Headers'', ''*''),
            (''Access-Control-Allow-Methods'', ''*''), (''Access-Control-Allow-Credentials'', ''true''),
            (''Access-Control-Max-Age'', ''86400''), (''Access-Control-Expose-Headers'', ''*'')])"

definition writeUnauthorised :: string where
  "writeUnauthorised = ''{\"error\":\"unauthorised\"}'' @ [CHR 10]"

text \<open>The header set before the inner handler runs is part of the reply it gives.\<close>

definition under_headers :: "(string \<times> string) list \<Rightarrow> (world, http_reply) gm \<Rightarrow> (world, http_reply) gm" where
  "under_headers hs m = bindM m (\<lambda>rep. retM (rep\<lparr>rep_Headers := hs @ rep_Headers rep\<rparr>))"

text \<open>The context of a fresh request, before any value is put in it.\<close>

definition background :: ctx where
  "background = \<lparr>ctx_snowflake = None, ctx_authed = None, ctx_eoa = None, ctx_is_admin = None\<rparr>"

definition ServeHTTP :: "libs \<Rightarrow> pg \<Rightarrow> int \<Rightarrow> authMiddleware \<Rightarrow> http_request \<Rightarrow> (world, http_reply) gm" where
  "ServeHTTP L P rand a r =
     (let hs = cors_headers (req_Origin r);
          reply = (\<lambda>status body. retM \<lparr>rep_Headers = hs, rep_Status = status, rep_Body = body\<rparr>);
          snowflake = rand;
          ctx' = background\<lparr>ctx_snowflake := Some snowflake\<rparr>;
          bearer = req_Authorization r in
      if req_Method r = ''OPTIONS'' then reply 204 []
      else if bearer = [] then under_headers hs (am_srv a background r)
      else if bearer = am_adminSecret a then
        under_headers hs (am_srv a (background\<lparr>ctx_is_admin := Some (am_adminSecret a \<noteq> [])\<rparr>) r)
      else (case split_on (CHR '':'') bearer of
          [eoaPreferred', secret] \<Rightarrow>
            if \<not> IsHexAddress L eoaPreferred' then reply 400 []
            else (case hex_decode_string secret of
                Ok _ \<Rightarrow>
                  let eoaPreferred = to_lower (Address_String L (HexToAddress L eoaPreferred'));
                      secretX = to_lower secret in
                  bindM (catchM (on_db (exec_stmt P (CountSecret eoaPreferred secretX)
                            (\<lambda>d. (Ok (count_secret d eoaPreferred secretX), d))))
                          (\<lambda>e. liftR (Exit (''error scanning secrets, snowflake: snowflake: '' @ e)))) (\<lambda>count.
                  if count = 0 then reply 401 writeUnauthorised
                  else under_headers hs (am_srv a
                    (ctx'\<lparr>ctx_authed := Some True, ctx_eoa := Some (HexToAddress L eoaPreferred)\<rparr>) r))
              | _ \<Rightarrow> reply 400 [])
        | _ \<Rightarrow> reply 400 []))"

section \<open>Start\<close>

text \<open>
  What the process finds when it starts: its environment, the errors of dialling the node
  and of opening the database, and the sockets passed by the service manager.
\<close>

record boot =
  b_Getenv :: "string \<Rightarrow> string"
  b_Dial :: "string \<Rightarrow> string option"
  b_Open :: "string \<Rightarrow> string option"
  b_Listeners :: "string + nat"

text \<open>A server with no socket to serve ends at once.\<close>

record server =
  srv_Resolver :: Resolver
  srv_adminSecret :: string
  srv_RateLimitDryrun :: bool
  srv_Serving :: nat

definition fatal :: "bool \<Rightarrow> string \<Rightarrow> unit res" where
  "fatal b e = (if b then Exit e else Ok ())"

definition fatal_opt :: "string \<Rightarrow> string option \<Rightarrow> unit res" where
  "fatal_opt c e = (case e of None \<Rightarrow> Ok () | Some e \<Rightarrow> Exit (c @ e))"

definition fatalR :: "string \<Rightarrow> 'a res \<Rightarrow> 'a res" where
  "fatalR c r = (case r of Err e \<Rightarrow> Exit (c @ e) | _ \<Rightarrow> r)"

definition main :: "libs \<Rightarrow> boot \<Rightarrow> server res" where
  "main L B =
     (let env = b_Getenv B in
      bindR (fatal_opt ''failed to dial out: '' (b_Dial B (env ''SPN_GETH_URL''))) (\<lambda>_.
      bindR (fatal_opt ''connect database: '' (b_Open B (env ''SPN_TIMESCALE''))) (\<lambda>_.
      bindR (case big_SetString10 (env ''SPN_CHAIN_ID'') of
          None \<Rightarrow> Exit ''chain id not set'' | Some i \<Rightarrow> Ok i) (\<lambda>chainId.
      bindR (if env ''SPN_MINIMUM_AMOUNT'' = [] then Ok 0
             else (case big_SetString10 (env ''SPN_MINIMUM_AMOUNT'') of
                 None \<Rightarrow> Exit (''bad minimum amount: '' @ env ''SPN_MINIMUM_AMOUNT'')
               | Some i \<Rightarrow> Ok i)) (\<lambda>minAmt.
      bindR (fatal (\<not> IsHexAddress L (env ''SPN_SAFETY_ROUTER_ADDR'')) ''safety router addr not set'') (\<lambda>_.
      bindR (fatal (\<not> IsHexAddress L (env ''SPN_ACCOUNTS_ADDR'')) ''accounts factory addr not set'') (\<lambda>_.
      bindR (fatalR ''accounts private key needs to be set: '' (hex_decode_string (env ''SPN_ACCOUNTS_PRIVATE_KEY''))) (\<lambda>_.
      bindR (fatalR ''accounts public key: '' (hex_decode_string (env ''SPN_ACCOUNTS_PUBLIC_KEY''))) (\<lambda>accPubKeyB.
      bindR (case b_Listeners B of Inl e \<Rightarrow> Exit (''listeners: '' @ e) | Inr n \<Rightarrow> Ok n) (\<lambda>n.
      Ok \<lparr>srv_Resolver = \<lparr>r_ChainId = chainId, r_MinimumAmount = minAmt,
            r_AccountsFactoryAddr = HexToAddress L (env ''SPN_ACCOUNTS_ADDR''),
            r_ClaimantHelperAddr = HexToAddress L (env ''SPN_CLAIMANT_HELPER''),
            r_SafetyRouterAddr = HexToAddress L (env ''SPN_SAFETY_ROUTER_ADDR''),
            r_AccPubKey = go_copy (zeros 32) accPubKeyB, r_UrlAlarm = env ''SPN_ALARM_WEBHOOK'',
            r_FeatureClaimDisabled = (env ''SPN_FEATURE_CLAIM_DISABLED'' \<noteq> []),
            r_FeatureMintDisabled = (env ''SPN_FEATURE_MINT_DISABLED'' \<noteq> []),
            r_FeatureCheckCode = (env ''SPN_FEATURE_CHECK_CODE'' \<noteq> [])\<rparr>,
          srv_adminSecret = env ''SPN_ADMIN_SECRET'', srv_RateLimitDryrun = True, srv_Serving = n\<rparr>))))))))))"

section \<open>Specification\<close>

text \<open>
  What the middleware promises, in terms of addresses and secrets as byte strings: who a
  request is taken to come from, given which pairs are accepted.
\<close>

datatype verdict = Preflight | Anonymous | Admin | Owner Address | Malformed | Unauthorised

definition credentials :: "libs \<Rightarrow> string \<Rightarrow> (Address \<times> bytes) option" where
  "credentials L bearer = (case split_on (CHR '':'') bearer of
     [x, s] \<Rightarrow> (case (IsHexAddress L x, hex_decode_string s) of
         (True, Ok b) \<Rightarrow> Some (HexToAddress L x, b)
       | _ \<Rightarrow> None)
   | _ \<Rightarrow> None)"

definition auth_spec :: "libs \<Rightarrow> (Address \<Rightarrow> bytes \<Rightarrow> bool) \<Rightarrow> string \<Rightarrow> http_request \<Rightarrow> verdict" where
  "auth_spec L accepts admin r =
     (if req_Method r = ''OPTIONS'' then Preflight
      else if req_Authorization r = [] then Anonymous
      else if req_Authorization r = admin then Admin
      else (case credentials L (req_Authorization r) of
          None \<Rightarrow> Malformed
        | Some (a, b) \<Rightarrow> if accepts a b then Owner a else Unauthorised))"

definition owner_of :: "int \<Rightarrow> Address \<Rightarrow> ctx" where
  "owner_of snowflake a =
     \<lparr>ctx_snowflake = Some snowflake, ctx_authed = Some True, ctx_eoa = Some a, ctx_is_admin = None\<rparr>"

definition enact :: "int \<Rightarrow> authMiddleware \<Rightarrow> http_request \<Rightarrow> verdict \<Rightarrow> (world, http_reply) gm" where
  "enact rand a r v =
     (let hs = cors_headers (req_Origin r);
          reply = (\<lambda>status body. retM \<lparr>rep_Headers = hs, rep_Status = status, rep_Body = body\<rparr>);
          serve = (\<lambda>c. under_headers hs (am_srv a c r)) in
      case v of
        Preflight \<Rightarrow> reply 204 []
      | Anonymous \<Rightarrow> serve background
      | Admin \<Rightarrow> serve (background\<lparr>ctx_is_admin := Some True\<rparr>)
      | Owner e \<Rightarrow> serve (owner_of rand e)
      | Malformed \<Rightarrow> reply 400 []
      | Unauthorised \<Rightarrow> reply 401 writeUnauthorised)"

text \<open>The pairs the table of secrets accepts.\<close>

definition accepted :: "db \<Rightarrow> Address \<Rightarrow> bytes \<Rightarrow> bool" where
  "accepted d a b \<longleftrightarrow> 0 < count_secret d (addr_hex a) (hex_encode b)"

text \<open>A configuration in which the server starts, and a middleware that echoes the context.\<close>

definition ref_boot :: boot where
  "ref_boot = \<lparr>b_Getenv = (\<lambda>k. if k = ''SPN_CHAIN_ID'' then ''55244''
       else if k = ''SPN_SAFETY_ROUTER_ADDR'' then addr_hex (replicate 20 3)
       else if k = ''SPN_ACCOUNTS_ADDR'' then addr_hex (replicate 20 1)
       else if k = ''SPN_ACCOUNTS_PUBLIC_KEY'' then hex_encode [4] else ''''),
     b_Dial = (\<lambda>_. None), b_Open = (\<lambda>_. None), b_Listeners = Inr 1\<rparr>"

definition echo_srv :: authMiddleware where
  "echo_srv = \<lparr>am_srv = (\<lambda>c r. retM \<lparr>rep_Headers = [], rep_Status = 200,
       rep_Body = (case ctx_eoa c of None \<Rightarrow> '''' | Some a \<Rightarrow> addr_hex a)\<rparr>), am_adminSecret = ''root''\<rparr>"

definition ref_request :: "string \<Rightarrow> http_request" where
  "ref_request auth = \<lparr>req_Method = ''POST'', req_Origin = '''', req_Authorization = auth\<rparr>"

section \<open>Lemmas\<close>

lemma hex_decode_string_lower: "hex_decode_string s = Ok b \<Longrightarrow> hex_encode b = to_lower s"
  unfolding hex_decode_string_def by (rule hex_decode_into_lower)

lemma credentials_Some_iff:
  "credentials L bearer = Some (a, b) \<longleftrightarrow>
     (\<exists>x s. split_on (CHR '':'') bearer = [x, s] \<and> IsHexAddress L x \<and> hex_decode_string s = Ok b \<and> a = HexToAddress L x)"
  by (auto simp: credentials_def split: list.splits res.splits bool.splits)

text \<open>The one place the middleware consults the database.\<close>

lemma ServeHTTP_credentials:
  assumes "geth_ok L" and "req_Method r \<noteq> ''OPTIONS''" "req_Authorization r \<noteq> []" "req_Authorization r \<noteq> am_adminSecret a"
    and "credentials L (req_Authorization r) = Some (e, b)"
  shows "ServeHTTP L P rand a r w =
    (case pg_fault P (CountSecret (addr_hex e) (hex_encode b)) of
       Some f \<Rightarrow> (Exit (''error scanning secrets, snowflake: snowflake: '' @ f), w)
     | None \<Rightarrow> enact rand a r (if accepted (w_db w) e b then Owner e else Unauthorised) w)"
proof -
  obtain x s where x: "split_on (CHR '':'') (req_Authorization r) = [x, s]" "IsHexAddress L x"
      "hex_decode_string s = Ok b" "e = HexToAddress L x"
    using assms(5) by (auto simp: credentials_Some_iff)
  have low: "to_lower (Address_String L (HexToAddress L x)) = addr_hex e" "HexToAddress L (addr_hex e) = e"
    using assms(1) x(4) by (simp_all add: geth_okD)
  have sec: "to_lower s = hex_encode b" using hex_decode_string_lower [OF x(3)] by simp
  show ?thesis
    using assms(2-4) x(1-3)
    by (simp add: ServeHTTP_def enact_def Let_def low sec bindM_def catchM_def on_db_def exec_stmt_def accepted_def
        background_def owner_of_def split: option.splits)
qed

lemma ServeHTTP_malformed:
  assumes "req_Method r \<noteq> ''OPTIONS''" "req_Authorization r \<noteq> []" "req_Authorization r \<noteq> am_adminSecret a"
    and "credentials L (req_Authorization r) = None"
  shows "ServeHTTP L P rand a r w = enact rand a r Malformed w"
  using assms
  by (auto simp: ServeHTTP_def enact_def Let_def credentials_def split: list.splits res.splits)

lemma ServeHTTP_refines:
  assumes "geth_ok L" and "\<And>q. pg_fault P q = None"
  shows "ServeHTTP L P rand a r w = enact rand a r (auth_spec L (accepted (w_db w)) (am_adminSecret a) r) w"
proof (cases "req_Method r = ''OPTIONS'' \<or> req_Authorization r = [] \<or> req_Authorization r = am_adminSecret a")
  case True
  then show ?thesis by (auto simp: ServeHTTP_def enact_def auth_spec_def Let_def)
next
  case False
  then show ?thesis
    using ServeHTTP_malformed [of r a L P rand w] ServeHTTP_credentials [OF assms(1), of r a _ _ P rand w] assms(2)
    by (cases "credentials L (req_Authorization r)") (auto simp: auth_spec_def)
qed

lemma hex_decode_string_Ok_iff: "hex_decode_string s = Ok b \<longleftrightarrow> to_lower s = hex_encode b"
proof -
  have "to_lower s = hex_encode b \<Longrightarrow> length b \<le> length s div 2"
    by (drule arg_cong [of _ _ length]) simp
  then show ?thesis unfolding hex_decode_string_def hex_decode_into_Ok_iff by blast
qed

lemma colon_not_hex: "to_lower s = hex_encode b \<Longrightarrow> CHR '':'' \<notin> set s"
proof -
  have "hex_val c \<noteq> None" if "c \<in> set (hex_encode b)" for c b
    using that by (induction b) (auto simp: hex_byte_def)
  moreover have "hex_val (CHR '':'') = None" by (simp add: hex_val_def)
  moreover have "lower_char (CHR '':'') = CHR '':''" by (simp add: lower_char_def)
  ultimately show "to_lower s = hex_encode b \<Longrightarrow> CHR '':'' \<notin> set s"
    by (metis image_eqI list.set_map to_lower_def)
qed

lemma colon_not_addr: "CHR '':'' \<notin> set (addr_hex a)"
  using colon_not_hex [of "hex_encode a" a] by (simp add: addr_hex_def)

lemma credentials_spelled:
  assumes "CHR '':'' \<notin> set spelled" "IsHexAddress L spelled" "to_lower key = hex_encode b"
  shows "credentials L (spelled @ CHR '':'' # key) = Some (HexToAddress L spelled, b)"
  using assms split_on_pair [OF assms(1) colon_not_hex [OF assms(3)]]
  by (simp add: credentials_Some_iff hex_decode_string_Ok_iff)

text \<open>A pair the table accepts is accepted after any further statements of the server.\<close>

lemma accepted_trace: "trace db_step d evs d' \<Longrightarrow> accepted d a b \<Longrightarrow> accepted d' a b"
  using secrets.accepts_trace by (auto simp: accepted_def count_secret_pos)

lemma ServeHTTP_owner:
  assumes "geth_ok L" and "\<And>q. pg_fault P q = None" and "req_Method r \<noteq> ''OPTIONS''"
    and "req_Authorization r = spelled @ CHR '':'' # key" "req_Authorization r \<noteq> am_adminSecret a"
    and "CHR '':'' \<notin> set spelled" "IsHexAddress L spelled" "to_lower key = hex_encode b"
    and "accepted (w_db w) (HexToAddress L spelled) b"
  shows "ServeHTTP L P rand a r w = enact rand a r (Owner (HexToAddress L spelled)) w"
  using ServeHTTP_credentials [OF assms(1,3), of a] credentials_spelled [OF assms(6-8)] assms(2,4,5,9) by simp

text \<open>What the two mutations that give a secret out leave in the table.\<close>

lemma issued_accepted:
  assumes "geth_ok (e_libs E)" and "\<not> isDryrun dry"
  shows "RequestSecret E R c eoaAddr nonce v sr ss dry w = (Ok x, w') \<Longrightarrow>
      \<exists>b. x = hex_encode b \<and> length b = 32 \<and> accepted (w_db w') (HexToAddress (e_libs E) eoaAddr) b"
    and "CreateAccountExec E R c ca mint dry w = (Ok y, w') \<Longrightarrow>
      \<exists>b. cae_Secret y = hex_encode b \<and> length b = 32 \<and> accepted (w_db w') (HexToAddress (e_libs E) (ca_EoaAddr ca)) b"
proof -
  assume "RequestSecret E R c eoaAddr nonce v sr ss dry w = (Ok x, w')"
  then obtain b d where b: "x = hex_encode b" "length b = 32" "w' = w\<lparr>w_db := d\<rparr>"
    and d: "accounts_insert_nonce_secret_3 (e_pg E) (addr_hex (HexToAddress (e_libs E) eoaAddr)) (hex_encode b) nonce
      (w_db w) = (Ok (), d)"
    using RequestSecret_OkD assms(2) lower_address [OF assms(1), of eoaAddr] by metis
  from secrets.accepts_step [OF step_nonce [OF d]] b
  show "\<exists>b. x = hex_encode b \<and> length b = 32 \<and> accepted (w_db w') (HexToAddress (e_libs E) eoaAddr) b"
    by (auto simp: accepted_def count_secret_pos)
next
  assume "CreateAccountExec E R c ca mint dry w = (Ok y, w')"
  then obtain b d d' hash gas where b: "cae_Secret y = hex_encode b" "length b = 32"
    and d: "insert_secret (e_pg E) (addr_hex (HexToAddress (e_libs E) (ca_EoaAddr ca))) (hex_encode b) d = (Ok (), d')"
    and w': "w_db w' = snd (insert_tx (e_pg E) (addr_hex (HexToAddress (e_libs E) (ca_EoaAddr ca)))
       (addr_hex hash) gas ''create account'' d')"
    using CreateAccountExec_OkD [of E R c ca mint dry w y w'] assms(2) lower_address [OF assms(1), of "ca_EoaAddr ca"]
    by auto
  have "accepted d' (HexToAddress (e_libs E) (ca_EoaAddr ca)) b"
    using secrets.accepts_step [OF step_secret [OF d]] by (auto simp: accepted_def count_secret_pos)
  then have "accepted (w_db w') (HexToAddress (e_libs E) (ca_EoaAddr ca)) b"
    unfolding w' accepted_def count_secret_def insert_tx_secrets .
  with b show "\<exists>b. cae_Secret y = hex_encode b \<and> length b = 32 \<and>
      accepted (w_db w') (HexToAddress (e_libs E) (ca_EoaAddr ca)) b" by blast
qed

lemma hex_decode_string_not_Exit: "hex_decode_string s \<noteq> Exit e" "hex_decode_string s \<noteq> Panic e"
  using hex_decode_string_total [of s] by (auto simp: hex_decode_string_def panics_iff)

section \<open>Properties\<close>

text \<open>
  C9. While the database answers, the middleware does exactly what its specification says,
  for every handler behind it: a preflight request gets 204 and stops; a request without
  credentials is served anonymously, one with the administrator's secret as administrator
  and never as an owner; one whose header names an address and a secret the table accepts
  for it is served as that owner, one with any other such pair gets 401, one with another
  header gets 400. Addresses and secrets are compared as bytes, in whatever letter case
  they are spelled, and the headers for a foreign origin are set in every case.
\<close>

theorem middleware_refines:
  assumes "geth_ok L" and "\<And>q. pg_fault P q = None"
  shows "ServeHTTP L P rand a r w = enact rand a r (auth_spec L (accepted (w_db w)) (am_adminSecret a) r) w"
  using assms by (rule ServeHTTP_refines)

theorem middleware_refines_witness:
  "ServeHTTP ref_libs ref_pg 1 echo_srv (ref_request ''root'') ref_world =
     (Ok \<lparr>rep_Headers = [], rep_Status = 200, rep_Body = ''''\<rparr>, ref_world)"
proof -
  have "pg_fault ref_pg q = None" for q by (simp add: ref_pg_def)
  from middleware_refines [OF ref_geth_ok this, where a = echo_srv and r = "ref_request ''root''"] show ?thesis
    by (simp add: auth_spec_def enact_def under_headers_def bindM_def ref_request_def echo_srv_def background_def
        cors_headers_def Let_def)
qed

text \<open>
  C11. A secret that was given out for real opens the door: after \<^verbatim>\<open>RequestSecret\<close> or
  \<^verbatim>\<open>CreateAccountExec\<close> has returned a secret for an address, not as a dry run, which records
  none, and after whatever the server writes later, a request that presents the two in any
  spelling is served as the owner of that address. The lookup has to succeed, the request must
  not be a preflight, and its header not be the administrator's.
\<close>

theorem secret_round_trip:
  assumes "geth_ok (e_libs E)" and "\<not> isDryrun dry" and "\<And>q. pg_fault P q = None"
    and "RequestSecret E R c eoaAddr nonce v sr ss dry w = (Ok x, w') \<or>
      (\<exists>mint ca h. eoaAddr = ca_EoaAddr ca \<and> CreateAccountExec E R c ca mint dry w = (Ok \<lparr>cae_Hash = h, cae_Secret = x\<rparr>, w'))"
    and "trace db_step (w_db w') evs (w_db w'')"
    and "req_Method r \<noteq> ''OPTIONS''" and "req_Authorization r = spelled @ CHR '':'' # key"
    and "req_Authorization r \<noteq> am_adminSecret a" and "CHR '':'' \<notin> set spelled" "IsHexAddress (e_libs E) spelled"
    and "HexToAddress (e_libs E) spelled = HexToAddress (e_libs E) eoaAddr" "to_lower key = x"
  shows "ServeHTTP (e_libs E) P rand a r w'' = enact rand a r (Owner (HexToAddress (e_libs E) eoaAddr)) w''"
proof -
  obtain b where b: "x = hex_encode b" "accepted (w_db w') (HexToAddress (e_libs E) eoaAddr) b"
    using assms(4) issued_accepted [OF assms(1,2)] by (metis model_CreateAccountExec.select_convs(2))
  have "accepted (w_db w'') (HexToAddress (e_libs E) spelled) b"
    using accepted_trace [OF assms(5) b(2)] assms(11) by simp
  from ServeHTTP_owner [OF assms(1,3,6,7,8,9,10) _ this] show ?thesis
    using assms(11,12) b(1) by simp
qed

theorem secret_round_trip_witness:
  "\<exists>x w'. CreateAccountExec ref_env ref_resolver anon_ctx ref_create_args None None ref_world = (Ok x, w') \<and>
     fst (ServeHTTP ref_libs ref_pg 1 echo_srv (ref_request (addr_hex (replicate 20 6) @ CHR '':'' # cae_Secret x)) w') =
       Ok \<lparr>rep_Headers = [], rep_Status = 200, rep_Body = addr_hex (replicate 20 6)\<rparr>"
proof -
  obtain x w' where r: "CreateAccountExec ref_env ref_resolver anon_ctx ref_create_args None None ref_world = (Ok x, w')"
    using ref_create_ok by blast
  have L: "e_libs ref_env = ref_libs" by (simp add: ref_env_def)
  have g: "geth_ok (e_libs ref_env)" "\<not> isDryrun None" "pg_fault ref_pg q = None" for q
    by (simp_all add: L ref_geth_ok isDryrun_def ref_pg_def)
  have a: "IsHexAddress (e_libs ref_env) (addr_hex (replicate 20 6))"
    "HexToAddress (e_libs ref_env) (addr_hex (replicate 20 6)) = replicate 20 6"
    "ca_EoaAddr ref_create_args = addr_hex (replicate 20 6)"
    using geth_okD(8,9) [OF ref_geth_ok, of "replicate 20 6"] by (simp_all add: L ref_create_args_def)
  obtain b where b: "cae_Secret x = hex_encode b" using issued_accepted(2) [OF g(1,2) r] by blast
  let ?r = "ref_request (addr_hex (replicate 20 6) @ CHR '':'' # cae_Secret x)"
  have q: "req_Method ?r \<noteq> ''OPTIONS''" "req_Authorization ?r = addr_hex (replicate 20 6) @ CHR '':'' # cae_Secret x"
    "req_Authorization ?r \<noteq> am_adminSecret echo_srv"
    by (simp_all add: ref_request_def echo_srv_def addr_hex_def)
  have o: "RequestSecret ref_env ref_resolver anon_ctx (addr_hex (replicate 20 6)) 0 0 [] [] None ref_world = (Ok (cae_Secret x), w') \<or>
      (\<exists>mint ca h. addr_hex (replicate 20 6) = ca_EoaAddr ca \<and>
        CreateAccountExec ref_env ref_resolver anon_ctx ca mint None ref_world = (Ok \<lparr>cae_Hash = h, cae_Secret = cae_Secret x\<rparr>, w'))"
    using r a(3) by (metis model_CreateAccountExec.surjective old.unit.exhaust)
  have k: "to_lower (cae_Secret x) = cae_Secret x" using b by simp
  from secret_round_trip [OF g(1,2,3) o trace_refl q colon_not_addr a(1) refl k, of 1]
  show ?thesis
    using r unfolding L a(2) [unfolded L]
    by (auto simp: enact_def under_headers_def bindM_def ref_request_def echo_srv_def owner_of_def cors_headers_def Let_def)
qed


text \<open>
  A failing lookup of a secret ends the process: with a header that names a well-formed
  pair, known or not, an error of the database makes the middleware leave through
  \<^verbatim>\<open>log.Fatalf\<close>, whatever the handler behind it. A header of any other form
  gets 400 without a lookup. Neither changes anything.
\<close>

theorem lookup_failure_is_fatal:
  assumes "geth_ok L" and "req_Method r \<noteq> ''OPTIONS''" and "req_Authorization r \<notin> {[], am_adminSecret a}"
  shows "(case credentials L (req_Authorization r) of
      None \<Rightarrow> ServeHTTP L P rand a r w =
        (Ok \<lparr>rep_Headers = cors_headers (req_Origin r), rep_Status = 400, rep_Body = ''''\<rparr>, w)
    | Some (e, b) \<Rightarrow> \<forall>f. pg_fault P (CountSecret (addr_hex e) (hex_encode b)) = Some f \<longrightarrow>
        ServeHTTP L P rand a r w = (Exit (''error scanning secrets, snowflake: snowflake: '' @ f), w))"
  using ServeHTTP_malformed [OF assms(2), of a L P rand w] ServeHTTP_credentials [OF assms(1,2), of a _ _ P rand w] assms(3)
  by (auto simp: enact_def Let_def split: option.splits)

theorem lookup_failure_is_fatal_witness:
  "\<exists>e. ServeHTTP ref_libs (ref_pg\<lparr>pg_fault := \<lambda>_. Some ''down''\<rparr>) 1 echo_srv
     (ref_request (addr_hex (replicate 20 6) @ '':'' @ hex_encode [1])) ref_world = (Exit e, ref_world)"
proof -
  let ?r = "ref_request (addr_hex (replicate 20 6) @ '':'' @ hex_encode [1])"
  have r: "req_Method ?r \<noteq> ''OPTIONS''" "req_Authorization ?r \<notin> {[], am_adminSecret echo_srv}"
    by (simp_all add: ref_request_def echo_srv_def addr_hex_def)
  have "credentials ref_libs (req_Authorization ?r) = Some (replicate 20 6, [1])"
    using credentials_spelled [OF colon_not_addr, of ref_libs "replicate 20 6" "hex_encode [1]" "[1]"]
      geth_okD(8,9) [OF ref_geth_ok, of "replicate 20 6"] by (simp add: ref_request_def del: hex_encode_Cons)
  with lookup_failure_is_fatal [OF ref_geth_ok r, where P = "ref_pg\<lparr>pg_fault := \<lambda>_. Some ''down''\<rparr>"]
  show ?thesis by auto
qed

text \<open>
  The process either starts or leaves with an error: it starts exactly when the node and
  the database are reachable, the sockets are there, the chain id and, where it is set, the
  minimum amount are decimal numbers, the addresses of the router and the factory are
  addresses, and both keys are hexadecimal. It then has 20-byte addresses and a 32-byte key,
  which is the configured one only when that has 32 bytes: a shorter key is padded, a longer
  one cut; the minimum is 0 when it is unset, and the rate limiter is started for a dry run.
\<close>

theorem configuration_exact:
  assumes "geth_ok L"
  shows "(case main L B of
      Ok sv \<Rightarrow> length (r_AccPubKey (srv_Resolver sv)) = 32 \<and> length (r_AccountsFactoryAddr (srv_Resolver sv)) = 20 \<and>
        length (r_SafetyRouterAddr (srv_Resolver sv)) = 20 \<and> length (r_ClaimantHelperAddr (srv_Resolver sv)) = 20 \<and>
        srv_RateLimitDryrun sv \<and> (b_Getenv B ''SPN_MINIMUM_AMOUNT'' = [] \<longrightarrow> r_MinimumAmount (srv_Resolver sv) = 0) \<and>
        (\<exists>k. hex_decode_string (b_Getenv B ''SPN_ACCOUNTS_PUBLIC_KEY'') = Ok k \<and>
          r_AccPubKey (srv_Resolver sv) = take 32 k @ zeros (32 - length k))
    | Exit e \<Rightarrow> True
    | _ \<Rightarrow> False) \<and>
    (is_ok (main L B) \<longleftrightarrow>
      b_Dial B (b_Getenv B ''SPN_GETH_URL'') = None \<and> b_Open B (b_Getenv B ''SPN_TIMESCALE'') = None \<and>
      big_SetString10 (b_Getenv B ''SPN_CHAIN_ID'') \<noteq> None \<and>
      (b_Getenv B ''SPN_MINIMUM_AMOUNT'' = [] \<or> big_SetString10 (b_Getenv B ''SPN_MINIMUM_AMOUNT'') \<noteq> None) \<and>
      IsHexAddress L (b_Getenv B ''SPN_SAFETY_ROUTER_ADDR'') \<and> IsHexAddress L (b_Getenv B ''SPN_ACCOUNTS_ADDR'') \<and>
      is_ok (hex_decode_string (b_Getenv B ''SPN_ACCOUNTS_PRIVATE_KEY'')) \<and>
      is_ok (hex_decode_string (b_Getenv B ''SPN_ACCOUNTS_PUBLIC_KEY'')) \<and> (\<exists>n. b_Listeners B = Inr n))"
proof -
  have key: "go_copy (zeros 32) k = take 32 k @ zeros (32 - length k)" for k
    by (simp add: go_copy_def zeros_def)
  show ?thesis
    using assms
    by (auto simp: main_def Let_def fatal_def fatal_opt_def fatalR_def geth_okD key hex_decode_string_not_Exit
        split: option.splits res.splits sum.splits)
qed

theorem configuration_exact_witness:
  "\<exists>sv. main ref_libs ref_boot = Ok sv \<and> r_AccPubKey (srv_Resolver sv) = 4 # zeros 31"
proof -
  have "is_ok (main ref_libs ref_boot)"
    using configuration_exact [OF ref_geth_ok, of ref_boot] geth_okD(8) [OF ref_geth_ok]
    by (simp add: ref_boot_def big_SetString10_def scan_nat_def digit_val_def
        hex_decode_string_def [of "[]"] del: hex_encode_Cons)
  then obtain sv where "main ref_libs ref_boot = Ok sv" by (auto simp: is_ok_iff)
  with configuration_exact [OF ref_geth_ok, of ref_boot] show ?thesis
    by (auto simp: ref_boot_def zeros_def simp del: hex_encode_Cons)
qed

end
