(* ===== verification/Inputs.thy ===== *)
theory Inputs
  imports Types GoStd
begin

text \<open>
  The decoding of arguments in \<^verbatim>\<open>graph/generated.go\<close>: the input objects of the schema, the
  scalars in their required and optional forms, and the argument maps of the fields. The
  scalar decoders, the coercion of lists, the placing of an error on its path and the
  processing of one argument belong to \<^verbatim>\<open>gqlgen\<close> and are parameters.
\<close>

section \<open>Raw values and the library\<close>

text \<open>What the query parser hands over, \<^verbatim>\<open>any\<close> in the code.\<close>

datatype any =
    AnyNil
  | AnyBool bool
  | AnyInt int
  | AnyNumber string
  | AnyString string
  | AnyList "any list"
  | AnyMap "(string \<times> any) list"

type_synonym raw_args = "(string \<times> any) list"
type_synonym path = "string list"

record model_FromArgs =
  mfa_Token :: string
  mfa_ToTake :: string
  mfa_MaxUnspent :: string

record model_SolveArgs =
  msa_Permit :: "model_Permit list"
  msa_From :: "model_FromArgs list"
  msa_Target :: string
  msa_Cd :: string
  msa_MsTs :: string

text \<open>The values an argument map holds, one constructor for each type the code asserts.\<close>

datatype arg =
    ArgString string
  | ArgStrings "string list"
  | ArgInt i32
  | ArgBool bool
  | ArgBoolPtr "bool option"
  | ArgCreateAccount model_CreateAccount
  | ArgMint model_Mint
  | ArgMintPtr "model_Mint option"

type_synonym args_map = "(string \<times> arg) list"

text \<open>
  \<^verbatim>\<open>ProcessArgField\<close> takes the zero value of its type parameter as an argument here.
\<close>

record gql_inputs =
  UnmarshalString :: "any \<Rightarrow> string + string"
  UnmarshalInt32 :: "any \<Rightarrow> string + i32"
  UnmarshalBoolean :: "any \<Rightarrow> string + bool"
  CoerceList :: "any \<Rightarrow> any list"
  ErrorOnPath :: "path \<Rightarrow> string \<Rightarrow> string"
  ProcessArgField :: "path \<Rightarrow> raw_args \<Rightarrow> string \<Rightarrow> (path \<Rightarrow> any \<Rightarrow> arg res) \<Rightarrow> arg \<Rightarrow> arg res"

definition res_of :: "string + 'a \<Rightarrow> 'a res" where
  "res_of r = (case r of Inl e \<Rightarrow> Err e | Inr x \<Rightarrow> Ok x)"

definition on_path :: "'b gql_inputs_scheme \<Rightarrow> path \<Rightarrow> 'a res \<Rightarrow> 'a res" where
  "on_path G p r = (case r of Err e \<Rightarrow> Err (ErrorOnPath G p e) | _ \<Rightarrow> r)"

section \<open>Scalars\<close>

definition unmarshalNString2string :: "'b gql_inputs_scheme \<Rightarrow> path \<Rightarrow> any \<Rightarrow> string res" where
  "unmarshalNString2string G p v = on_path G p (res_of (UnmarshalString G v))"

definition unmarshalNInt2int32 :: "'b gql_inputs_scheme \<Rightarrow> path \<Rightarrow> any \<Rightarrow> i32 res" where
  "unmarshalNInt2int32 G p v = on_path G p (res_of (UnmarshalInt32 G v))"

definition unmarshalNBoolean2bool :: "'b gql_inputs_scheme \<Rightarrow> path \<Rightarrow> any \<Rightarrow> bool res" where
  "unmarshalNBoolean2bool G p v = on_path G p (res_of (UnmarshalBoolean G v))"

definition unmarshalOBoolean2bool :: "'b gql_inputs_scheme \<Rightarrow> path \<Rightarrow> any \<Rightarrow> bool res" where
  "unmarshalOBoolean2bool G p v = on_path G p (res_of (UnmarshalBoolean G v))"

definition unmarshalOBoolean2ptr :: "'b gql_inputs_scheme \<Rightarrow> path \<Rightarrow> any \<Rightarrow> bool option res" where
  "unmarshalOBoolean2ptr G p v =
     (if v = AnyNil then Ok None else bindR (on_path G p (res_of (UnmarshalBoolean G v))) (\<lambda>b. Ok (Some b)))"

definition unmarshalOString2ptr :: "'b gql_inputs_scheme \<Rightarrow> path \<Rightarrow> any \<Rightarrow> string option res" where
  "unmarshalOString2ptr G p v =
     (if v = AnyNil then Ok None else bindR (on_path G p (res_of (UnmarshalString G v))) (\<lambda>s. Ok (Some s)))"

text \<open>The elements of a list are decoded in order, each on the path of its index; the first error ends it.\<close>

fun unmarshal_elems :: "(path \<Rightarrow> any \<Rightarrow> 'a res) \<Rightarrow> path \<Rightarrow> nat \<Rightarrow> any list \<Rightarrow> 'a list res" where
  "unmarshal_elems f p i [] = Ok []"
| "unmarshal_elems f p i (v # vs) =
     bindR (f (p @ [dec_nat i]) v) (\<lambda>x. bindR (unmarshal_elems f p (Suc i) vs) (\<lambda>xs. Ok (x # xs)))"

definition unmarshalNString2strings :: "'b gql_inputs_scheme \<Rightarrow> path \<Rightarrow> any \<Rightarrow> string list res" where
  "unmarshalNString2strings G p v = unmarshal_elems (unmarshalNString2string G) p 0 (CoerceList G v)"

section \<open>Input objects\<close>

text \<open>
  One step of the loop over the fields in their declared order: a field that is not there
  leaves its zero value.
\<close>

definition input_field :: "raw_args \<Rightarrow> path \<Rightarrow> string \<Rightarrow> (path \<Rightarrow> any \<Rightarrow> 'v res) \<Rightarrow> ('v \<Rightarrow> 'a \<Rightarrow> 'a) \<Rightarrow> 'a \<Rightarrow> 'a res" where
  "input_field asMap p k dec upd it = (case map_of asMap k of
     None \<Rightarrow> Ok it
   | Some v \<Rightarrow> bindR (dec (p @ [k]) v) (\<lambda>data. Ok (upd data it)))"

abbreviation bad_map :: string where
  "bad_map \<equiv> ''interface conversion: interface {} is not map[string]interface {}''"

definition input_object :: "any \<Rightarrow> 'a \<Rightarrow> (raw_args \<Rightarrow> 'a \<Rightarrow> 'a res) \<Rightarrow> 'a res" where
  "input_object obj it loop = (case obj of
     AnyNil \<Rightarrow> Ok it
   | AnyMap m \<Rightarrow> loop m it
   | _ \<Rightarrow> Panic bad_map)"

definition zero_model_Permit :: model_Permit where
  "zero_model_Permit = \<lparr>mp_Deadline = 0, mp_PermitV = 0, mp_PermitR = '''', mp_PermitS = ''''\<rparr>"

definition unmarshalInputPermit :: "'b gql_inputs_scheme \<Rightarrow> path \<Rightarrow> any \<Rightarrow> model_Permit res" where
  "unmarshalInputPermit G p obj = input_object obj zero_model_Permit (\<lambda>m it.
     bindR (input_field m p ''deadline'' (unmarshalNInt2int32 G) (\<lambda>d. mp_Deadline_update (\<lambda>_. d)) it) (\<lambda>it.
     bindR (input_field m p ''permitV'' (unmarshalNInt2int32 G) (\<lambda>d. mp_PermitV_update (\<lambda>_. d)) it) (\<lambda>it.
     bindR (input_field m p ''permitR'' (unmarshalNString2string G) (\<lambda>d. mp_PermitR_update (\<lambda>_. d)) it) (\<lambda>it.
     input_field m p ''permitS'' (unmarshalNString2string G) (\<lambda>d. mp_PermitS_update (\<lambda>_. d)) it))))"

definition unmarshalOPermit2ptr :: "'b gql_inputs_scheme \<Rightarrow> path \<Rightarrow> any \<Rightarrow> model_Permit option res" where
  "unmarshalOPermit2ptr G p v =
     (if v = AnyNil then Ok None else bindR (on_path G p (unmarshalInputPermit G p v)) (\<lambda>x. Ok (Some x)))"

definition unmarshalNPermit2ptr :: "'b gql_inputs_scheme \<Rightarrow> path \<Rightarrow> any \<Rightarrow> model_Permit res" where
  "unmarshalNPermit2ptr G p v = on_path G p (unmarshalInputPermit G p v)"

definition unmarshalNPermit2ptrs :: "'b gql_inputs_scheme \<Rightarrow> path \<Rightarrow> any \<Rightarrow> model_Permit list res" where
  "unmarshalNPermit2ptrs G p v = unmarshal_elems (unmarshalNPermit2ptr G) p 0 (CoerceList G v)"

definition zero_model_CreateAccount :: model_CreateAccount where
  "zero_model_CreateAccount =
     \<lparr>ca_EoaAddr = '''', ca_SigV = 0, ca_SigR = '''', ca_SigS = '''', ca_Authority = None\<rparr>"

definition unmarshalInputCreateAccount :: "'b gql_inputs_scheme \<Rightarrow> path \<Rightarrow> any \<Rightarrow> model_CreateAccount res" where
  "unmarshalInputCreateAccount G p obj = input_object obj zero_model_CreateAccount (\<lambda>m it.
     bindR (input_field m p ''eoa_addr'' (unmarshalNString2string G) (\<lambda>d. ca_EoaAddr_update (\<lambda>_. d)) it) (\<lambda>it.
     bindR (input_field m p ''sigV'' (unmarshalNInt2int32 G) (\<lambda>d. ca_SigV_update (\<lambda>_. d)) it) (\<lambda>it.
     bindR (input_field m p ''sigR'' (unmarshalNString2string G) (\<lambda>d. ca_SigR_update (\<lambda>_. d)) it) (\<lambda>it.
     bindR (input_field m p ''sigS'' (unmarshalNString2string G) (\<lambda>d. ca_SigS_update (\<lambda>_. d)) it) (\<lambda>it.
     input_field m p ''authority'' (unmarshalOString2ptr G) (\<lambda>d. ca_Authority_update (\<lambda>_. d)) it)))))"

definition unmarshalNCreateAccount :: "'b gql_inputs_scheme \<Rightarrow> path \<Rightarrow> any \<Rightarrow> model_CreateAccount res" where
  "unmarshalNCreateAccount G p v = on_path G p (unmarshalInputCreateAccount G p v)"

definition zero_model_Mint :: model_Mint where
  "zero_model_Mint = \<lparr>mint_Market = '''', mint_Outcome = '''', mint_Amount = '''', mint_Permit = None,
     mint_Referrer = '''', mint_MsTs = ''''\<rparr>"

definition unmarshalInputMint :: "'b gql_inputs_scheme \<Rightarrow> path \<Rightarrow> any \<Rightarrow> model_Mint res" where
  "unmarshalInputMint G p obj = input_object obj zero_model_Mint (\<lambda>m it.
     bindR (input_field m p ''market'' (unmarshalNString2string G) (\<lambda>d. mint_Market_update (\<lambda>_. d)) it) (\<lambda>it.
     bindR (input_field m p ''outcome'' (unmarshalNString2string G) (\<lambda>d. mint_Outcome_update (\<lambda>_. d)) it) (\<lambda>it.
     bindR (input_field m p ''amount'' (unmarshalNString2string G) (\<lambda>d. mint_Amount_update (\<lambda>_. d)) it) (\<lambda>it.
     bindR (input_field m p ''permit'' (unmarshalOPermit2ptr G) (\<lambda>d. mint_Permit_update (\<lambda>_. d)) it) (\<lambda>it.
     bindR (input_field m p ''referrer'' (unmarshalNString2string G) (\<lambda>d. mint_Referrer_update (\<lambda>_. d)) it) (\<lambda>it.
     input_field m p ''ms_ts'' (unmarshalNString2string G) (\<lambda>d. mint_MsTs_update (\<lambda>_. d)) it))))))"

definition unmarshalNMint :: "'b gql_inputs_scheme \<Rightarrow> path \<Rightarrow> any \<Rightarrow> model_Mint res" where
  "unmarshalNMint G p v = on_path G p (unmarshalInputMint G p v)"

definition unmarshalOMint2ptr :: "'b gql_inputs_scheme \<Rightarrow> path \<Rightarrow> any \<Rightarrow> model_Mint option res" where
  "unmarshalOMint2ptr G p v =
     (if v = AnyNil then Ok None else bindR (on_path G p (unmarshalInputMint G p v)) (\<lambda>x. Ok (Some x)))"

definition unmarshalInputFromArgs :: "'b gql_inputs_scheme \<Rightarrow> path \<Rightarrow> any \<Rightarrow> model_FromArgs res" where
  "unmarshalInputFromArgs G p obj = input_object obj \<lparr>mfa_Token = '''', mfa_ToTake = '''', mfa_MaxUnspent = ''''\<rparr> (\<lambda>m it.
     bindR (input_field m p ''token'' (unmarshalNString2string G) (\<lambda>d. mfa_Token_update (\<lambda>_. d)) it) (\<lambda>it.
     bindR (input_field m p ''to_take'' (unmarshalNString2string G) (\<lambda>d. mfa_ToTake_update (\<lambda>_. d)) it) (\<lambda>it.
     input_field m p ''max_unspent'' (unmarshalNString2string G) (\<lambda>d. mfa_MaxUnspent_update (\<lambda>_. d)) it)))"

definition unmarshalNFromArgs2ptr :: "'b gql_inputs_scheme \<Rightarrow> path \<Rightarrow> any \<Rightarrow> model_FromArgs res" where
  "unmarshalNFromArgs2ptr G p v = on_path G p (unmarshalInputFromArgs G p v)"

definition unmarshalNFromArgs2ptrs :: "'b gql_inputs_scheme \<Rightarrow> path \<Rightarrow> any \<Rightarrow> model_FromArgs list res" where
  "unmarshalNFromArgs2ptrs G p v = unmarshal_elems (unmarshalNFromArgs2ptr G) p 0 (CoerceList G v)"

definition unmarshalInputSolveArgs :: "'b gql_inputs_scheme \<Rightarrow> path \<Rightarrow> any \<Rightarrow> model_SolveArgs res" where
  "unmarshalInputSolveArgs G p obj =
     input_object obj \<lparr>msa_Permit = [], msa_From = [], msa_Target = '''', msa_Cd = '''', msa_MsTs = ''''\<rparr> (\<lambda>m it.
     bindR (input_field m p ''permit'' (unmarshalNPermit2ptrs G) (\<lambda>d. msa_Permit_update (\<lambda>_. d)) it) (\<lambda>it.
     bindR (input_field m p ''from'' (unmarshalNFromArgs2ptrs G) (\<lambda>d. msa_From_update (\<lambda>_. d)) it) (\<lambda>it.
     bindR (input_field m p ''target'' (unmarshalNString2string G) (\<lambda>d. msa_Target_update (\<lambda>_. d)) it) (\<lambda>it.
     bindR (input_field m p ''cd'' (unmarshalNString2string G) (\<lambda>d. msa_Cd_update (\<lambda>_. d)) it) (\<lambda>it.
     input_field m p ''ms_ts'' (unmarshalNString2string G) (\<lambda>d. msa_MsTs_update (\<lambda>_. d)) it)))))"

section \<open>Arguments of the fields\<close>

text \<open>The decoders as they are passed to \<^verbatim>\<open>ProcessArgField\<close>.\<close>

definition as_arg :: "('v \<Rightarrow> arg) \<Rightarrow> (path \<Rightarrow> any \<Rightarrow> 'v res) \<Rightarrow> path \<Rightarrow> any \<Rightarrow> arg res" where
  "as_arg con dec p v = bindR (dec p v) (\<lambda>x. Ok (con x))"

definition string_arg :: "'b gql_inputs_scheme \<Rightarrow> path \<Rightarrow> raw_args \<Rightarrow> string \<Rightarrow> arg res" where
  "string_arg G p raw k = ProcessArgField G p raw k (as_arg ArgString (unmarshalNString2string G)) (ArgString '''')"

definition int_arg :: "'b gql_inputs_scheme \<Rightarrow> path \<Rightarrow> raw_args \<Rightarrow> string \<Rightarrow> arg res" where
  "int_arg G p raw k = ProcessArgField G p raw k (as_arg ArgInt (unmarshalNInt2int32 G)) (ArgInt 0)"

definition bool_arg :: "'b gql_inputs_scheme \<Rightarrow> path \<Rightarrow> raw_args \<Rightarrow> string \<Rightarrow> arg res" where
  "bool_arg G p raw k = ProcessArgField G p raw k (as_arg ArgBoolPtr (unmarshalOBoolean2ptr G)) (ArgBoolPtr None)"

definition field_Mutation_claimRewards_args :: "'b gql_inputs_scheme \<Rightarrow> path \<Rightarrow> raw_args \<Rightarrow> args_map res" where
  "field_Mutation_claimRewards_args G p raw =
     bindR (ProcessArgField G p raw ''markets'' (as_arg ArgStrings (unmarshalNString2strings G)) (ArgStrings [])) (\<lambda>arg0.
     bindR (string_arg G p raw ''msTs'') (\<lambda>arg1.
     bindR (bool_arg G p raw ''dryrun'') (\<lambda>arg2.
     Ok [(''markets'', arg0), (''msTs'', arg1), (''dryrun'', arg2)])))"

definition field_Mutation_createAccountExec_args :: "'b gql_inputs_scheme \<Rightarrow> path \<Rightarrow> raw_args \<Rightarrow> args_map res" where
  "field_Mutation_createAccountExec_args G p raw =
     bindR (ProcessArgField G p raw ''createAccount'' (as_arg ArgCreateAccount (unmarshalNCreateAccount G))
       (ArgCreateAccount zero_model_CreateAccount)) (\<lambda>arg0.
     bindR (ProcessArgField G p raw ''mint'' (as_arg ArgMintPtr (unmarshalOMint2ptr G)) (ArgMintPtr None)) (\<lambda>arg1.
     bindR (bool_arg G p raw ''dryrun'') (\<lambda>arg2.
     Ok [(''createAccount'', arg0), (''mint'', arg1), (''dryrun'', arg2)])))"

definition field_Mutation_ninelivesMint_args :: "'b gql_inputs_scheme \<Rightarrow> path \<Rightarrow> raw_args \<Rightarrow> args_map res" where
  "field_Mutation_ninelivesMint_args G p raw =
     bindR (ProcessArgField G p raw ''mint'' (as_arg ArgMint (unmarshalNMint G)) (ArgMint zero_model_Mint)) (\<lambda>arg0.
     bindR (bool_arg G p raw ''dryrun'') (\<lambda>arg1.
     Ok [(''mint'', arg0), (''dryrun'', arg1)]))"

definition field_Mutation_requestSecret_args :: "'b gql_inputs_scheme \<Rightarrow> path \<Rightarrow> raw_args \<Rightarrow> args_map res" where
  "field_Mutation_requestSecret_args G p raw =
     bindR (string_arg G p raw ''eoa_addr'') (\<lambda>arg0.
     bindR (int_arg G p raw ''nonce'') (\<lambda>arg1.
     bindR (int_arg G p raw ''sigV'') (\<lambda>arg2.
     bindR (string_arg G p raw ''sigR'') (\<lambda>arg3.
     bindR (string_arg G p raw ''sigS'') (\<lambda>arg4.
     bindR (bool_arg G p raw ''dryrun'') (\<lambda>arg5.
     Ok [(''eoa_addr'', arg0), (''nonce'', arg1), (''sigV'', arg2), (''sigR'', arg3), (''sigS'', arg4), (''dryrun'', arg5)]))))))"

definition field_Query_eoaForAddress_args :: "'b gql_inputs_scheme \<Rightarrow> path \<Rightarrow> raw_args \<Rightarrow> args_map res" where
  "field_Query_eoaForAddress_args G p raw =
     bindR (string_arg G p raw ''address'') (\<lambda>arg0. Ok [(''address'', arg0)])"

definition field_Query_hasCreated_args :: "'b gql_inputs_scheme \<Rightarrow> path \<Rightarrow> raw_args \<Rightarrow> args_map res" where
  "field_Query_hasCreated_args G p raw =
     bindR (string_arg G p raw ''address'') (\<lambda>arg0. Ok [(''address'', arg0)])"

section \<open>Documented behaviour of the library\<close>

text \<open>
  The scalars decode their own kind, an integer only in the range of 32 bits; a list is
  coerced to itself; an argument that is not given has the zero value of its type and
  one that is given is decoded on its path.
\<close>

definition inputs_ok :: "'b gql_inputs_scheme \<Rightarrow> bool" where
  "inputs_ok G \<longleftrightarrow>
     (\<forall>s. UnmarshalString G (AnyString s) = Inr s) \<and>
     (\<forall>i. - (2 ^ 31) \<le> i \<and> i < 2 ^ 31 \<longrightarrow> UnmarshalInt32 G (AnyInt i) = Inr (of_int i)) \<and>
     (\<forall>b. UnmarshalBoolean G (AnyBool b) = Inr b) \<and>
     (\<forall>xs. CoerceList G (AnyList xs) = xs) \<and>
     (\<forall>p raw k f z. ProcessArgField G p raw k f z =
        (case map_of raw k of None \<Rightarrow> Ok z | Some v \<Rightarrow> f (p @ [k]) v))"

definition ref_inputs :: gql_inputs where
  "ref_inputs = \<lparr>
     UnmarshalString = (\<lambda>v. case v of AnyString s \<Rightarrow> Inr s | _ \<Rightarrow> Inl ''not a string''),
     UnmarshalInt32 = (\<lambda>v. case v of
         AnyInt i \<Rightarrow> if - (2 ^ 31) \<le> i \<and> i < 2 ^ 31 then Inr (of_int i) else Inl ''overflow''
       | _ \<Rightarrow> Inl ''not an int''),
     UnmarshalBoolean = (\<lambda>v. case v of AnyBool b \<Rightarrow> Inr b | _ \<Rightarrow> Inl ''not a bool''),
     CoerceList = (\<lambda>v. case v of AnyList xs \<Rightarrow> xs | AnyNil \<Rightarrow> [] | _ \<Rightarrow> [v]),
     ErrorOnPath = (\<lambda>p e. concat (map (\<lambda>k. k @ ''.'') p) @ e),
     ProcessArgField = (\<lambda>p raw k f z. case map_of raw k of None \<Rightarrow> Ok z | Some v \<Rightarrow> f (p @ [k]) v)\<rparr>"

text \<open>How a client writes the input objects.\<close>

definition any_Permit :: "model_Permit \<Rightarrow> raw_args" where
  "any_Permit q = [(''deadline'', AnyInt (sint (mp_Deadline q))), (''permitV'', AnyInt (sint (mp_PermitV q))),
     (''permitR'', AnyString (mp_PermitR q)), (''permitS'', AnyString (mp_PermitS q))]"

definition any_Mint :: "model_Mint \<Rightarrow> raw_args" where
  "any_Mint m = [(''market'', AnyString (mint_Market m)), (''outcome'', AnyString (mint_Outcome m)),
     (''amount'', AnyString (mint_Amount m)),
     (''permit'', case mint_Permit m of None \<Rightarrow> AnyNil | Some q \<Rightarrow> AnyMap (any_Permit q)),
     (''referrer'', AnyString (mint_Referrer m)), (''ms_ts'', AnyString (mint_MsTs m))]"

definition any_CreateAccount :: "model_CreateAccount \<Rightarrow> raw_args" where
  "any_CreateAccount c = [(''eoa_addr'', AnyString (ca_EoaAddr c)), (''sigV'', AnyInt (sint (ca_SigV c))),
     (''sigR'', AnyString (ca_SigR c)), (''sigS'', AnyString (ca_SigS c)),
     (''authority'', case ca_Authority c of None \<Rightarrow> AnyNil | Some a \<Rightarrow> AnyString a)]"

definition any_bool :: "bool option \<Rightarrow> any" where
  "any_bool b = (case b of None \<Rightarrow> AnyNil | Some b \<Rightarrow> AnyBool b)"

text \<open>How a client writes the arguments of the mutations.\<close>

definition any_ninelivesMint :: "model_Mint \<Rightarrow> bool option \<Rightarrow> raw_args" where
  "any_ninelivesMint x dry = [(''mint'', AnyMap (any_Mint x)), (''dryrun'', any_bool dry)]"

definition any_createAccountExec :: "model_CreateAccount \<Rightarrow> model_Mint option \<Rightarrow> bool option \<Rightarrow> raw_args" where
  "any_createAccountExec c x dry = [(''createAccount'', AnyMap (any_CreateAccount c)),
     (''mint'', case x of None \<Rightarrow> AnyNil | Some x \<Rightarrow> AnyMap (any_Mint x)), (''dryrun'', any_bool dry)]"

definition any_requestSecret :: "string \<Rightarrow> i32 \<Rightarrow> i32 \<Rightarrow> string \<Rightarrow> string \<Rightarrow> bool option \<Rightarrow> raw_args" where
  "any_requestSecret a n v r s dry = [(''eoa_addr'', AnyString a), (''nonce'', AnyInt (sint n)),
     (''sigV'', AnyInt (sint v)), (''sigR'', AnyString r), (''sigS'', AnyString s), (''dryrun'', any_bool dry)]"

definition any_claimRewards :: "string list \<Rightarrow> string \<Rightarrow> bool option \<Rightarrow> raw_args" where
  "any_claimRewards ms t dry = [(''markets'', AnyList (map AnyString ms)), (''msTs'', AnyString t), (''dryrun'', any_bool dry)]"

section \<open>Lemmas\<close>

lemma ref_inputs_ok: "inputs_ok ref_inputs"
  by (simp add: inputs_ok_def ref_inputs_def)

lemma on_path_Ok [simp]: "on_path G p (Ok x) = Ok x"
  by (simp add: on_path_def)

lemma on_path_panics [simp]: "panics (on_path G p r) \<longleftrightarrow> panics r"
  by (cases r) (simp_all add: on_path_def)

lemma res_of_simps [simp]: "res_of (Inr x) = Ok x" "res_of (Inl e) = Err e"
  by (simp_all add: res_of_def)

lemma sint_i32_range: "- (2 ^ 31) \<le> sint (v :: i32)" "sint (v :: i32) < 2 ^ 31"
  using sint_range_size [of v] by (simp_all add: word_size)

lemma inputs_okD:
  assumes "inputs_ok G"
  shows "unmarshalNString2string G p (AnyString s) = Ok s"
    "unmarshalNInt2int32 G p (AnyInt (sint v)) = Ok v"
    "unmarshalOBoolean2ptr G p (any_bool b) = Ok b"
    "CoerceList G (AnyList xs) = xs"
    "ProcessArgField G p raw k f z = (case map_of raw k of None \<Rightarrow> Ok z | Some w \<Rightarrow> f (p @ [k]) w)"
  using assms sint_i32_range [of v]
  by (auto simp: inputs_ok_def unmarshalNString2string_def unmarshalNInt2int32_def unmarshalOBoolean2ptr_def any_bool_def
      split: option.split)

lemma input_field_simps [simp]:
  "map_of m k = None \<Longrightarrow> input_field m p k dec upd it = Ok it"
  "map_of m k = Some v \<Longrightarrow> input_field m p k dec upd it = bindR (dec (p @ [k]) v) (\<lambda>data. Ok (upd data it))"
  by (simp_all add: input_field_def)

text \<open>The objects are read by name: only what the map associates with the declared fields matters.\<close>

lemma permit_decodes:
  assumes "inputs_ok G" and "map_of m = map_of (any_Permit q)"
  shows "unmarshalInputPermit G p (AnyMap m) = Ok q"
  using assms
  by (simp add: unmarshalInputPermit_def input_object_def input_field_def any_Permit_def inputs_okD zero_model_Permit_def)

lemma optional_permit_decodes:
  assumes "inputs_ok G"
  shows "unmarshalOPermit2ptr G p (case q of None \<Rightarrow> AnyNil | Some q \<Rightarrow> AnyMap (any_Permit q)) = Ok q"
  using permit_decodes [OF assms refl] by (cases q) (simp_all add: unmarshalOPermit2ptr_def)

lemma mint_decodes:
  assumes "inputs_ok G" and "map_of m = map_of (any_Mint x)"
  shows "unmarshalInputMint G p (AnyMap m) = Ok x"
  using assms optional_permit_decodes [OF assms(1)]
  by (simp add: unmarshalInputMint_def input_object_def input_field_def any_Mint_def inputs_okD zero_model_Mint_def)

lemma create_account_decodes:
  assumes "inputs_ok G" and "map_of m = map_of (any_CreateAccount x)"
  shows "unmarshalInputCreateAccount G p (AnyMap m) = Ok x"
proof -
  have "unmarshalOString2ptr G q (case a of None \<Rightarrow> AnyNil | Some a \<Rightarrow> AnyString a) = Ok a" for q a
    using inputs_okD(1) [OF assms(1), unfolded unmarshalNString2string_def]
    by (cases a) (simp_all add: unmarshalOString2ptr_def)
  with assms show ?thesis
    by (simp add: unmarshalInputCreateAccount_def input_object_def input_field_def any_CreateAccount_def inputs_okD
        zero_model_CreateAccount_def)
qed

lemma strings_decode:
  assumes "inputs_ok G"
  shows "unmarshalNString2strings G p (AnyList (map AnyString xs)) = Ok xs"
proof -
  have "unmarshal_elems (unmarshalNString2string G) p i (map AnyString xs) = Ok xs" for i
    by (induction xs arbitrary: i) (simp_all add: inputs_okD [OF assms])
  then show ?thesis by (simp add: unmarshalNString2strings_def inputs_okD [OF assms])
qed

text \<open>A scalar never panics, so the only panic of an input object is a value that is none.\<close>

lemma unmarshal_scalars_total [simp]:
  "\<not> panics (unmarshalNString2string G p v)" "\<not> panics (unmarshalNInt2int32 G p v)"
  "\<not> panics (unmarshalOString2ptr G p v)" "\<not> panics (unmarshalOBoolean2ptr G p v)"
  by (auto simp: unmarshalNString2string_def unmarshalNInt2int32_def unmarshalOString2ptr_def unmarshalOBoolean2ptr_def
      res_of_def panics_bindR split: sum.splits)

lemma panics_input_field:
  "panics (input_field m p k dec upd it) \<longleftrightarrow> (\<exists>v. map_of m k = Some v \<and> panics (dec (p @ [k]) v))"
  by (auto simp: input_field_def panics_bindR split: option.splits)

lemma permit_panics_iff: "panics (unmarshalInputPermit G p v) \<longleftrightarrow> v \<noteq> AnyNil \<and> (\<forall>m. v \<noteq> AnyMap m)"
  by (cases v) (auto simp: unmarshalInputPermit_def input_object_def panics_bindR panics_input_field)

lemma create_account_panics_iff:
  "panics (unmarshalInputCreateAccount G p v) \<longleftrightarrow> v \<noteq> AnyNil \<and> (\<forall>m. v \<noteq> AnyMap m)"
  by (cases v) (auto simp: unmarshalInputCreateAccount_def input_object_def panics_bindR panics_input_field)

lemma mutation_args_decode:
  assumes "inputs_ok G"
  shows "map_of raw = map_of (any_ninelivesMint x dry) \<Longrightarrow>
      field_Mutation_ninelivesMint_args G p raw = Ok [(''mint'', ArgMint x), (''dryrun'', ArgBoolPtr dry)]"
    "map_of raw = map_of (any_createAccountExec c y dry) \<Longrightarrow>
      field_Mutation_createAccountExec_args G p raw =
        Ok [(''createAccount'', ArgCreateAccount c), (''mint'', ArgMintPtr y), (''dryrun'', ArgBoolPtr dry)]"
    "map_of raw = map_of (any_requestSecret a n v r s dry) \<Longrightarrow>
      field_Mutation_requestSecret_args G p raw =
        Ok [(''eoa_addr'', ArgString a), (''nonce'', ArgInt n), (''sigV'', ArgInt v), (''sigR'', ArgString r),
            (''sigS'', ArgString s), (''dryrun'', ArgBoolPtr dry)]"
    "map_of raw = map_of (any_claimRewards ms t dry) \<Longrightarrow>
      field_Mutation_claimRewards_args G p raw =
        Ok [(''markets'', ArgStrings ms), (''msTs'', ArgString t), (''dryrun'', ArgBoolPtr dry)]"
proof -
  note lib = inputs_okD [OF assms]
  have y: "unmarshalOMint2ptr G q (case y of None \<Rightarrow> AnyNil | Some x \<Rightarrow> AnyMap (any_Mint x)) = Ok y" for q
    using mint_decodes [OF assms refl] by (cases y) (simp_all add: unmarshalOMint2ptr_def)
  have x: "unmarshalNMint G q (AnyMap (any_Mint x)) = Ok x" for q
    using mint_decodes [OF assms refl] by (simp add: unmarshalNMint_def)
  have c: "unmarshalNCreateAccount G q (AnyMap (any_CreateAccount c)) = Ok c" for q
    using create_account_decodes [OF assms refl] by (simp add: unmarshalNCreateAccount_def)
  note ms = strings_decode [OF assms]
  note defs = field_Mutation_ninelivesMint_args_def field_Mutation_createAccountExec_args_def
        field_Mutation_requestSecret_args_def field_Mutation_claimRewards_args_def string_arg_def int_arg_def bool_arg_def
        any_ninelivesMint_def any_createAccountExec_def any_requestSecret_def any_claimRewards_def as_arg_def
  show "map_of raw = map_of (any_ninelivesMint x dry) \<Longrightarrow>
      field_Mutation_ninelivesMint_args G p raw = Ok [(''mint'', ArgMint x), (''dryrun'', ArgBoolPtr dry)]"
    by (simp add: defs lib x)
  show "map_of raw = map_of (any_createAccountExec c y dry) \<Longrightarrow>
      field_Mutation_createAccountExec_args G p raw =
        Ok [(''createAccount'', ArgCreateAccount c), (''mint'', ArgMintPtr y), (''dryrun'', ArgBoolPtr dry)]"
    by (simp add: defs lib c y)
  show "map_of raw = map_of (any_requestSecret a n v r s dry) \<Longrightarrow>
      field_Mutation_requestSecret_args G p raw =
        Ok [(''eoa_addr'', ArgString a), (''nonce'', ArgInt n), (''sigV'', ArgInt v), (''sigR'', ArgString r),
            (''sigS'', ArgString s), (''dryrun'', ArgBoolPtr dry)]"
    by (simp add: defs lib)
  show "map_of raw = map_of (any_claimRewards ms t dry) \<Longrightarrow>
      field_Mutation_claimRewards_args G p raw =
        Ok [(''markets'', ArgStrings ms), (''msTs'', ArgString t), (''dryrun'', ArgBoolPtr dry)]"
    by (simp add: defs lib ms)
qed

section \<open>Properties\<close>

text \<open>
  C30. The arguments of the four mutations arrive as they were written: whatever the order of
  the entries, the decoded map holds the same objects, lists, numbers and flags, and nothing
  else, under the names the resolvers are called with; an optional object that is null is
  absent.
\<close>

theorem arguments_round_trip:
  assumes "inputs_ok G"
  shows "(map_of raw = map_of (any_ninelivesMint x dry) \<longrightarrow>
      field_Mutation_ninelivesMint_args G p raw = Ok [(''mint'', ArgMint x), (''dryrun'', ArgBoolPtr dry)]) \<and>
    (map_of raw = map_of (any_createAccountExec c y dry) \<longrightarrow>
      field_Mutation_createAccountExec_args G p raw =
        Ok [(''createAccount'', ArgCreateAccount c), (''mint'', ArgMintPtr y), (''dryrun'', ArgBoolPtr dry)]) \<and>
    (map_of raw = map_of (any_requestSecret a n v r s dry) \<longrightarrow>
      field_Mutation_requestSecret_args G p raw =
        Ok [(''eoa_addr'', ArgString a), (''nonce'', ArgInt n), (''sigV'', ArgInt v), (''sigR'', ArgString r),
            (''sigS'', ArgString s), (''dryrun'', ArgBoolPtr dry)]) \<and>
    (map_of raw = map_of (any_claimRewards ms t dry) \<longrightarrow>
      field_Mutation_claimRewards_args G p raw =
        Ok [(''markets'', ArgStrings ms), (''msTs'', ArgString t), (''dryrun'', ArgBoolPtr dry)])"
  by (intro conjI impI) (erule mutation_args_decode [OF assms])+

theorem arguments_round_trip_witness:
  "field_Mutation_claimRewards_args ref_inputs [] [(''dryrun'', AnyNil), (''msTs'', AnyString ''7''),
     (''markets'', AnyList [AnyString ''a'', AnyString ''b''])] =
   Ok [(''markets'', ArgStrings [''a'', ''b'']), (''msTs'', ArgString ''7''), (''dryrun'', ArgBoolPtr None)]"
proof -
  have "map_of [(''dryrun'', AnyNil), (''msTs'', AnyString ''7''), (''markets'', AnyList [AnyString ''a'', AnyString ''b''])] =
      map_of (any_claimRewards [''a'', ''b''] ''7'' None)"
    by (auto simp: any_claimRewards_def any_bool_def fun_eq_iff)
  with arguments_round_trip [OF ref_inputs_ok] show ?thesis by blast
qed

end
