(* ===== verification/Executor.thy ===== *)
theory Executor
  imports Server Inputs
begin

text \<open>
  The execution of an operation in \<^verbatim>\<open>graph/generated.go\<close>: the root objects, their fields,
  the objects they return and \<^verbatim>\<open>Exec\<close>. The generic parts of \<^verbatim>\<open>gqlgen\<close> (collecting the
  fields of a selection, resolving one field, writing scalars, running delayed fields) are
  parameters with their documented behaviour as laws. Introspection is a parameter here, and
  the theory \<^verbatim>\<open>Introspection\<close> puts the generated resolvers in its place.
\<close>

section \<open>Results\<close>

text \<open>
  What a field is written as. \<^verbatim>\<open>Null\<close> and \<^verbatim>\<open>RequiredNull\<close> are two values of the library;
  \<^verbatim>\<open>NilMarshaler\<close> is the nil of the interface, left behind by a recovered panic.
\<close>

datatype 'q marshaler =
    Null
  | RequiredNull
  | NilMarshaler
  | MString string
  | MBool bool
  | MInt i32
  | MFloat 'q
  | MArray "'q marshaler list"
  | MObject "(string \<times> 'q marshaler) list"

text \<open>
  What a resolver returns, \<^verbatim>\<open>any\<close> in the code. The objects of the package \<^verbatim>\<open>introspection\<close> are
  opaque references.
\<close>

datatype intro_obj =
    IDirective nat
  | IEnumValue nat
  | IField nat
  | IInputValue nat
  | ISchema nat
  | IType nat

datatype 'q gval =
    GvString string
  | GvBool bool
  | GvInt i32
  | GvFloat 'q
  | GvCreate "model_CreateAccountExec option"
  | GvStats "'q model_Statistics list option"
  | GvStringPtr "string option"
  | GvStrings "string list"
  | GvIntro "intro_obj option"
  | GvIntros "intro_obj list option"

record 'sel cfield =
  cf_Name :: string
  cf_Alias :: string
  cf_ArgumentMap :: raw_args
  cf_Selections :: 'sel

text \<open>The state of an operation: the world, and the errors reported so far.\<close>

record exec =
  x_world :: world
  x_errors :: "string list"

definition add_error :: "string \<Rightarrow> exec \<Rightarrow> exec" where
  "add_error e x = x\<lparr>x_errors := x_errors x @ [e]\<rparr>"

definition on_world :: "(world, 'a) gm \<Rightarrow> (exec, 'a) gm" where
  "on_world m = (\<lambda>x. case m (x_world x) of (r, w) \<Rightarrow> (r, x\<lparr>x_world := w\<rparr>))"

record ('sel, 'q) gql = gql_inputs +
  CollectFields :: "'sel \<Rightarrow> string list \<Rightarrow> 'sel cfield list"
  ResolveField :: "'sel cfield \<Rightarrow> (exec, args_map) gm \<Rightarrow> (args_map \<Rightarrow> (exec, 'q gval) gm)
    \<Rightarrow> ('sel \<Rightarrow> 'q gval \<Rightarrow> (exec, 'q marshaler) gm) \<Rightarrow> bool \<Rightarrow> bool \<Rightarrow> (exec, 'q marshaler) gm"
  MarshalString :: "string \<Rightarrow> 'q marshaler"
  MarshalBoolean :: "bool \<Rightarrow> 'q marshaler"
  MarshalInt32 :: "i32 \<Rightarrow> 'q marshaler"
  MarshalFloatContext :: "'q \<Rightarrow> 'q marshaler"
  Recover :: "string \<Rightarrow> string"
  HasFieldError :: "path \<Rightarrow> string list \<Rightarrow> bool"
  RootResolverMiddleware :: "(exec, 'q marshaler \<times> bool) gm \<Rightarrow> (exec, 'q marshaler \<times> bool) gm"
  Schedule :: "nat list \<Rightarrow> nat list"
  MarshalSliceConcurrently :: "nat \<Rightarrow> (nat \<Rightarrow> (exec, 'q marshaler) gm) \<Rightarrow> (exec, 'q marshaler list) gm"
  Introspect :: "'sel cfield \<Rightarrow> (exec, 'q marshaler) gm"

section \<open>Scalars\<close>

abbreviation null_error :: string where
  "null_error \<equiv> ''the requested element is null which the schema does not allow''"

definition non_null :: "('sel, 'q) gql \<Rightarrow> path \<Rightarrow> 'q marshaler \<Rightarrow> (exec, 'q marshaler) gm" where
  "non_null G p res = (\<lambda>x.
     (Ok res, if res = Null \<and> \<not> HasFieldError G p (x_errors x) then add_error null_error x else x))"

definition marshalNString2string :: "('sel, 'q) gql \<Rightarrow> path \<Rightarrow> string \<Rightarrow> (exec, 'q marshaler) gm" where
  "marshalNString2string G p v = non_null G p (MarshalString G v)"

definition marshalNBoolean2bool :: "('sel, 'q) gql \<Rightarrow> path \<Rightarrow> bool \<Rightarrow> (exec, 'q marshaler) gm" where
  "marshalNBoolean2bool G p v = non_null G p (MarshalBoolean G v)"

definition marshalNInt2int32 :: "('sel, 'q) gql \<Rightarrow> path \<Rightarrow> i32 \<Rightarrow> (exec, 'q marshaler) gm" where
  "marshalNInt2int32 G p v = non_null G p (MarshalInt32 G v)"

definition marshalNFloat2float64 :: "('sel, 'q) gql \<Rightarrow> path \<Rightarrow> 'q \<Rightarrow> (exec, 'q marshaler) gm" where
  "marshalNFloat2float64 G p v = non_null G p (MarshalFloatContext G v)"

abbreviation bad_assert :: string where
  "bad_assert \<equiv> ''interface conversion''"

fun as_string :: "(string \<Rightarrow> (exec, 'm) gm) \<Rightarrow> 'q gval \<Rightarrow> (exec, 'm) gm" where
  "as_string f (GvString s) = f s" | "as_string f v = liftR (Panic bad_assert)"

fun as_bool :: "(bool \<Rightarrow> (exec, 'm) gm) \<Rightarrow> 'q gval \<Rightarrow> (exec, 'm) gm" where
  "as_bool f (GvBool b) = f b" | "as_bool f v = liftR (Panic bad_assert)"

fun as_int :: "(i32 \<Rightarrow> (exec, 'm) gm) \<Rightarrow> 'q gval \<Rightarrow> (exec, 'm) gm" where
  "as_int f (GvInt i) = f i" | "as_int f v = liftR (Panic bad_assert)"

fun as_float :: "('q \<Rightarrow> (exec, 'm) gm) \<Rightarrow> 'q gval \<Rightarrow> (exec, 'm) gm" where
  "as_float f (GvFloat d) = f d" | "as_float f v = liftR (Panic bad_assert)"

section \<open>Objects\<close>

text \<open>
  The loop over the collected fields: each gives a value and whether it makes the object
  invalid. An object with an invalid field is null.
\<close>

fun each_field :: "('sel cfield \<Rightarrow> (exec, 'v) gm) \<Rightarrow> 'sel cfield list \<Rightarrow> (exec, 'v list) gm" where
  "each_field f [] = retM []"
| "each_field f (x # xs) = bindM (f x) (\<lambda>v. bindM (each_field f xs) (\<lambda>vs. retM (v # vs)))"

definition field_set :: "'sel cfield list \<Rightarrow> ('q marshaler \<times> bool) list \<Rightarrow> 'q marshaler" where
  "field_set fs vs =
     (if list_ex snd vs then Null else MObject (zip (map cf_Alias fs) (map fst vs)))"

definition valued :: "(exec, 'q marshaler) gm \<Rightarrow> 'q marshaler \<Rightarrow> (exec, 'q marshaler \<times> bool) gm" where
  "valued m bad = bindM m (\<lambda>v. retM (v, v = bad))"

definition unknown_field :: "'sel cfield \<Rightarrow> (exec, 'a) gm" where
  "unknown_field f = liftR (Panic (''unknown field '' @ [CHR 34] @ cf_Name f @ [CHR 34]))"

text \<open>A field of a returned object: no arguments, and a value that is at hand.\<close>

definition plain_field :: "('sel, 'q) gql \<Rightarrow> 'sel cfield \<Rightarrow> 'q gval
    \<Rightarrow> ('q gval \<Rightarrow> (exec, 'q marshaler) gm) \<Rightarrow> (exec, 'q marshaler) gm" where
  "plain_field G f v marsh = ResolveField G f (retM []) (\<lambda>_. retM v) (\<lambda>sel. marsh) True True"

definition CreateAccountExec_hash :: "('sel, 'q) gql \<Rightarrow> path \<Rightarrow> 'sel cfield \<Rightarrow> model_CreateAccountExec \<Rightarrow> (exec, 'q marshaler) gm" where
  "CreateAccountExec_hash G p f obj =
     plain_field G f (GvString (cae_Hash obj)) (as_string (marshalNString2string G (p @ [cf_Alias f])))"

definition CreateAccountExec_secret :: "('sel, 'q) gql \<Rightarrow> path \<Rightarrow> 'sel cfield \<Rightarrow> model_CreateAccountExec \<Rightarrow> (exec, 'q marshaler) gm" where
  "CreateAccountExec_secret G p f obj =
     plain_field G f (GvString (cae_Secret obj)) (as_string (marshalNString2string G (p @ [cf_Alias f])))"

definition object_CreateAccountExec :: "('sel, 'q) gql \<Rightarrow> path \<Rightarrow> 'sel \<Rightarrow> model_CreateAccountExec \<Rightarrow> (exec, 'q marshaler) gm" where
  "object_CreateAccountExec G p sel obj =
     (let fs = CollectFields G sel [''CreateAccountExec''] in
      bindM (each_field (\<lambda>f.
        if cf_Name f = ''__typename'' then retM (MarshalString G ''CreateAccountExec'', False)
        else if cf_Name f = ''hash'' then valued (CreateAccountExec_hash G p f obj) Null
        else if cf_Name f = ''secret'' then valued (CreateAccountExec_secret G p f obj) Null
        else unknown_field f) fs) (\<lambda>vs.
      retM (field_set fs vs)))"

definition Statistics_action :: "('sel, 'q) gql \<Rightarrow> path \<Rightarrow> 'sel cfield \<Rightarrow> 'q model_Statistics \<Rightarrow> (exec, 'q marshaler) gm" where
  "Statistics_action G p f obj =
     plain_field G f (GvString (stats_Action obj)) (as_string (marshalNString2string G (p @ [cf_Alias f])))"

definition Statistics_avgGasLimit24Hours :: "('sel, 'q) gql \<Rightarrow> path \<Rightarrow> 'sel cfield \<Rightarrow> 'q model_Statistics \<Rightarrow> (exec, 'q marshaler) gm" where
  "Statistics_avgGasLimit24Hours G p f obj =
     plain_field G f (GvFloat (stats_AvgGasLimit24Hours obj)) (as_float (marshalNFloat2float64 G (p @ [cf_Alias f])))"

definition Statistics_avgGasLimitWeek :: "('sel, 'q) gql \<Rightarrow> path \<Rightarrow> 'sel cfield \<Rightarrow> 'q model_Statistics \<Rightarrow> (exec, 'q marshaler) gm" where
  "Statistics_avgGasLimitWeek G p f obj =
     plain_field G f (GvFloat (stats_AvgGasLimitWeek obj)) (as_float (marshalNFloat2float64 G (p @ [cf_Alias f])))"

definition Statistics_avgGasLimitAllTime :: "('sel, 'q) gql \<Rightarrow> path \<Rightarrow> 'sel cfield \<Rightarrow> 'q model_Statistics \<Rightarrow> (exec, 'q marshaler) gm" where
  "Statistics_avgGasLimitAllTime G p f obj =
     plain_field G f (GvFloat (stats_AvgGasLimitAllTime obj)) (as_float (marshalNFloat2float64 G (p @ [cf_Alias f])))"

definition Statistics_tx24Hours :: "('sel, 'q) gql \<Rightarrow> path \<Rightarrow> 'sel cfield \<Rightarrow> 'q model_Statistics \<Rightarrow> (exec, 'q marshaler) gm" where
  "Statistics_tx24Hours G p f obj =
     plain_field G f (GvInt (stats_Tx24Hours obj)) (as_int (marshalNInt2int32 G (p @ [cf_Alias f])))"

definition Statistics_txWeek :: "('sel, 'q) gql \<Rightarrow> path \<Rightarrow> 'sel cfield \<Rightarrow> 'q model_Statistics \<Rightarrow> (exec, 'q marshaler) gm" where
  "Statistics_txWeek G p f obj =
     plain_field G f (GvInt (stats_TxWeek obj)) (as_int (marshalNInt2int32 G (p @ [cf_Alias f])))"

definition Statistics_txAllTime :: "('sel, 'q) gql \<Rightarrow> path \<Rightarrow> 'sel cfield \<Rightarrow> 'q model_Statistics \<Rightarrow> (exec, 'q marshaler) gm" where
  "Statistics_txAllTime G p f obj =
     plain_field G f (GvInt (stats_TxAllTime obj)) (as_int (marshalNInt2int32 G (p @ [cf_Alias f])))"

definition object_Statistics :: "('sel, 'q) gql \<Rightarrow> path \<Rightarrow> 'sel \<Rightarrow> 'q model_Statistics \<Rightarrow> (exec, 'q marshaler) gm" where
  "object_Statistics G p sel obj =
     (let fs = CollectFields G sel [''Statistics''] in
      bindM (each_field (\<lambda>f.
        if cf_Name f = ''__typename'' then retM (MarshalString G ''Statistics'', False)
        else if cf_Name f = ''action'' then valued (Statistics_action G p f obj) Null
        else if cf_Name f = ''avgGasLimit24Hours'' then valued (Statistics_avgGasLimit24Hours G p f obj) Null
        else if cf_Name f = ''avgGasLimitWeek'' then valued (Statistics_avgGasLimitWeek G p f obj) Null
        else if cf_Name f = ''avgGasLimitAllTime'' then valued (Statistics_avgGasLimitAllTime G p f obj) Null
        else if cf_Name f = ''tx24Hours'' then valued (Statistics_tx24Hours G p f obj) Null
        else if cf_Name f = ''txWeek'' then valued (Statistics_txWeek G p f obj) Null
        else if cf_Name f = ''txAllTime'' then valued (Statistics_txAllTime G p f obj) Null
        else unknown_field f) fs) (\<lambda>vs.
      retM (field_set fs vs)))"

text \<open>Delayed work, in the order it happens to finish; the values go to their places.\<close>

fun run_order :: "nat list \<Rightarrow> (nat \<Rightarrow> (exec, 'v) gm) \<Rightarrow> 'v list \<Rightarrow> (exec, 'v list) gm" where
  "run_order [] task vs = retM vs"
| "run_order (i # is) task vs = bindM (task i) (\<lambda>v. run_order is task (vs[i := v]))"

fun marshalOCreateAccountExec :: "('sel, 'q) gql \<Rightarrow> path \<Rightarrow> 'sel \<Rightarrow> 'q gval \<Rightarrow> (exec, 'q marshaler) gm" where
  "marshalOCreateAccountExec G p sel (GvCreate None) = retM Null"
| "marshalOCreateAccountExec G p sel (GvCreate (Some v)) = object_CreateAccountExec G p sel v"
| "marshalOCreateAccountExec G p sel v = liftR (Panic bad_assert)"

fun marshalOStatistics :: "('sel, 'q) gql \<Rightarrow> path \<Rightarrow> 'sel \<Rightarrow> 'q gval \<Rightarrow> (exec, 'q marshaler) gm" where
  "marshalOStatistics G p sel (GvStats None) = retM Null"
| "marshalOStatistics G p sel (GvStats (Some v)) =
     bindM (MarshalSliceConcurrently G (length v) (\<lambda>i. object_Statistics G (p @ [dec_nat i]) sel (v ! i))) (\<lambda>ret.
     retM (if list_ex (\<lambda>e. e = Null) ret then Null else MArray ret))"
| "marshalOStatistics G p sel v = liftR (Panic bad_assert)"

section \<open>Root fields\<close>

text \<open>
  The arguments of a root field, decoded before it is resolved: an error or a panic of the
  decoding is reported and stops the field.
\<close>

definition decode_args :: "('sel, 'q) gql \<Rightarrow> (path \<Rightarrow> raw_args \<Rightarrow> args_map res) \<Rightarrow> path \<Rightarrow> 'sel cfield \<Rightarrow> (exec, args_map) gm" where
  "decode_args G dec p f = (\<lambda>x. case dec (p @ [cf_Alias f]) (cf_ArgumentMap f) of
     Ok args \<Rightarrow> (Ok args, x)
   | Err e \<Rightarrow> (Err e, add_error e x)
   | Panic q \<Rightarrow> (Err (Recover G q), add_error (Recover G q) x)
   | Exit e \<Rightarrow> (Exit e, x))"

definition fieldContext_Mutation_createAccountExec :: "('sel, 'q) gql \<Rightarrow> path \<Rightarrow> 'sel cfield \<Rightarrow> (exec, args_map) gm" where
  "fieldContext_Mutation_createAccountExec G = decode_args G (field_Mutation_createAccountExec_args G)"

definition fieldContext_Mutation_requestSecret :: "('sel, 'q) gql \<Rightarrow> path \<Rightarrow> 'sel cfield \<Rightarrow> (exec, args_map) gm" where
  "fieldContext_Mutation_requestSecret G = decode_args G (field_Mutation_requestSecret_args G)"

definition fieldContext_Mutation_ninelivesMint :: "('sel, 'q) gql \<Rightarrow> path \<Rightarrow> 'sel cfield \<Rightarrow> (exec, args_map) gm" where
  "fieldContext_Mutation_ninelivesMint G = decode_args G (field_Mutation_ninelivesMint_args G)"

definition fieldContext_Mutation_claimRewards :: "('sel, 'q) gql \<Rightarrow> path \<Rightarrow> 'sel cfield \<Rightarrow> (exec, args_map) gm" where
  "fieldContext_Mutation_claimRewards G = decode_args G (field_Mutation_claimRewards_args G)"

definition fieldContext_Query_eoaForAddress :: "('sel, 'q) gql \<Rightarrow> path \<Rightarrow> 'sel cfield \<Rightarrow> (exec, args_map) gm" where
  "fieldContext_Query_eoaForAddress G = decode_args G (field_Query_eoaForAddress_args G)"

definition fieldContext_Query_hasCreated :: "('sel, 'q) gql \<Rightarrow> path \<Rightarrow> 'sel cfield \<Rightarrow> (exec, args_map) gm" where
  "fieldContext_Query_hasCreated G = decode_args G (field_Query_hasCreated_args G)"

text \<open>Reading an argument at its type: any other value panics.\<close>

definition the_string :: "args_map \<Rightarrow> string \<Rightarrow> string res" where
  "the_string m k = (case map_of m k of Some (ArgString s) \<Rightarrow> Ok s | _ \<Rightarrow> Panic bad_assert)"

definition the_strings :: "args_map \<Rightarrow> string \<Rightarrow> string list res" where
  "the_strings m k = (case map_of m k of Some (ArgStrings s) \<Rightarrow> Ok s | _ \<Rightarrow> Panic bad_assert)"

definition the_int :: "args_map \<Rightarrow> string \<Rightarrow> i32 res" where
  "the_int m k = (case map_of m k of Some (ArgInt i) \<Rightarrow> Ok i | _ \<Rightarrow> Panic bad_assert)"

definition the_bool :: "args_map \<Rightarrow> string \<Rightarrow> bool option res" where
  "the_bool m k = (case map_of m k of Some (ArgBoolPtr b) \<Rightarrow> Ok b | _ \<Rightarrow> Panic bad_assert)"

definition the_account :: "args_map \<Rightarrow> string \<Rightarrow> model_CreateAccount res" where
  "the_account m k = (case map_of m k of Some (ArgCreateAccount c) \<Rightarrow> Ok c | _ \<Rightarrow> Panic bad_assert)"

definition the_mint :: "args_map \<Rightarrow> string \<Rightarrow> model_Mint res" where
  "the_mint m k = (case map_of m k of Some (ArgMint x) \<Rightarrow> Ok x | _ \<Rightarrow> Panic bad_assert)"

definition the_mint_ptr :: "args_map \<Rightarrow> string \<Rightarrow> model_Mint option res" where
  "the_mint_ptr m k = (case map_of m k of Some (ArgMintPtr x) \<Rightarrow> Ok x | _ \<Rightarrow> Panic bad_assert)"

definition resolver :: "('a \<Rightarrow> 'q gval) \<Rightarrow> (world, 'a) gm res \<Rightarrow> (exec, 'q gval) gm" where
  "resolver con call = bindM (liftR call) (\<lambda>m. bindM (on_world m) (\<lambda>v. retM (con v)))"

definition Mutation_createAccountExec ::
    "('sel, 'q) gql \<Rightarrow> env \<Rightarrow> Resolver \<Rightarrow> ctx \<Rightarrow> path \<Rightarrow> 'sel cfield \<Rightarrow> (exec, 'q marshaler) gm" where
  "Mutation_createAccountExec G E R c p f = ResolveField G f
     (fieldContext_Mutation_createAccountExec G p f)
     (\<lambda>args. resolver (\<lambda>v. GvCreate (Some v))
        (bindR (the_account args ''createAccount'') (\<lambda>createAccount.
         bindR (the_mint_ptr args ''mint'') (\<lambda>mint.
         bindR (the_bool args ''dryrun'') (\<lambda>dryrun.
         Ok (CreateAccountExec E R c createAccount mint dryrun))))))
     (marshalOCreateAccountExec G (p @ [cf_Alias f])) True False"

definition Mutation_requestSecret ::
    "('sel, 'q) gql \<Rightarrow> env \<Rightarrow> Resolver \<Rightarrow> ctx \<Rightarrow> path \<Rightarrow> 'sel cfield \<Rightarrow> (exec, 'q marshaler) gm" where
  "Mutation_requestSecret G E R c p f = ResolveField G f
     (fieldContext_Mutation_requestSecret G p f)
     (\<lambda>args. resolver GvString
        (bindR (the_string args ''eoa_addr'') (\<lambda>eoaAddr.
         bindR (the_int args ''nonce'') (\<lambda>nonce.
         bindR (the_int args ''sigV'') (\<lambda>sigV.
         bindR (the_string args ''sigR'') (\<lambda>sigR.
         bindR (the_string args ''sigS'') (\<lambda>sigS.
         bindR (the_bool args ''dryrun'') (\<lambda>dryrun.
         Ok (RequestSecret E R c eoaAddr nonce sigV sigR sigS dryrun)))))))))
     (\<lambda>sel. as_string (marshalNString2string G (p @ [cf_Alias f]))) True True"

definition Mutation_ninelivesMint ::
    "('sel, 'q) gql \<Rightarrow> env \<Rightarrow> Resolver \<Rightarrow> ctx \<Rightarrow> path \<Rightarrow> 'sel cfield \<Rightarrow> (exec, 'q marshaler) gm" where
  "Mutation_ninelivesMint G E R c p f = ResolveField G f
     (fieldContext_Mutation_ninelivesMint G p f)
     (\<lambda>args. resolver GvString
        (bindR (the_mint args ''mint'') (\<lambda>mint.
         bindR (the_bool args ''dryrun'') (\<lambda>dryrun.
         Ok (NinelivesMint E R c mint dryrun)))))
     (\<lambda>sel. as_string (marshalNString2string G (p @ [cf_Alias f]))) True True"

definition Mutation_claimRewards ::
    "('sel, 'q) gql \<Rightarrow> env \<Rightarrow> Resolver \<Rightarrow> ctx \<Rightarrow> path \<Rightarrow> 'sel cfield \<Rightarrow> (exec, 'q marshaler) gm" where
  "Mutation_claimRewards G E R c p f = ResolveField G f
     (fieldContext_Mutation_claimRewards G p f)
     (\<lambda>args. resolver GvString
        (bindR (the_strings args ''markets'') (\<lambda>markets.
         bindR (the_string args ''msTs'') (\<lambda>msTs.
         bindR (the_bool args ''dryrun'') (\<lambda>dryrun.
         Ok (ClaimRewards E R c markets msTs dryrun))))))
     (\<lambda>sel. as_string (marshalNString2string G (p @ [cf_Alias f]))) True True"

definition Query_publickey :: "('sel, 'q) gql \<Rightarrow> Resolver \<Rightarrow> path \<Rightarrow> 'sel cfield \<Rightarrow> (exec, 'q marshaler) gm" where
  "Query_publickey G R p f = ResolveField G f (retM [])
     (\<lambda>args. resolver GvString (Ok (liftR (Publickey R))))
     (\<lambda>sel. as_string (marshalNString2string G (p @ [cf_Alias f]))) True True"

definition Query_eoaForAddress :: "('sel, 'q) gql \<Rightarrow> env \<Rightarrow> Resolver \<Rightarrow> path \<Rightarrow> 'sel cfield \<Rightarrow> (exec, 'q marshaler) gm" where
  "Query_eoaForAddress G E R p f = ResolveField G f
     (fieldContext_Query_eoaForAddress G p f)
     (\<lambda>args. resolver GvString
        (bindR (the_string args ''address'') (\<lambda>address. Ok (liftR (EoaForAddress E R address)))))
     (\<lambda>sel. as_string (marshalNString2string G (p @ [cf_Alias f]))) True True"

definition Query_hasCreated :: "('sel, 'q) gql \<Rightarrow> env \<Rightarrow> path \<Rightarrow> 'sel cfield \<Rightarrow> (exec, 'q marshaler) gm" where
  "Query_hasCreated G E p f = ResolveField G f
     (fieldContext_Query_hasCreated G p f)
     (\<lambda>args. resolver GvBool
        (bindR (the_string args ''address'') (\<lambda>address. Ok (HasCreated E address))))
     (\<lambda>sel. as_bool (marshalNBoolean2bool G (p @ [cf_Alias f]))) True True"

definition Query_statistics :: "('sel, 'q) gql \<Rightarrow> (nat list \<Rightarrow> 'q) \<Rightarrow> env \<Rightarrow> path \<Rightarrow> 'sel cfield \<Rightarrow> (exec, 'q marshaler) gm" where
  "Query_statistics G avg E p f = ResolveField G f (retM [])
     (\<lambda>args. resolver (\<lambda>v. GvStats (Some v)) (Ok (Statistics avg E)))
     (marshalOStatistics G (p @ [cf_Alias f])) True False"

section \<open>Operations\<close>

text \<open>
  The fields of a mutation run one after the other, in the order of the selection. The
  middleware of root fields wraps a call that yields a value and whether it makes the whole
  answer invalid: inside it for the queries, outside for the rest.
\<close>

definition root_field :: "('sel, 'q) gql \<Rightarrow> (exec, 'q marshaler) gm \<Rightarrow> (exec, 'q marshaler) gm" where
  "root_field G m = bindM (RootResolverMiddleware G (bindM m (\<lambda>v. retM (v, False)))) (\<lambda>(v, _). retM v)"

definition mutation_field :: "('sel, 'q) gql \<Rightarrow> env \<Rightarrow> Resolver \<Rightarrow> ctx \<Rightarrow> 'sel cfield \<Rightarrow> (exec, 'q marshaler \<times> bool) gm" where
  "mutation_field G E R c f = (
     if cf_Name f = ''__typename'' then retM (MarshalString G ''Mutation'', False)
     else if cf_Name f = ''createAccountExec'' then
       valued (root_field G (Mutation_createAccountExec G E R c [] f)) RequiredNull
     else if cf_Name f = ''requestSecret'' then
       valued (root_field G (Mutation_requestSecret G E R c [] f)) Null
     else if cf_Name f = ''ninelivesMint'' then
       valued (root_field G (Mutation_ninelivesMint G E R c [] f)) Null
     else if cf_Name f = ''claimRewards'' then
       valued (root_field G (Mutation_claimRewards G E R c [] f)) Null
     else unknown_field f)"

definition root_Mutation :: "('sel, 'q) gql \<Rightarrow> env \<Rightarrow> Resolver \<Rightarrow> ctx \<Rightarrow> 'sel \<Rightarrow> (exec, 'q marshaler) gm" where
  "root_Mutation G E R c sel =
     (let fs = CollectFields G sel [''Mutation''] in
      bindM (each_field (mutation_field G E R c) fs) (\<lambda>vs.
      retM (field_set fs vs)))"

text \<open>
  The four queries are delayed and run concurrently; each recovers from its own panic,
  leaving no value.
\<close>

definition recovering :: "('sel, 'q) gql \<Rightarrow> (exec, 'q marshaler \<times> bool) gm \<Rightarrow> (exec, 'q marshaler \<times> bool) gm" where
  "recovering G m = (\<lambda>x. case m x of
     (Panic q, y) \<Rightarrow> (Ok (NilMarshaler, False), add_error (Recover G q) y)
   | r \<Rightarrow> r)"

definition delayed_query :: "('sel, 'q) gql \<Rightarrow> (nat list \<Rightarrow> 'q) \<Rightarrow> env \<Rightarrow> Resolver \<Rightarrow> 'sel cfield
    \<Rightarrow> (exec, 'q marshaler \<times> bool) gm" where
  "delayed_query G avg E R f = RootResolverMiddleware G (recovering G (
     if cf_Name f = ''publickey'' then valued (Query_publickey G R [] f) Null
     else if cf_Name f = ''eoaForAddress'' then valued (Query_eoaForAddress G E R [] f) Null
     else if cf_Name f = ''hasCreated'' then valued (Query_hasCreated G E [] f) Null
     else valued (Query_statistics G avg E [] f) RequiredNull))"

definition is_delayed :: "'sel cfield \<Rightarrow> bool" where
  "is_delayed f \<longleftrightarrow> cf_Name f \<in> {''publickey'', ''eoaForAddress'', ''hasCreated'', ''statistics''}"

definition root_Query :: "('sel, 'q) gql \<Rightarrow> (nat list \<Rightarrow> 'q) \<Rightarrow> env \<Rightarrow> Resolver \<Rightarrow> 'sel \<Rightarrow> (exec, 'q marshaler) gm" where
  "root_Query G avg E R sel =
     (let fs = CollectFields G sel [''Query''] in
      bindM (each_field (\<lambda>f.
        if cf_Name f = ''__typename'' then retM (MarshalString G ''Query'', False)
        else if is_delayed f then retM (NilMarshaler, False)
        else if cf_Name f = ''__type'' \<or> cf_Name f = ''__schema'' then
          valued (root_field G (Introspect G f)) RequiredNull
        else unknown_field f) fs) (\<lambda>vs.
      bindM (run_order (Schedule G (filter (\<lambda>i. is_delayed (fs ! i)) [0..<length fs]))
        (\<lambda>i. delayed_query G avg E R (fs ! i)) vs) (\<lambda>vs.
      retM (field_set fs vs))))"

datatype operation = OpQuery | OpMutation | OpSubscription

record 'q response =
  resp_Data :: "'q marshaler option"
  resp_Errors :: "string list"

text \<open>
  The handler \<^verbatim>\<open>Exec\<close> returns, called for the first time or again: a further call has no
  response, since no field is ever deferred. The data is written out before it is returned,
  and a value that was never set has no method to write it with.
\<close>

primrec nil_free :: "'q marshaler \<Rightarrow> bool" where
  "nil_free Null \<longleftrightarrow> True"
| "nil_free RequiredNull \<longleftrightarrow> True"
| "nil_free NilMarshaler \<longleftrightarrow> False"
| "nil_free (MString s) \<longleftrightarrow> True"
| "nil_free (MBool b) \<longleftrightarrow> True"
| "nil_free (MInt i) \<longleftrightarrow> True"
| "nil_free (MFloat q) \<longleftrightarrow> True"
| "nil_free (MArray vs) \<longleftrightarrow> list_all id (map nil_free vs)"
| "nil_free (MObject vs) \<longleftrightarrow> list_all snd (map (map_prod id nil_free) vs)"

definition write_data :: "'q marshaler \<Rightarrow> (exec, 'q response option) gm" where
  "write_data data = liftR (if nil_free data then Ok (Some \<lparr>resp_Data = Some data, resp_Errors = []\<rparr>) else Panic nil_panic)"

definition Exec :: "('sel, 'q) gql \<Rightarrow> (nat list \<Rightarrow> 'q) \<Rightarrow> env \<Rightarrow> Resolver \<Rightarrow> ctx \<Rightarrow> operation \<Rightarrow> 'sel \<Rightarrow> bool
    \<Rightarrow> (exec, 'q response option) gm" where
  "Exec G avg E R c op sel first = (
     if \<not> first then retM None
     else (case op of
         OpQuery \<Rightarrow> bindM (root_Query G avg E R sel) write_data
       | OpMutation \<Rightarrow> bindM (root_Mutation G E R c sel) write_data
       | OpSubscription \<Rightarrow>
           retM (Some \<lparr>resp_Data = None, resp_Errors = [''unsupported GraphQL operation'']\<rparr>)))"

section \<open>The server\<close>

text \<open>
  The transport of \<^verbatim>\<open>gqlgen\<close>: reading an operation off a request, or answering it without
  one, writing a response with the errors reported on the way, and the reply to a panic.
\<close>

record ('sel, 'q) transport =
  t_Parse :: "http_request \<Rightarrow> http_reply + operation \<times> 'sel"
  t_Write :: "'q response option \<Rightarrow> string list \<Rightarrow> http_reply"
  t_Panic :: "string \<Rightarrow> http_reply"

definition graphql_srv :: "('sel, 'q) gql \<Rightarrow> ('sel, 'q) transport \<Rightarrow> (nat list \<Rightarrow> 'q) \<Rightarrow> env \<Rightarrow> Resolver \<Rightarrow> http_handler" where
  "graphql_srv G T avg E R c r = (\<lambda>w. case t_Parse T r of
     Inl rep \<Rightarrow> (Ok rep, w)
   | Inr (op, sel) \<Rightarrow>
      (case Exec G avg E R c op sel True \<lparr>x_world = w, x_errors = []\<rparr> of
         (Ok resp, x) \<Rightarrow> (Ok (t_Write T resp (x_errors x)), x_world x)
       | (Err e, x) \<Rightarrow> (Ok (t_Panic T e), x_world x)
       | (Panic q, x) \<Rightarrow> (Ok (t_Panic T q), x_world x)
       | (Exit e, x) \<Rightarrow> (Exit e, x_world x)))"

section \<open>Documented behaviour of the library\<close>

text \<open>
  \<^verbatim>\<open>ResolveField\<close>: a field whose arguments do not decode is null; otherwise its resolver
  runs, an error is reported and makes it null, a panic of the resolver or of the writing is
  reported and makes it null, and a value is written.
\<close>

definition recovered :: "('sel, 'q) gql \<Rightarrow> (exec, 'q marshaler) gm \<Rightarrow> (exec, 'q marshaler) gm" where
  "recovered G m = (\<lambda>x. case m x of (Panic q, y) \<Rightarrow> (Ok Null, add_error (Recover G q) y) | r \<Rightarrow> r)"

definition resolve_spec :: "('sel, 'q) gql \<Rightarrow> 'sel cfield \<Rightarrow> (exec, args_map) gm \<Rightarrow> (args_map \<Rightarrow> (exec, 'q gval) gm)
    \<Rightarrow> ('sel \<Rightarrow> 'q gval \<Rightarrow> (exec, 'q marshaler) gm) \<Rightarrow> (exec, 'q marshaler) gm" where
  "resolve_spec G f init resolve marsh = (\<lambda>x. case init x of
     (Ok args, y) \<Rightarrow> recovered G (\<lambda>y. case resolve args y of
          (Ok v, z) \<Rightarrow> marsh (cf_Selections f) v z
        | (Err e, z) \<Rightarrow> (Ok Null, add_error e z)
        | (Panic q, z) \<Rightarrow> (Panic q, z)
        | (Exit e, z) \<Rightarrow> (Exit e, z)) y
   | (Err e, y) \<Rightarrow> (Ok Null, y)
   | (Panic q, y) \<Rightarrow> (Panic q, y)
   | (Exit e, y) \<Rightarrow> (Exit e, y))"

text \<open>What leaves the world alone.\<close>

definition world_same :: "(exec, 'a) gm \<Rightarrow> bool" where
  "world_same m \<longleftrightarrow> (\<forall>x. x_world (snd (m x)) = x_world x)"

text \<open>
  \<^verbatim>\<open>MarshalSliceConcurrently\<close> does to the world what its elements do, and elements that are
  values at once are collected in their order.
\<close>

definition gql_ok :: "('sel, 'q) gql \<Rightarrow> bool" where
  "gql_ok G \<longleftrightarrow> inputs_ok G \<and>
     (\<forall>f init resolve marsh nn. ResolveField G f init resolve marsh True nn = resolve_spec G f init resolve marsh) \<and>
     (\<forall>s. MarshalString G s = MString s) \<and> (\<forall>b. MarshalBoolean G b = MBool b) \<and>
     (\<forall>i. MarshalInt32 G i = MInt i) \<and> (\<forall>q. MarshalFloatContext G q = MFloat q) \<and>
     (\<forall>m. RootResolverMiddleware G m = m) \<and> (\<forall>is. mset (Schedule G is) = mset is) \<and>
     (\<forall>f x. x_world (snd (Introspect G f x)) = x_world x) \<and>
     (\<forall>n el. (\<forall>i. world_same (el i)) \<longrightarrow> world_same (MarshalSliceConcurrently G n el)) \<and>
     (\<forall>n el v. (\<forall>i<n. el i = retM (v i)) \<longrightarrow> MarshalSliceConcurrently G n el = retM (map v [0..<n]))"

section \<open>Footprints\<close>

text \<open>A relation on worlds, on the states of an operation.\<close>

definition lifted :: "(world \<Rightarrow> world \<Rightarrow> bool) \<Rightarrow> exec \<Rightarrow> exec \<Rightarrow> bool" where
  "lifted K x y \<longleftrightarrow> K (x_world x) (x_world y)"

text \<open>
  The transactions a request may add: straight to the factory, or through the safety router
  for the account of the owner the middleware has authenticated.
\<close>

definition allowed_tx :: "libs \<Rightarrow> Resolver \<Rightarrow> ctx \<Rightarrow> signed_tx \<Rightarrow> bool" where
  "allowed_tx L R c t \<longleftrightarrow>
     dft_To (stx_Tx t) = r_AccountsFactoryAddr R \<or>
     (ctx_authed c = Some True \<and> dft_To (stx_Tx t) = r_SafetyRouterAddr R \<and>
      (case ctx_eoa c of None \<Rightarrow> False
       | Some e \<Rightarrow> take 32 (dft_Data (stx_Tx t)) = zeros 12 @ GetClientAddr L (r_AccountsFactoryAddr R) e))"

definition owner_txs :: "libs \<Rightarrow> Resolver \<Rightarrow> ctx \<Rightarrow> world \<Rightarrow> world \<Rightarrow> bool" where
  "owner_txs L R c w w' \<longleftrightarrow> (\<exists>l. w_sent w' = w_sent w @ l \<and> list_all (allowed_tx L R c) l)"

text \<open>The same for a server whose library and factory are as they should be.\<close>

definition owner_served :: "env \<Rightarrow> Resolver \<Rightarrow> ctx \<Rightarrow> world \<Rightarrow> world \<Rightarrow> bool" where
  "owner_served E R c w w' \<longleftrightarrow>
     (geth_ok (e_libs E) \<and> length (r_AccountsFactoryAddr R) = 20 \<longrightarrow> owner_txs (e_libs E) R c w w')"

section \<open>Specification\<close>

text \<open>
  The calls a mutation may ask for, with their names and arguments on the wire, and what
  each does: the resolver runs once, its value is written, and an error or a panic is
  reported and leaves null.
\<close>

datatype call =
    CallCreate model_CreateAccount "model_Mint option" "bool option"
  | CallRequest string i32 i32 string string "bool option"
  | CallMint model_Mint "bool option"
  | CallClaim "string list" string "bool option"

fun call_name :: "call \<Rightarrow> string" where
  "call_name (CallCreate a m dry) = ''createAccountExec''"
| "call_name (CallRequest a n v r s dry) = ''requestSecret''"
| "call_name (CallMint m dry) = ''ninelivesMint''"
| "call_name (CallClaim ms t dry) = ''claimRewards''"

fun call_args :: "call \<Rightarrow> raw_args" where
  "call_args (CallCreate a m dry) = any_createAccountExec a m dry"
| "call_args (CallRequest a n v r s dry) = any_requestSecret a n v r s dry"
| "call_args (CallMint m dry) = any_ninelivesMint m dry"
| "call_args (CallClaim ms t dry) = any_claimRewards ms t dry"

definition create_object :: "'sel cfield list \<Rightarrow> model_CreateAccountExec \<Rightarrow> 'q marshaler" where
  "create_object fs v = MObject (map (\<lambda>f. (cf_Alias f, MString
     (if cf_Name f = ''__typename'' then ''CreateAccountExec''
      else if cf_Name f = ''hash'' then cae_Hash v else cae_Secret v))) fs)"

definition field_result :: "('sel, 'q) gql \<Rightarrow> ('a \<Rightarrow> 'q marshaler) \<Rightarrow> (world, 'a) gm \<Rightarrow> (exec, 'q marshaler) gm" where
  "field_result G con m = (\<lambda>x. case m (x_world x) of
     (Ok v, w) \<Rightarrow> (Ok (con v), x\<lparr>x_world := w\<rparr>)
   | (Err e, w) \<Rightarrow> (Ok Null, add_error e (x\<lparr>x_world := w\<rparr>))
   | (Panic q, w) \<Rightarrow> (Ok Null, add_error (Recover G q) (x\<lparr>x_world := w\<rparr>))
   | (Exit e, w) \<Rightarrow> (Exit e, x\<lparr>x_world := w\<rparr>))"

fun perform :: "('sel, 'q) gql \<Rightarrow> env \<Rightarrow> Resolver \<Rightarrow> ctx \<Rightarrow> 'sel cfield \<Rightarrow> call \<Rightarrow> (exec, 'q marshaler) gm" where
  "perform G E R c f (CallCreate a m dry) =
     field_result G (create_object (CollectFields G (cf_Selections f) [''CreateAccountExec''])) (CreateAccountExec E R c a m dry)"
| "perform G E R c f (CallRequest a n v r s dry) = field_result G MString (RequestSecret E R c a n v r s dry)"
| "perform G E R c f (CallMint m dry) = field_result G MString (NinelivesMint E R c m dry)"
| "perform G E R c f (CallClaim ms t dry) = field_result G MString (ClaimRewards E R c ms t dry)"

text \<open>A call that may not be null makes the whole answer null.\<close>

fun run_calls :: "('sel, 'q) gql \<Rightarrow> env \<Rightarrow> Resolver \<Rightarrow> ctx \<Rightarrow> ('sel cfield \<times> call) list
    \<Rightarrow> (exec, ('q marshaler \<times> bool) list) gm" where
  "run_calls G E R c [] = retM []"
| "run_calls G E R c ((f, k) # cs) =
     bindM (perform G E R c f k) (\<lambda>v.
     bindM (run_calls G E R c cs) (\<lambda>vs.
     retM ((v, v = Null \<and> call_name k \<noteq> ''createAccountExec'') # vs)))"

definition asks_for :: "('sel, 'q) gql \<Rightarrow> 'sel cfield \<Rightarrow> call \<Rightarrow> bool" where
  "asks_for G f k \<longleftrightarrow> cf_Name f = call_name k \<and> map_of (cf_ArgumentMap f) = map_of (call_args k) \<and>
     (call_name k = ''createAccountExec'' \<longrightarrow> list_all (\<lambda>g. cf_Name g \<in> {''__typename'', ''hash'', ''secret''})
        (CollectFields G (cf_Selections f) [''CreateAccountExec'']))"

text \<open>One request to the server, whatever it carries and whatever the environment does.\<close>

inductive http_step :: "('sel, 'q) gql \<Rightarrow> libs \<Rightarrow> Resolver \<Rightarrow> string \<Rightarrow> world \<Rightarrow> http_request \<Rightarrow> world \<Rightarrow> bool"
  for G L R admin where
  handled: "e_libs E = L \<Longrightarrow>
    ServeHTTP L (e_pg E) rand \<lparr>am_srv = graphql_srv G T avg E R, am_adminSecret = admin\<rparr> r w = (res, w') \<Longrightarrow>
    http_step G L R admin w r w'"

inductive_cases http_stepE: "http_step G L R admin w r w'"

text \<open>
  What allows a transaction: its target is the factory, or it goes through the safety router
  for the account of an address whose secret came with a request.
\<close>

definition justified :: "libs \<Rightarrow> Resolver \<Rightarrow> db \<Rightarrow> http_request list \<Rightarrow> signed_tx \<Rightarrow> bool" where
  "justified L R d rs t \<longleftrightarrow>
     dft_To (stx_Tx t) = r_AccountsFactoryAddr R \<or>
     (dft_To (stx_Tx t) = r_SafetyRouterAddr R \<and>
      (\<exists>r e b. r \<in> set rs \<and> credentials L (req_Authorization r) = Some (e, b) \<and> accepted d e b \<and>
         take 32 (dft_Data (stx_Tx t)) = zeros 12 @ GetClientAddr L (r_AccountsFactoryAddr R) e))"

text \<open>An instance: selections as trees, everything else as documented.\<close>

datatype selection = Selection "(string \<times> string \<times> raw_args \<times> selection) list"

definition ref_gql :: "(selection, nat) gql" where
  "ref_gql = \<lparr>
     UnmarshalString = UnmarshalString ref_inputs, UnmarshalInt32 = UnmarshalInt32 ref_inputs,
     UnmarshalBoolean = UnmarshalBoolean ref_inputs, CoerceList = CoerceList ref_inputs,
     ErrorOnPath = ErrorOnPath ref_inputs, ProcessArgField = ProcessArgField ref_inputs,
     CollectFields = (\<lambda>s impl. case s of Selection xs \<Rightarrow>
       map (\<lambda>(n, a, r, t). \<lparr>cf_Name = n, cf_Alias = a, cf_ArgumentMap = r, cf_Selections = t\<rparr>) xs),
     ResolveField = (\<lambda>f init resolve marsh rec nn x. case init x of
       (Ok args, y) \<Rightarrow> (case (case resolve args y of
            (Ok v, z) \<Rightarrow> marsh (cf_Selections f) v z
          | (Err e, z) \<Rightarrow> (Ok Null, add_error e z)
          | (Panic q, z) \<Rightarrow> (Panic q, z)
          | (Exit e, z) \<Rightarrow> (Exit e, z)) of
            (Panic q, u) \<Rightarrow> (Ok Null, add_error ''internal system error'' u)
          | r \<Rightarrow> r)
     | (Err e, y) \<Rightarrow> (Ok Null, y)
     | (Panic q, y) \<Rightarrow> (Panic q, y)
     | (Exit e, y) \<Rightarrow> (Exit e, y)),
     MarshalString = MString, MarshalBoolean = MBool, MarshalInt32 = MInt, MarshalFloatContext = MFloat,
     Recover = (\<lambda>_. ''internal system error''), HasFieldError = (\<lambda>p es. es \<noteq> []),
     RootResolverMiddleware = (\<lambda>m. m), Schedule = (\<lambda>is. is),
     MarshalSliceConcurrently = (\<lambda>n el. run_order [0..<n] el (replicate n NilMarshaler)), Introspect = (\<lambda>f. retM Null)\<rparr>"

definition ref_selection :: selection where
  "ref_selection = Selection [(''createAccountExec'', ''made'', any_createAccountExec ref_create_args None None,
     Selection [(''secret'', ''key'', [], Selection [])])]"

definition ref_transport :: "(selection, nat) transport" where
  "ref_transport = \<lparr>t_Parse = (\<lambda>r. Inr (OpMutation, ref_selection)),
     t_Write = (\<lambda>resp es. \<lparr>rep_Headers = [], rep_Status = 200, rep_Body = []\<rparr>),
     t_Panic = (\<lambda>e. \<lparr>rep_Headers = [], rep_Status = 500, rep_Body = e\<rparr>)\<rparr>"

section \<open>Lemmas\<close>

lemma x_world_add_error [simp]: "x_world (add_error e x) = x_world x"
  by (simp add: add_error_def)

lemma gql_okD:
  assumes "gql_ok G"
  shows "inputs_ok G" "ResolveField G f init resolve marsh True nn = resolve_spec G f init resolve marsh"
    "MarshalString G s = MString s" "MarshalBoolean G b = MBool b" "MarshalInt32 G i = MInt i"
    "MarshalFloatContext G q = MFloat q" "RootResolverMiddleware G m = m" "mset (Schedule G is) = mset is"
    "x_world (snd (Introspect G f x)) = x_world x"
    "(\<And>i. world_same (el i)) \<Longrightarrow> world_same (MarshalSliceConcurrently G n el)"
    "(\<And>i. i < n \<Longrightarrow> el i = retM (v i)) \<Longrightarrow> MarshalSliceConcurrently G n el = retM (map v [0..<n])"
  using assms unfolding gql_ok_def by simp_all

lemma bindM_retM [simp]: "bindM (retM x) f = f x"
  by (rule ext) (simp add: bindM_def)

lemma bindM_assoc: "bindM (bindM m f) g = bindM m (\<lambda>x. bindM (f x) g)"
  by (rule ext) (auto simp: bindM_def split: prod.splits res.splits)

lemma bindM_retM_right: "bindM m retM = m"
  by (rule ext) (auto simp: bindM_def split: prod.splits res.splits)

lemma root_field_ok: "gql_ok G \<Longrightarrow> root_field G m = m"
  unfolding root_field_def by (simp only: gql_okD(7) bindM_assoc bindM_retM prod.case bindM_retM_right)

lemma footprint_lifted:
  assumes "footprint K" shows "footprint (lifted K)"
  using assms unfolding footprint_def lifted_def by blast

lemma keeps_on_world: "keeps K m \<Longrightarrow> keeps (lifted K) (on_world m)"
  by (simp add: keeps_def lifted_def on_world_def case_prod_unfold)

lemma world_same_keeps: "world_same m \<Longrightarrow> (\<And>w. K w w) \<Longrightarrow> keeps (lifted K) m"
  by (simp add: world_same_def keeps_def lifted_def)

lemma world_same_iff: "world_same m \<longleftrightarrow> keeps (lifted (=)) m"
  by (auto simp: world_same_def keeps_def lifted_def)

interpretation same_fp: footprint "(=) :: world \<Rightarrow> world \<Rightarrow> bool"
  by unfold_locales simp_all

interpretation ro_fp: footprint "lifted (=)"
  by unfold_locales (simp_all add: lifted_def)

lemma keeps_resolve_spec:
  assumes "footprint K" and "keeps (lifted K) init" and "\<And>a. keeps (lifted K) (resolve a)"
    and "\<And>s v. keeps (lifted K) (marsh s v)"
  shows "keeps (lifted K) (resolve_spec G f init resolve marsh)"
  unfolding keeps_def
proof
  fix x
  have refl: "lifted K y y" and trans: "lifted K x y \<Longrightarrow> lifted K y z \<Longrightarrow> lifted K x z" for x y z
    using footprint_lifted [OF assms(1)] unfolding footprint_def by blast+
  have add: "lifted K y (add_error e y)" for e y using refl [of y] by (simp add: lifted_def)
  obtain i y where i: "init x = (i, y)" by (cases "init x")
  have xy: "lifted K x y" using assms(2) i by (metis keeps_def snd_conv)
  show "lifted K x (snd (resolve_spec G f init resolve marsh x))"
  proof (cases i)
    case (Ok a)
    obtain r z where r: "resolve a y = (r, z)" by (cases "resolve a y")
    have yz: "lifted K y z" using assms(3) r by (metis keeps_def snd_conv)
    obtain q u where q: "marsh (cf_Selections f) v z = (q v, u v)" for v
      using that [of "\<lambda>v. fst (marsh (cf_Selections f) v z)" "\<lambda>v. snd (marsh (cf_Selections f) v z)"] by simp
    have zu: "lifted K z (u v)" for v using assms(4) q by (metis keeps_def snd_conv)
    have xz: "lifted K x z" "lifted K x (add_error e z)" for e
      using trans [OF xy yz] trans [OF _ add] by blast+
    then have "lifted K x (u v)" "lifted K x (add_error e (u v))" for e v
      using trans [OF xz(1) zu] trans [OF _ add] by blast+
    with xz show ?thesis
      using i Ok r q by (cases r) (auto simp: resolve_spec_def recovered_def split: res.splits)
  qed (use i xy in \<open>simp_all add: resolve_spec_def\<close>)
qed

lemma world_same_simps:
  "world_same (retM v)" "world_same (liftR r)" "world_same (non_null G p m)" "world_same (decode_args G dec p f)"
  by (auto simp: world_same_def non_null_def decode_args_def split: res.splits)

lemma world_same_bindM: "world_same m \<Longrightarrow> (\<And>v. world_same (f v)) \<Longrightarrow> world_same (bindM m f)"
  unfolding world_same_iff by (rule ro_fp.keeps_bindM)

lemma world_same_resolve:
  assumes "world_same init" "\<And>a. world_same (resolve a)" "\<And>s v. world_same (marsh s v)"
  shows "world_same (resolve_spec G f init resolve marsh)"
  using assms unfolding world_same_iff by (intro keeps_resolve_spec same_fp.footprint_axioms)

lemma world_same_valued: "world_same m \<Longrightarrow> world_same (valued m bad)"
  unfolding valued_def by (intro world_same_bindM world_same_simps)

lemma world_same_each: "(\<And>f. world_same (h f)) \<Longrightarrow> world_same (each_field h fs)"
  by (induction fs) (auto intro: world_same_bindM world_same_simps)

lemma world_same_run: "(\<And>i. world_same (task i)) \<Longrightarrow> world_same (run_order is task vs)"
  by (induction "is" arbitrary: vs) (auto intro: world_same_bindM world_same_simps)

lemma world_same_unknown: "world_same (unknown_field f)"
  by (simp add: unknown_field_def world_same_simps)

lemma world_same_if: "world_same m \<Longrightarrow> world_same n \<Longrightarrow> world_same (if b then m else n)"
  by simp

lemmas world_same_marshal = marshalNString2string_def marshalNBoolean2bool_def marshalNInt2int32_def marshalNFloat2float64_def

lemma world_same_as:
  "world_same (as_string (marshalNString2string G p) v)" "world_same (as_bool (marshalNBoolean2bool G p) v)"
  "world_same (as_int (marshalNInt2int32 G p) v)" "world_same (as_float (marshalNFloat2float64 G p) v)"
  by (cases v; simp add: world_same_simps world_same_marshal)+

lemma world_same_plain:
  assumes "gql_ok G" and "\<And>v. world_same (marsh v)"
  shows "world_same (plain_field G f v marsh)"
  unfolding plain_field_def gql_okD(2) [OF assms(1)]
  by (intro world_same_resolve world_same_simps assms(2))

lemma world_same_objects:
  assumes "gql_ok G"
  shows "world_same (object_CreateAccountExec G p sel a)" "world_same (object_Statistics G p sel s)"
  unfolding object_CreateAccountExec_def object_Statistics_def Let_def CreateAccountExec_hash_def
    CreateAccountExec_secret_def Statistics_action_def Statistics_avgGasLimit24Hours_def Statistics_avgGasLimitWeek_def
    Statistics_avgGasLimitAllTime_def Statistics_tx24Hours_def Statistics_txWeek_def Statistics_txAllTime_def
  by (intro world_same_bindM world_same_each world_same_if world_same_valued world_same_plain [OF assms]
      world_same_as world_same_simps world_same_unknown)+

lemma world_same_lists:
  assumes "gql_ok G"
  shows "world_same (marshalOCreateAccountExec G p sel v)" "world_same (marshalOStatistics G p sel v)"
proof -
  show "world_same (marshalOCreateAccountExec G p sel v)"
    by (cases "(G, p, sel, v)" rule: marshalOCreateAccountExec.cases)
      (simp_all add: world_same_simps world_same_objects [OF assms])
  show "world_same (marshalOStatistics G p sel v)"
    by (cases "(G, p, sel, v)" rule: marshalOStatistics.cases)
      (auto intro!: world_same_bindM gql_okD(10) [OF assms] simp: world_same_simps world_same_objects [OF assms])
qed

lemma keeps_read: "keeps (=) (on_db (exec_stmt P q (\<lambda>d. (Ok (g d), d))))"
  by (simp add: keeps_def on_db_def exec_stmt_def split: option.splits)

lemma queries_keep: "keeps (=) (HasCreated E a)" "keeps (=) (Statistics avg E)"
  unfolding HasCreated_def Statistics_def wrapM_def
  by (intro same_fp.keeps_bindM same_fp.keeps_catchM same_fp.keeps_retM same_fp.keeps_liftR keeps_read)+

lemma resolver_Ok: "resolver con (Ok m) = bindM (on_world m) (\<lambda>v. retM (con v))"
  by (rule ext) (simp add: resolver_def bindM_def)

lemma world_same_resolver:
  assumes "\<And>m. call = Ok m \<Longrightarrow> keeps (=) m" shows "world_same (resolver con call)"
proof (cases call)
  case (Ok m)
  then have "keeps (lifted (=)) (on_world m)" using assms by (intro keeps_on_world)
  then show ?thesis unfolding Ok resolver_Ok world_same_iff by (rule ro_fp.keeps_bindM) (rule ro_fp.keeps_retM)
qed (simp_all add: resolver_def world_same_def bindM_def)

lemma same_world_keeps: "keeps (=) (liftR r :: (world, 'a) gm)"
  by (rule same_fp.keeps_liftR)

lemma world_same_recovering: "world_same m \<Longrightarrow> world_same (recovering G m)"
  by (auto simp: world_same_def recovering_def split: prod.splits res.splits) (metis snd_conv)+

lemma world_same_query:
  assumes "gql_ok G"
  shows "world_same (delayed_query G avg E R f)"
  unfolding delayed_query_def gql_okD(7) [OF assms] Query_publickey_def Query_eoaForAddress_def Query_hasCreated_def
    Query_statistics_def gql_okD(2) [OF assms] fieldContext_Query_eoaForAddress_def fieldContext_Query_hasCreated_def
  by (intro world_same_recovering world_same_if world_same_valued world_same_resolve world_same_simps world_same_as
      world_same_lists [OF assms] world_same_resolver) (auto intro: queries_keep same_world_keeps)

lemma world_same_root_Query:
  assumes "gql_ok G" shows "world_same (root_Query G avg E R sel)"
proof -
  have "world_same (Introspect G f)" for f using gql_okD(9) [OF assms] by (simp add: world_same_def)
  then show ?thesis
    unfolding root_Query_def Let_def root_field_ok [OF assms]
    by (intro world_same_bindM world_same_each world_same_run world_same_if world_same_valued world_same_simps
        world_same_unknown world_same_query [OF assms])
qed

subsection \<open>What every operation keeps\<close>

text \<open>
  A footprint of the four mutations is one of the whole server behind the middleware: what
  no single resolver may do, no operation does, whatever it selects and however it fails.
\<close>

locale served = footprint K
  for K :: "world \<Rightarrow> world \<Rightarrow> bool" +
  fixes E :: env and V :: Resolver and c :: ctx
  assumes create_keeps: "keeps K (CreateAccountExec E V c ca mint dry)"
    and request_keeps: "keeps K (RequestSecret E V c a nonce v r s dry)"
    and mint_keeps: "keeps K (NinelivesMint E V c m dry)"
    and claim_keeps: "keeps K (ClaimRewards E V c markets msTs dry)"

sublocale served \<subseteq> lifted_fp: footprint "lifted K"
  by (rule footprint_lifted) (rule footprint_axioms)

context served
begin

lemma same_keeps: "world_same m \<Longrightarrow> keeps (lifted K) m"
  by (erule world_same_keeps) (rule refl)

lemma resolver_keeps:
  assumes "\<And>m. call = Ok m \<Longrightarrow> keeps K m" shows "keeps (lifted K) (resolver con call)"
proof (cases call)
  case (Ok m)
  then have "keeps (lifted K) (on_world m)" using assms by (intro keeps_on_world)
  then show ?thesis unfolding Ok resolver_Ok by (rule lifted_fp.keeps_bindM) (rule lifted_fp.keeps_retM)
qed (simp_all add: resolver_def keeps_def bindM_def lifted_fp.refl)

lemma fields_keep:
  assumes gql: "gql_ok G"
  shows "keeps (lifted K) (Mutation_createAccountExec G E V c p f)"
    "keeps (lifted K) (Mutation_requestSecret G E V c p f)"
    "keeps (lifted K) (Mutation_ninelivesMint G E V c p f)"
    "keeps (lifted K) (Mutation_claimRewards G E V c p f)"
  unfolding Mutation_createAccountExec_def Mutation_requestSecret_def Mutation_ninelivesMint_def Mutation_claimRewards_def
    gql_okD(2) [OF gql] fieldContext_Mutation_createAccountExec_def fieldContext_Mutation_requestSecret_def
    fieldContext_Mutation_ninelivesMint_def fieldContext_Mutation_claimRewards_def
  by (intro keeps_resolve_spec footprint_axioms same_keeps world_same_simps world_same_as world_same_lists gql resolver_keeps;
      auto simp: create_keeps request_keeps mint_keeps claim_keeps)+

lemma valued_keeps: "keeps (lifted K) m \<Longrightarrow> keeps (lifted K) (valued m bad)"
  unfolding valued_def by (intro lifted_fp.keeps_bindM lifted_fp.keeps_retM)

lemma each_keeps: "(\<And>f. keeps (lifted K) (h f)) \<Longrightarrow> keeps (lifted K) (each_field h fs)"
  by (induction fs) (auto intro: lifted_fp.keeps_bindM lifted_fp.keeps_retM)

lemma mutation_keeps:
  assumes gql: "gql_ok G" shows "keeps (lifted K) (root_Mutation G E V c sel)"
  unfolding root_Mutation_def mutation_field_def [abs_def] Let_def root_field_ok [OF gql]
  by (intro lifted_fp.keeps_bindM each_keeps keeps_if valued_keeps fields_keep [OF gql] lifted_fp.keeps_retM
      same_keeps [OF world_same_unknown])

lemma exec_keeps:
  assumes gql: "gql_ok G" shows "keeps (lifted K) (Exec G avg E V c op sel first)"
  unfolding Exec_def write_data_def [abs_def]
  by (cases op) (auto intro!: lifted_fp.keeps_bindM lifted_fp.keeps_retM lifted_fp.keeps_liftR mutation_keeps [OF gql]
      same_keeps [OF world_same_root_Query [OF gql]] keeps_if)

lemma srv_keeps:
  assumes gql: "gql_ok G" shows "keeps K (graphql_srv G T avg E V c r)"
  unfolding keeps_def graphql_srv_def
proof
  fix w
  show "K w (snd (case t_Parse T r of Inl rep \<Rightarrow> (Ok rep, w)
      | Inr (op, sel) \<Rightarrow> (case Exec G avg E V c op sel True \<lparr>x_world = w, x_errors = []\<rparr> of
         (Ok resp, x) \<Rightarrow> (Ok (t_Write T resp (x_errors x)), x_world x)
       | (Err e, x) \<Rightarrow> (Ok (t_Panic T e), x_world x)
       | (Panic q, x) \<Rightarrow> (Ok (t_Panic T q), x_world x)
       | (Exit e, x) \<Rightarrow> (Exit e, x_world x))))"
  proof (cases "t_Parse T r")
    case (Inr os)
    obtain op sel where os: "os = (op, sel)" by (cases os)
    obtain res x where x: "Exec G avg E V c op sel True \<lparr>x_world = w, x_errors = []\<rparr> = (res, x)"
      by (cases "Exec G avg E V c op sel True \<lparr>x_world = w, x_errors = []\<rparr>")
    have "K w (x_world x)" using lifted_fp.keepsD [OF exec_keeps [OF gql] x] by (simp add: lifted_def)
    then show ?thesis using Inr os x by (cases res) simp_all
  qed (simp add: refl)
qed

end

subsection \<open>The transactions of a request\<close>

interpretation schema_srv: served within_db E V c for E V c
  by unfold_locales (rule handlers_within_db)+

lemma owner_txs_refl: "owner_txs L R c w w"
  by (auto simp: owner_txs_def intro: exI [of _ "[]"])

lemma owner_txs_trans: "owner_txs L R c w w' \<Longrightarrow> owner_txs L R c w' w'' \<Longrightarrow> owner_txs L R c w w''"
  by (auto simp: owner_txs_def)

lemma owner_no_send: "keeps no_send m \<Longrightarrow> keeps (owner_txs L R c) m"
  by (auto simp: keeps_def no_send_def owner_txs_def intro: exI [of _ "[]"])

text \<open>The two ways the resolvers send.\<close>

lemma owner_send:
  assumes "geth_ok L" and "length to = 20"
    and "if use then ctx_authed c = Some True \<and> ctx_eoa c = Some e \<and> router = r_SafetyRouterAddr R \<and>
        to = GetClientAddr L (r_AccountsFactoryAddr R) e
      else to = r_AccountsFactoryAddr R"
  shows "keeps (owner_txs L R c) (on_chain (SendArguments L N router use chainId key sender to args dry))"
  unfolding keeps_def
proof
  fix w :: world
  obtain r s where s: "SendArguments L N router use chainId key sender to args dry (w_sent w) = (r, s)"
    by (cases "SendArguments L N router use chainId key sender to args dry (w_sent w)")
  have "\<exists>l. s = w_sent w @ l \<and> list_all (allowed_tx L R c) l"
  proof (cases "\<not> dry \<and> is_ok r")
    case True
    then obtain t b where "s = w_sent w @ [t]" "dft_To (stx_Tx t) = (if use then router else to)"
        "dft_Data (stx_Tx t) = (if use then zeros 12 @ to @ b else b)"
      using SendArguments_sent [OF assms(1,2) s] by fastforce
    then show ?thesis using assms(2,3) by (cases use) (auto simp: allowed_tx_def)
  next
    case False
    then have "s = w_sent w" using send_args.effect [OF s] by blast
    then show ?thesis by (intro exI [of _ "[]"]) simp
  qed
  then show "owner_txs L R c w (snd (on_chain (SendArguments L N router use chainId key sender to args dry) w))"
    using s by (simp add: on_chain_def owner_txs_def)
qed

interpretation owner_fp: footprint "owner_txs L R c" for L R c
  by unfold_locales (rule owner_txs_refl, erule (1) owner_txs_trans)

lemmas owner_intros = owner_fp.keeps_bindM owner_fp.keeps_catchM owner_fp.keeps_liftR owner_fp.keeps_retM
  no_send_calls [THEN owner_no_send] keeps_cases

lemma create_owner:
  assumes "geth_ok (e_libs E)" "length (r_AccountsFactoryAddr R) = 20"
  shows "keeps (owner_txs (e_libs E) R c) (CreateAccountExec E R c ca mint dry)"
  unfolding CreateAccountExec_def Let_def
  by (intro owner_intros owner_send [OF assms]) simp

lemma mint_owner:
  assumes "geth_ok (e_libs E)"
  shows "keeps (owner_txs (e_libs E) R c) (NinelivesMint E R c m dry)"
proof (cases "ctx_authed c = Some True \<and> ctx_eoa c \<noteq> None")
  case True
  then obtain e where e: "ctx_authed c = Some True" "ctx_eoa c = Some e" by auto
  show ?thesis
    unfolding NinelivesMint_def Let_def e(2) option.case bindM_retM
    by (intro owner_intros owner_send [OF assms length_GetClientAddr [OF assms]]) (use e in simp)
next
  case False
  then show ?thesis using mint_unauthed [of c E R m dry] owner_txs_refl unfolding keeps_def by (metis snd_conv)
qed

lemma claim_owner:
  assumes "geth_ok (e_libs E)"
  shows "keeps (owner_txs (e_libs E) R c) (ClaimRewards E R c markets msTs dry)"
proof (cases "ctx_authed c = Some True \<and> ctx_eoa c \<noteq> None")
  case True
  then obtain e where e: "ctx_authed c = Some True" "ctx_eoa c = Some e" by auto
  show ?thesis
    unfolding ClaimRewards_def Let_def e(2) option.case bindM_retM
    by (intro owner_intros owner_send [OF assms length_GetClientAddr [OF assms]]) (use e in simp)
next
  case False
  then show ?thesis using claim_unauthed [of c E R markets msTs dry] owner_txs_refl unfolding keeps_def by (metis snd_conv)
qed

lemma keeps_owner_served:
  "(geth_ok (e_libs E) \<Longrightarrow> length (r_AccountsFactoryAddr R) = 20 \<Longrightarrow> keeps (owner_txs (e_libs E) R c) m) \<Longrightarrow>
     keeps (owner_served E R c) m"
  by (auto simp: keeps_def owner_served_def)

interpretation owner_srv: served "owner_served E V c" E V c for E V c
proof
  show "owner_served E V c w w" for w by (simp add: owner_served_def owner_txs_refl)
  show "owner_served E V c w u \<Longrightarrow> owner_served E V c u z \<Longrightarrow> owner_served E V c w z" for w u z
    by (auto simp: owner_served_def intro: owner_txs_trans)
qed (rule keeps_owner_served, simp add: create_owner mint_owner claim_owner owner_no_send [OF requests_no_send])+

subsection \<open>What a mutation does\<close>

lemma run_order_values:
  assumes "\<And>i. i < n \<Longrightarrow> el i = retM (v i)" and "length vs = n" and "k \<le> n"
  shows "run_order [k..<n] el vs = retM (take k vs @ map v [k..<n])"
  using assms(2,3)
proof (induction "n - k" arbitrary: k vs)
  case (Suc m)
  then have k: "k < n" "[k..<n] = k # [Suc k..<n]" by (simp_all add: upt_conv_Cons)
  have "run_order [Suc k..<n] el (vs[k := v k]) = retM (take (Suc k) (vs[k := v k]) @ map v [Suc k..<n])"
    by (rule Suc.hyps(1)) (use Suc.hyps(2) Suc.prems k in simp_all)
  moreover have "take (Suc k) (vs[k := v k]) = take k vs @ [v k]"
    using Suc.prems k by (simp add: take_Suc_conv_app_nth)
  ultimately show ?case unfolding k(2) run_order.simps assms(1) [OF k(1)] bindM_retM by simp
qed simp

lemma ref_gql_ok: "gql_ok ref_gql"
proof -
  have "inputs_ok ref_gql" using ref_inputs_ok by (simp add: inputs_ok_def ref_gql_def)
  moreover have "ResolveField ref_gql f init resolve marsh True nn = resolve_spec ref_gql f init resolve marsh"
    for f init resolve marsh nn
    by (rule ext) (simp add: ref_gql_def resolve_spec_def recovered_def split: res.split prod.split)
  moreover have "MarshalString ref_gql = MString" "MarshalBoolean ref_gql = MBool" "MarshalInt32 ref_gql = MInt"
    "MarshalFloatContext ref_gql = MFloat" "RootResolverMiddleware ref_gql = (\<lambda>m. m)" "Schedule ref_gql = (\<lambda>is. is)"
    "Introspect ref_gql = (\<lambda>f. retM Null)"
    "MarshalSliceConcurrently ref_gql = (\<lambda>n el. run_order [0..<n] el (replicate n NilMarshaler))"
    by (simp_all add: ref_gql_def)
  moreover have "run_order [0..<n] el (replicate n NilMarshaler) = retM (map v [0..<n])"
    if "\<forall>i<n. el i = retM (v i)" for n el v
    using that run_order_values [of n el v "replicate n NilMarshaler" 0] by simp
  ultimately show ?thesis unfolding gql_ok_def by (intro conjI allI impI) (simp_all add: world_same_run)
qed

lemma marshal_strings:
  assumes "gql_ok G"
  shows "marshalNString2string G p s = retM (MString s)"
  by (rule ext) (simp add: marshalNString2string_def non_null_def gql_okD [OF assms])

text \<open>A field whose arguments decode to a call of a resolver.\<close>

lemma resolved_field:
  assumes "dec (p @ [cf_Alias f]) (cf_ArgumentMap f) = Ok args" and "call args = Ok m"
    and "\<And>v. marsh (cf_Selections f) (con v) = retM (shown v)"
  shows "resolve_spec G f (decode_args G dec p f) (\<lambda>args. resolver con (call args)) marsh = field_result G shown m"
proof
  fix x :: exec
  obtain r w where m: "m (x_world x) = (r, w)" by (cases "m (x_world x)")
  show "resolve_spec G f (decode_args G dec p f) (\<lambda>args. resolver con (call args)) marsh x = field_result G shown m x"
    using assms m
    by (cases r) (simp_all add: resolve_spec_def recovered_def decode_args_def resolver_Ok field_result_def
        on_world_def bindM_def)
qed

lemma create_object_shown:
  assumes "gql_ok G" and "list_all (\<lambda>g. cf_Name g \<in> {''__typename'', ''hash'', ''secret''}) (CollectFields G sel [''CreateAccountExec''])"
  shows "object_CreateAccountExec G p sel v = retM (create_object (CollectFields G sel [''CreateAccountExec'']) v)"
proof -
  let ?h = "\<lambda>f. if cf_Name f = ''__typename'' then retM (MarshalString G ''CreateAccountExec'', False)
        else if cf_Name f = ''hash'' then valued (CreateAccountExec_hash G p f v) Null
        else if cf_Name f = ''secret'' then valued (CreateAccountExec_secret G p f v) Null
        else unknown_field f"
  let ?g = "\<lambda>f. MString (if cf_Name f = ''__typename'' then ''CreateAccountExec''
      else if cf_Name f = ''hash'' then cae_Hash v else cae_Secret v)"
  have plain: "plain_field G f (GvString s) (as_string (marshalNString2string G q)) = retM (MString s)" for f s q
    by (rule ext) (simp add: plain_field_def gql_okD(2) [OF assms(1)] resolve_spec_def recovered_def
        marshal_strings [OF assms(1)])
  have one: "?h f = retM (?g f, False)" if "cf_Name f \<in> {''__typename'', ''hash'', ''secret''}" for f
    using that by (simp only: insert_iff empty_iff) (elim disjE FalseE; rule ext; simp add: gql_okD(3) [OF assms(1)]
        CreateAccountExec_hash_def CreateAccountExec_secret_def plain valued_def)
  have "each_field ?h fs = retM (map (\<lambda>f. (?g f, False)) fs)"
    if "list_all (\<lambda>g. cf_Name g \<in> {''__typename'', ''hash'', ''secret''}) fs" for fs
    using that
  proof (induction fs)
    case (Cons f fs)
    have h: "?h f = retM (?g f, False)" by (rule one) (use Cons.prems in simp)
    have t: "each_field ?h fs = retM (map (\<lambda>f. (?g f, False)) fs)" by (rule Cons.IH) (use Cons.prems in simp)
    show ?case unfolding each_field.simps h t by (simp only: bindM_retM list.map)
  qed simp
  note all = this [OF assms(2)]
  show ?thesis
    unfolding object_CreateAccountExec_def Let_def all bindM_retM
    by (simp add: field_set_def create_object_def list_ex_iff zip_map_map zip_same_conv_map comp_def)
qed

lemma field_performs:
  assumes "gql_ok G" and "asks_for G f k"
  shows "k = CallCreate a m dry \<Longrightarrow> Mutation_createAccountExec G E R c p f = perform G E R c f k"
    "k = CallRequest b n v r s dry \<Longrightarrow> Mutation_requestSecret G E R c p f = perform G E R c f k"
    "k = CallMint x dry \<Longrightarrow> Mutation_ninelivesMint G E R c p f = perform G E R c f k"
    "k = CallClaim ms t dry \<Longrightarrow> Mutation_claimRewards G E R c p f = perform G E R c f k"
proof -
  note dec = mutation_args_decode [OF gql_okD(1) [OF assms(1)]]
  have w: "map_of (cf_ArgumentMap f) = map_of (call_args k)"
    using assms(2) by (simp add: asks_for_def)
  have str: "as_string (marshalNString2string G q) (GvString u) = retM (MString u)" for q u
    by (simp only: as_string.simps marshal_strings [OF assms(1)])
  note read = the_account_def the_mint_ptr_def the_bool_def the_string_def the_int_def the_mint_def the_strings_def
  show "Mutation_createAccountExec G E R c p f = perform G E R c f k" if k: "k = CallCreate a m dry"
    unfolding k perform.simps Mutation_createAccountExec_def gql_okD(2) [OF assms(1)] fieldContext_Mutation_createAccountExec_def
  proof (rule resolved_field)
    show "field_Mutation_createAccountExec_args G (p @ [cf_Alias f]) (cf_ArgumentMap f) =
        Ok [(''createAccount'', ArgCreateAccount a), (''mint'', ArgMintPtr m), (''dryrun'', ArgBoolPtr dry)]"
      by (rule dec) (use w k in simp)
  qed (use assms(2) k in \<open>simp_all only: marshalOCreateAccountExec.simps asks_for_def create_object_shown [OF assms(1)] call_name.simps\<close>, simp add: read)
  show "Mutation_requestSecret G E R c p f = perform G E R c f k" if "k = CallRequest b n v r s dry"
    unfolding that perform.simps Mutation_requestSecret_def gql_okD(2) [OF assms(1)] fieldContext_Mutation_requestSecret_def
  proof (rule resolved_field)
    show "field_Mutation_requestSecret_args G (p @ [cf_Alias f]) (cf_ArgumentMap f) =
        Ok [(''eoa_addr'', ArgString b), (''nonce'', ArgInt n), (''sigV'', ArgInt v), (''sigR'', ArgString r),
            (''sigS'', ArgString s), (''dryrun'', ArgBoolPtr dry)]"
      by (rule dec) (use w that in simp)
  qed (simp_all only: str, simp add: read)
  show "Mutation_ninelivesMint G E R c p f = perform G E R c f k" if "k = CallMint x dry"
    unfolding that perform.simps Mutation_ninelivesMint_def gql_okD(2) [OF assms(1)] fieldContext_Mutation_ninelivesMint_def
  proof (rule resolved_field)
    show "field_Mutation_ninelivesMint_args G (p @ [cf_Alias f]) (cf_ArgumentMap f) =
        Ok [(''mint'', ArgMint x), (''dryrun'', ArgBoolPtr dry)]"
      by (rule dec) (use w that in simp)
  qed (simp_all only: str, simp add: read)
  show "Mutation_claimRewards G E R c p f = perform G E R c f k" if "k = CallClaim ms t dry"
    unfolding that perform.simps Mutation_claimRewards_def gql_okD(2) [OF assms(1)] fieldContext_Mutation_claimRewards_def
  proof (rule resolved_field)
    show "field_Mutation_claimRewards_args G (p @ [cf_Alias f]) (cf_ArgumentMap f) =
        Ok [(''markets'', ArgStrings ms), (''msTs'', ArgString t), (''dryrun'', ArgBoolPtr dry)]"
      by (rule dec) (use w that in simp)
  qed (simp_all only: str, simp add: read)
qed

lemma mutation_field_performs:
  assumes "gql_ok G" and "asks_for G f k"
  shows "mutation_field G E R c f =
    valued (perform G E R c f k) (if call_name k = ''createAccountExec'' then RequiredNull else Null)"
  using assms(2) field_performs [OF assms, where p = "[]" and E = E and R = R and c = c]
  by (cases k) (simp_all add: asks_for_def mutation_field_def root_field_ok [OF assms(1)])

lemma perform_valued:
  "valued (perform G E R c f k) (if call_name k = ''createAccountExec'' then RequiredNull else Null) =
     bindM (perform G E R c f k) (\<lambda>v. retM (v, v = Null \<and> call_name k \<noteq> ''createAccountExec''))"
proof (rule ext)
  fix x :: exec
  have "v \<noteq> RequiredNull" if "perform G E R c f k x = (Ok v, y)" for v y
    using that by (cases k) (auto simp: field_result_def create_object_def split: prod.splits res.splits)
  then show "valued (perform G E R c f k) (if call_name k = ''createAccountExec'' then RequiredNull else Null) x =
      bindM (perform G E R c f k) (\<lambda>v. retM (v, v = Null \<and> call_name k \<noteq> ''createAccountExec'')) x"
    by (auto simp: valued_def bindM_def split: prod.splits res.splits)
qed

text \<open>The field that fails and its place: an error of the resolver becomes one null.\<close>

lemma root_Mutation_runs:
  assumes "gql_ok G" and "list_all2 (asks_for G) (CollectFields G sel [''Mutation'']) calls"
  shows "root_Mutation G E R c sel =
    bindM (run_calls G E R c (zip (CollectFields G sel [''Mutation'']) calls))
      (\<lambda>vs. retM (field_set (CollectFields G sel [''Mutation'']) vs))"
proof -
  have "each_field (mutation_field G E R c) fs = run_calls G E R c (zip fs calls)" if "list_all2 (asks_for G) fs calls" for fs
    using that
  proof (induction rule: list_all2_induct)
    case (Cons f fs k calls)
    show ?case
      unfolding each_field.simps zip_Cons_Cons run_calls.simps mutation_field_performs [OF assms(1) Cons(1)] perform_valued
        Cons.IH bindM_assoc bindM_retM ..
  qed simp
  from this [OF assms(2)] show ?thesis unfolding root_Mutation_def Let_def by simp
qed

subsection \<open>Requests and their histories\<close>

text \<open>The middleware leaves the world alone, or passes the request on with what it has checked.\<close>

lemma ServeHTTP_passes:
  assumes "geth_ok L" and "ServeHTTP L P rand a r w = (res, w')"
  obtains (same) "w' = w"
  | (guest) c where "ctx_authed c = None" "snd (am_srv a c r w) = w'"
  | (owner) e b where "credentials L (req_Authorization r) = Some (e, b)" "accepted (w_db w) e b"
      "snd (am_srv a (owner_of rand e) r w) = w'"
proof -
  have under: "snd (under_headers hs m w) = snd (m w)" for hs m
    by (auto simp: under_headers_def bindM_def split: prod.splits res.splits)
  show thesis
  proof (cases "req_Method r = ''OPTIONS'' \<or> req_Authorization r = [] \<or> req_Authorization r = am_adminSecret a")
    case True
    consider "w' = w" | c where "ctx_authed c = None" "snd (under_headers (cors_headers (req_Origin r)) (am_srv a c r) w) = w'"
      using True assms(2)
      by (auto simp: ServeHTTP_def Let_def background_def split: if_splits; metis (no_types, lifting) ctx.select_convs(2) ctx.update_convs(4) snd_conv)
    then show thesis unfolding under by cases (rule same guest; assumption)+
  next
    case False
    show thesis
    proof (cases "credentials L (req_Authorization r)")
      case None
      then show thesis using ServeHTTP_malformed [of r a L P rand w] False assms(2) by (intro same) (simp add: enact_def Let_def)
    next
      case (Some eb)
      obtain e b where eb: "credentials L (req_Authorization r) = Some (e, b)" using Some by (cases eb) simp
      note eq = ServeHTTP_credentials [OF assms(1) _ _ _ eb, of a P rand w]
      show thesis
      proof (cases "pg_fault P (CountSecret (addr_hex e) (hex_encode b)) = None \<and> accepted (w_db w) e b")
        case True
        then have "under_headers (cors_headers (req_Origin r)) (am_srv a (owner_of rand e) r) w = (res, w')"
          using eq assms(2) False by (auto simp: enact_def Let_def)
        then show thesis using owner [OF eb] True under by (metis snd_conv)
      next
        case False': False
        then show thesis using same eq assms(2) False by (auto simp: enact_def Let_def split: option.splits if_splits)
      qed
    qed
  qed
qed

lemma http_step_effect:
  assumes "geth_ok L" and "gql_ok G" and "length (r_AccountsFactoryAddr R) = 20" and "http_step G L R admin w r w'"
  shows "within_db w w'" and "\<exists>l. w_sent w' = w_sent w @ l \<and> list_all (justified L R (w_db w) [r]) l"
proof -
  obtain E T avg rand res where E: "e_libs E = L"
    and srv: "ServeHTTP L (e_pg E) rand \<lparr>am_srv = graphql_srv G T avg E R, am_adminSecret = admin\<rparr> r w = (res, w')"
    using assms(4) by (rule http_stepE)
  have db: "within_db w (snd (graphql_srv G T avg E R c r w))" for c
    using schema_srv.srv_keeps [OF assms(2)] by (simp add: keeps_def)
  have tx: "owner_txs L R c w (snd (graphql_srv G T avg E R c r w))" for c
    using owner_srv.srv_keeps [OF assms(2), of E R c T avg r] assms(1,3) E by (simp add: keeps_def owner_served_def)
  have "within_db w w' \<and> (\<exists>l. w_sent w' = w_sent w @ l \<and> list_all (justified L R (w_db w) [r]) l)"
    using assms(1) srv
  proof (cases rule: ServeHTTP_passes)
    case same
    then show ?thesis using db_fp.refl by simp
  next
    case (guest c)
    then show ?thesis using db [of c] tx [of c] by (auto simp: owner_txs_def allowed_tx_def justified_def list_all_iff)
  next
    case (owner e b)
    then have "within_db w w'" and "owner_txs L R (owner_of rand e) w w'" using db tx by auto
    then obtain l where l: "w_sent w' = w_sent w @ l" "list_all (allowed_tx L R (owner_of rand e)) l" by (auto simp: owner_txs_def)
    have "allowed_tx L R (owner_of rand e) t \<Longrightarrow> justified L R (w_db w) [r] t" for t
      using owner(1,2) by (auto simp: allowed_tx_def justified_def owner_of_def)
    with l have "list_all (justified L R (w_db w) [r]) l" by (auto simp: list_all_iff)
    with l(1) \<open>within_db w w'\<close> show ?thesis by blast
  qed
  then show "within_db w w'" and "\<exists>l. w_sent w' = w_sent w @ l \<and> list_all (justified L R (w_db w) [r]) l" by blast+
qed

lemma within_db_keeps:
  assumes "within_db w w'"
  shows "db_ok (w_db w) \<Longrightarrow> db_ok (w_db w')" and "accepted (w_db w) e b \<Longrightarrow> accepted (w_db w') e b"
  using assms trace_invariant [of db_step "w_db w" _ "w_db w'" db_ok] db_step_ok accepted_trace unfolding within_db_def by blast+

lemma justified_later:
  "justified L R d rs t \<Longrightarrow> (\<And>e b. accepted d e b \<Longrightarrow> accepted d' e b) \<Longrightarrow> set rs \<subseteq> set rs' \<Longrightarrow> justified L R d' rs' t"
  unfolding justified_def by blast

lemma create_sends:
  assumes "geth_ok (e_libs E)" and "length (r_AccountsFactoryAddr R) = 20" and "\<not> isDryrun dry"
    and "CreateAccountExec E R c ca mint dry w = (Ok x, w')"
  shows "\<exists>t. w_sent w' = w_sent w @ [t] \<and> dft_To (stx_Tx t) = r_AccountsFactoryAddr R"
proof -
  obtain key sender g hash gas sent where
    s: "SendArguments (e_libs E) (e_rpc E) (r_SafetyRouterAddr R) False (r_ChainId R) key sender
       (r_AccountsFactoryAddr R) (fresh_args g) False (w_sent w) = (Ok (hash, gas), sent)" "w_sent w' = sent"
    using CreateAccountExec_OkD [OF assms(4)] assms(3) by auto
  from SendArguments_sent [OF assms(1,2) s(1)] s(2) show ?thesis by auto
qed

lemma ref_mutation:
  assumes "CreateAccountExec ref_env ref_resolver c ref_create_args None None w = (Ok x, w')"
  shows "list_all2 (asks_for ref_gql) (CollectFields ref_gql ref_selection [''Mutation'']) [CallCreate ref_create_args None None]"
    "run_calls ref_gql ref_env ref_resolver c
       (zip (CollectFields ref_gql ref_selection [''Mutation'']) [CallCreate ref_create_args None None]) \<lparr>x_world = w, x_errors = []\<rparr> =
     (Ok [(MObject [(''key'', MString (cae_Secret x))], False)], \<lparr>x_world = w', x_errors = []\<rparr>)"
    "map cf_Alias (CollectFields ref_gql ref_selection [''Mutation'']) = [''made'']"
  using assms
  by (simp_all add: ref_gql_def ref_selection_def asks_for_def bindM_def field_result_def create_object_def)

section \<open>Properties\<close>

text \<open>
  C7. A mutation does what its selection asks for, in that order: when every selected field
  names one of the four calls and carries its arguments in the form of the schema, running
  the generated code is running the resolvers one after the other on those arguments, the
  value of each in its place, an error or a panic of one reported and turned into null, and
  the whole answer null as soon as one that may not be null is.
\<close>

theorem mutation_refines:
  assumes "gql_ok G" and "list_all2 (asks_for G) (CollectFields G sel [''Mutation'']) calls"
  shows "root_Mutation G E R c sel =
    bindM (run_calls G E R c (zip (CollectFields G sel [''Mutation'']) calls)) (\<lambda>vs.
    retM (if list_ex snd vs then Null
          else MObject (zip (map cf_Alias (CollectFields G sel [''Mutation''])) (map fst vs))))"
  using root_Mutation_runs [OF assms] by (simp only: field_set_def)

theorem mutation_refines_witness:
  "\<exists>x w'. root_Mutation ref_gql ref_env ref_resolver anon_ctx ref_selection \<lparr>x_world = ref_world, x_errors = []\<rparr> =
     (Ok (MObject [(''made'', MObject [(''key'', MString (cae_Secret x))])]), \<lparr>x_world = w', x_errors = []\<rparr>) \<and>
     CreateAccountExec ref_env ref_resolver anon_ctx ref_create_args None None ref_world = (Ok x, w')"
proof -
  obtain x w' where x: "CreateAccountExec ref_env ref_resolver anon_ctx ref_create_args None None ref_world = (Ok x, w')"
    using ref_create_ok by blast
  with mutation_refines [OF ref_gql_ok ref_mutation(1) [OF x], of ref_env ref_resolver anon_ctx] ref_mutation(2,3) [OF x]
  show ?thesis by (simp add: bindM_def)
qed

text \<open>
  Queries only read: whatever a query selects, and whatever fails on the way, the tables,
  the transactions and the alarms are after it what they were before; a subscription is
  answered with an error alone, and a second call of the handler with nothing.
\<close>

theorem queries_read_only:
  assumes "gql_ok G"
  shows "x_world (snd (Exec G avg E R c OpQuery sel first x)) = x_world x \<and>
    Exec G avg E R c OpSubscription sel True x =
      (Ok (Some \<lparr>resp_Data = None, resp_Errors = [''unsupported GraphQL operation'']\<rparr>), x) \<and>
    Exec G avg E R c op sel False x = (Ok None, x)"
proof -
  have "world_same (Exec G avg E R c OpQuery sel first)"
    unfolding Exec_def operation.case write_data_def [abs_def]
    by (intro world_same_if world_same_bindM world_same_root_Query [OF assms] world_same_simps)
  then show ?thesis by (simp add: world_same_def) (simp add: Exec_def)
qed

theorem queries_read_only_witness:
  "x_world (snd (Exec ref_gql (\<lambda>_. 0) ref_env ref_resolver anon_ctx OpQuery
     (Selection [(''publickey'', ''k'', [], Selection [])]) True \<lparr>x_world = ref_world, x_errors = []\<rparr>)) = ref_world"
  using queries_read_only [OF ref_gql_ok] by simp

text \<open>
  C1. Nothing is ever sent for an account without its secret: over any history of requests to
  the server, with whatever contents and in whatever environment, every transaction that is
  added goes to the factory, or through the safety router for the account of an address
  whose secret one of the requests carried and the tables accept. The constraints of the
  schema hold throughout, and a secret that was accepted stays accepted.
\<close>

theorem service_history:
  assumes "trace (http_step G L R admin) w rs w'" and "geth_ok L" "gql_ok G" "length (r_AccountsFactoryAddr R) = 20"
    and "db_ok (w_db w)"
  shows "(\<exists>l. w_sent w' = w_sent w @ l \<and> list_all (justified L R (w_db w') rs) l) \<and>
    db_ok (w_db w') \<and> (\<forall>e b. accepted (w_db w) e b \<longrightarrow> accepted (w_db w') e b)"
  using assms(1,5)
proof (induction rule: trace.induct)
  case (trace_refl w)
  then show ?case by (simp add: exI [of _ "[]"])
next
  case (trace_step w rs u r w')
  note step = http_step_effect [OF assms(2-4) trace_step(2)]
  note keep = within_db_keeps [OF step(1)]
  obtain l k where l: "w_sent u = w_sent w @ l" "list_all (justified L R (w_db u) rs) l"
    and k: "w_sent w' = w_sent u @ k" "list_all (justified L R (w_db u) [r]) k"
    using trace_step(3) [OF trace_step(4)] step(2) by blast
  have later: "justified L R (w_db u) qs t \<Longrightarrow> set qs \<subseteq> set (rs @ [r]) \<Longrightarrow> justified L R (w_db w') (rs @ [r]) t" for qs t
    by (erule justified_later) (rule keep(2))
  have "list_all (justified L R (w_db w') (rs @ [r])) (l @ k)"
    using later [of rs] later [of "[r]"] l(2) k(2) by (auto simp: list_all_iff)
  with l k have "\<exists>l. w_sent w' = w_sent w @ l \<and> list_all (justified L R (w_db w') (rs @ [r])) l"
    by (intro exI [of _ "l @ k"]) simp
  then show ?case using trace_step(3) [OF trace_step(4)] keep by blast
qed

theorem service_history_witness:
  "\<exists>w' t. trace (http_step ref_gql ref_libs ref_resolver ''root'') ref_world [ref_request ''''] w' \<and>
     w_sent w' = [t] \<and> dft_To (stx_Tx t) = replicate 20 1 \<and> db_ok (w_db w')"
proof -
  obtain x w' where x: "CreateAccountExec ref_env ref_resolver anon_ctx ref_create_args None None ref_world = (Ok x, w')"
    using ref_create_ok by blast
  have L: "e_libs ref_env = ref_libs" by (simp add: ref_env_def)
  have F: "length (r_AccountsFactoryAddr ref_resolver) = 20" "r_AccountsFactoryAddr ref_resolver = replicate 20 1"
    by (simp_all add: ref_resolver_def)
  have "background = anon_ctx" by (simp add: background_def anon_ctx_def)
  then have "ServeHTTP ref_libs (e_pg ref_env) 1
      \<lparr>am_srv = graphql_srv ref_gql ref_transport (\<lambda>_. 0) ref_env ref_resolver, am_adminSecret = ''root''\<rparr>
      (ref_request '''') ref_world = (Ok \<lparr>rep_Headers = cors_headers [], rep_Status = 200, rep_Body = []\<rparr>, w')"
    using root_Mutation_runs [OF ref_gql_ok ref_mutation(1) [OF x], of ref_env ref_resolver anon_ctx] ref_mutation(2,3) [OF x]
    by (simp add: ServeHTTP_def Let_def ref_request_def under_headers_def graphql_srv_def ref_transport_def Exec_def
        field_set_def write_data_def bindM_def liftR_def)
  then have t: "trace (http_step ref_gql ref_libs ref_resolver ''root'') ref_world [ref_request ''''] w'"
    by (intro trace_one) (rule handled [OF L])
  have "db_ok (w_db ref_world)" by (simp add: ref_world_def db_ok_def empty_db_def)
  with service_history [OF t ref_geth_ok ref_gql_ok F(1)] have "db_ok (w_db w')" by blast
  moreover have "geth_ok (e_libs ref_env)" "\<not> isDryrun None" by (simp_all add: L ref_geth_ok isDryrun_def)
  then obtain u where "w_sent w' = w_sent ref_world @ [u]" "dft_To (stx_Tx u) = replicate 20 1"
    using create_sends [OF _ F(1) _ x] F(2) by fastforce
  ultimately show ?thesis using t by (auto simp: ref_world_def)
qed

end
