(* ===== verification/Complexity.thy ===== *)
theory Complexity
  imports Executor
begin

text \<open>
  The cost of a field (\<^verbatim>\<open>graph/generated.go\<close>, \<^verbatim>\<open>ComplexityRoot\<close>, \<^verbatim>\<open>Complexity\<close> and the lookups of
  child fields): a function per field that a configuration may set, consulted with the cost
  of the selection below and the decoded arguments. Below the definitions: what it yields
  for each mutation, and that the server, which sets none, has every field at the default.
\<close>

section \<open>Definitions\<close>

record ComplexityRoot =
  cr_CreateAccountExec_Hash :: "(int \<Rightarrow> int) option"
  cr_CreateAccountExec_Secret :: "(int \<Rightarrow> int) option"
  cr_FlorinOpenPositionResult_Hash :: "(int \<Rightarrow> int) option"
  cr_ClaimRewards :: "(int \<Rightarrow> string list \<Rightarrow> string \<Rightarrow> bool option \<Rightarrow> int) option"
  cr_CreateAccountExec :: "(int \<Rightarrow> model_CreateAccount \<Rightarrow> model_Mint option \<Rightarrow> bool option \<Rightarrow> int) option"
  cr_NinelivesMint :: "(int \<Rightarrow> model_Mint \<Rightarrow> bool option \<Rightarrow> int) option"
  cr_RequestSecret :: "(int \<Rightarrow> string \<Rightarrow> i32 \<Rightarrow> i32 \<Rightarrow> string \<Rightarrow> string \<Rightarrow> bool option \<Rightarrow> int) option"
  cr_EoaForAddress :: "(int \<Rightarrow> string \<Rightarrow> int) option"
  cr_HasCreated :: "(int \<Rightarrow> string \<Rightarrow> int) option"
  cr_Publickey :: "(int \<Rightarrow> int) option"
  cr_Statistics :: "(int \<Rightarrow> int) option"
  cr_Action :: "(int \<Rightarrow> int) option"
  cr_AvgGasLimit24Hours :: "(int \<Rightarrow> int) option"
  cr_AvgGasLimitAllTime :: "(int \<Rightarrow> int) option"
  cr_AvgGasLimitWeek :: "(int \<Rightarrow> int) option"
  cr_Tx24Hours :: "(int \<Rightarrow> int) option"
  cr_TxAllTime :: "(int \<Rightarrow> int) option"
  cr_TxWeek :: "(int \<Rightarrow> int) option"

text \<open>The two shapes of a case: without arguments, and with arguments to decode.\<close>

definition plain_cost :: "(int \<Rightarrow> int) option \<Rightarrow> int \<Rightarrow> (int \<times> bool) res" where
  "plain_cost h child = (case h of None \<Rightarrow> Ok (0, False) | Some f \<Rightarrow> Ok (f child, True))"

definition args_cost :: "'h option \<Rightarrow> args_map res \<Rightarrow> ('h \<Rightarrow> args_map \<Rightarrow> int res) \<Rightarrow> (int \<times> bool) res" where
  "args_cost h dec app = (case h of
     None \<Rightarrow> Ok (0, False)
   | Some f \<Rightarrow> (case dec of
       Ok args \<Rightarrow> bindR (app f args) (\<lambda>n. Ok (n, True))
     | Err e \<Rightarrow> Ok (0, False)
     | Panic q \<Rightarrow> Panic q
     | Exit e \<Rightarrow> Exit e))"

definition Complexity :: "ComplexityRoot \<Rightarrow> 'b gql_inputs_scheme \<Rightarrow> path \<Rightarrow> string \<Rightarrow> string \<Rightarrow> int \<Rightarrow> raw_args \<Rightarrow> (int \<times> bool) res" where
  "Complexity C G p typeName field childComplexity rawArgs =
     (let key = typeName @ ''.'' @ field; child = childComplexity in
      if key = ''CreateAccountExec.hash'' then plain_cost (cr_CreateAccountExec_Hash C) child
      else if key = ''CreateAccountExec.secret'' then plain_cost (cr_CreateAccountExec_Secret C) child
      else if key = ''FlorinOpenPositionResult.hash'' then plain_cost (cr_FlorinOpenPositionResult_Hash C) child
      else if key = ''Mutation.claimRewards'' then
        args_cost (cr_ClaimRewards C) (field_Mutation_claimRewards_args G p rawArgs) (\<lambda>f args.
          bindR (the_strings args ''markets'') (\<lambda>markets. bindR (the_string args ''msTs'') (\<lambda>msTs.
          bindR (the_bool args ''dryrun'') (\<lambda>dryrun. Ok (f child markets msTs dryrun)))))
      else if key = ''Mutation.createAccountExec'' then
        args_cost (cr_CreateAccountExec C) (field_Mutation_createAccountExec_args G p rawArgs) (\<lambda>f args.
          bindR (the_account args ''createAccount'') (\<lambda>createAccount. bindR (the_mint_ptr args ''mint'') (\<lambda>mint.
          bindR (the_bool args ''dryrun'') (\<lambda>dryrun. Ok (f child createAccount mint dryrun)))))
      else if key = ''Mutation.ninelivesMint'' then
        args_cost (cr_NinelivesMint C) (field_Mutation_ninelivesMint_args G p rawArgs) (\<lambda>f args.
          bindR (the_mint args ''mint'') (\<lambda>mint. bindR (the_bool args ''dryrun'') (\<lambda>dryrun. Ok (f child mint dryrun))))
      else if key = ''Mutation.requestSecret'' then
        args_cost (cr_RequestSecret C) (field_Mutation_requestSecret_args G p rawArgs) (\<lambda>f args.
          bindR (the_string args ''eoa_addr'') (\<lambda>eoaAddr. bindR (the_int args ''nonce'') (\<lambda>nonce.
          bindR (the_int args ''sigV'') (\<lambda>sigV. bindR (the_string args ''sigR'') (\<lambda>sigR.
          bindR (the_string args ''sigS'') (\<lambda>sigS. bindR (the_bool args ''dryrun'') (\<lambda>dryrun.
          Ok (f child eoaAddr nonce sigV sigR sigS dryrun))))))))
      else if key = ''Query.eoaForAddress'' then
        args_cost (cr_EoaForAddress C) (field_Query_eoaForAddress_args G p rawArgs) (\<lambda>f args.
          bindR (the_string args ''address'') (\<lambda>address. Ok (f child address)))
      else if key = ''Query.hasCreated'' then
        args_cost (cr_HasCreated C) (field_Query_hasCreated_args G p rawArgs) (\<lambda>f args.
          bindR (the_string args ''address'') (\<lambda>address. Ok (f child address)))
      else if key = ''Query.publickey'' then plain_cost (cr_Publickey C) child
      else if key = ''Query.statistics'' then plain_cost (cr_Statistics C) child
      else if key = ''Statistics.action'' then plain_cost (cr_Action C) child
      else if key = ''Statistics.avgGasLimit24Hours'' then plain_cost (cr_AvgGasLimit24Hours C) child
      else if key = ''Statistics.avgGasLimitAllTime'' then plain_cost (cr_AvgGasLimitAllTime C) child
      else if key = ''Statistics.avgGasLimitWeek'' then plain_cost (cr_AvgGasLimitWeek C) child
      else if key = ''Statistics.tx24Hours'' then plain_cost (cr_Tx24Hours C) child
      else if key = ''Statistics.txAllTime'' then plain_cost (cr_TxAllTime C) child
      else if key = ''Statistics.txWeek'' then plain_cost (cr_TxWeek C) child
      else Ok (0, False))"

text \<open>
  The child fields of the two object types, by name: the object type and field, or an error.
  A name is made of letters, digits and underscores, so quoting it escapes nothing.
\<close>

definition child_error :: "string \<Rightarrow> string \<Rightarrow> string" where
  "child_error typ name = ''no field named '' @ [CHR 34] @ name @ [CHR 34] @ '' was found under type '' @ typ"

definition childFields_CreateAccountExec :: "string \<Rightarrow> (string \<times> string) res" where
  "childFields_CreateAccountExec name = (
     if name = ''hash'' then Ok (''CreateAccountExec'', ''hash'')
     else if name = ''secret'' then Ok (''CreateAccountExec'', ''secret'')
     else Err (child_error ''CreateAccountExec'' name))"

definition childFields_Statistics :: "string \<Rightarrow> (string \<times> string) res" where
  "childFields_Statistics name = (
     if name = ''action'' then Ok (''Statistics'', ''action'')
     else if name = ''avgGasLimit24Hours'' then Ok (''Statistics'', ''avgGasLimit24Hours'')
     else if name = ''avgGasLimitWeek'' then Ok (''Statistics'', ''avgGasLimitWeek'')
     else if name = ''avgGasLimitAllTime'' then Ok (''Statistics'', ''avgGasLimitAllTime'')
     else if name = ''tx24Hours'' then Ok (''Statistics'', ''tx24Hours'')
     else if name = ''txWeek'' then Ok (''Statistics'', ''txWeek'')
     else if name = ''txAllTime'' then Ok (''Statistics'', ''txAllTime'')
     else Err (child_error ''Statistics'' name))"

text \<open>The configuration of \<^verbatim>\<open>main.go\<close>, which names the resolvers only.\<close>

definition no_complexity :: ComplexityRoot where
  "no_complexity = \<lparr>cr_CreateAccountExec_Hash = None, cr_CreateAccountExec_Secret = None,
     cr_FlorinOpenPositionResult_Hash = None, cr_ClaimRewards = None, cr_CreateAccountExec = None,
     cr_NinelivesMint = None, cr_RequestSecret = None, cr_EoaForAddress = None, cr_HasCreated = None,
     cr_Publickey = None, cr_Statistics = None, cr_Action = None, cr_AvgGasLimit24Hours = None,
     cr_AvgGasLimitAllTime = None, cr_AvgGasLimitWeek = None, cr_Tx24Hours = None, cr_TxAllTime = None,
     cr_TxWeek = None\<rparr>"

text \<open>The configured cost of a call.\<close>

fun call_cost :: "ComplexityRoot \<Rightarrow> int \<Rightarrow> call \<Rightarrow> int option" where
  "call_cost C child (CallCreate a m dry) = map_option (\<lambda>f. f child a m dry) (cr_CreateAccountExec C)"
| "call_cost C child (CallRequest a n v r s dry) = map_option (\<lambda>f. f child a n v r s dry) (cr_RequestSecret C)"
| "call_cost C child (CallMint m dry) = map_option (\<lambda>f. f child m dry) (cr_NinelivesMint C)"
| "call_cost C child (CallClaim ms t dry) = map_option (\<lambda>f. f child ms t dry) (cr_ClaimRewards C)"

section \<open>Lemmas\<close>

lemmas cost_defs = plain_cost_def args_cost_def the_account_def the_mint_ptr_def the_bool_def the_string_def the_int_def
  the_mint_def the_strings_def

text \<open>A mutation costs what its function says of the decoded arguments, or the default.\<close>

lemma Complexity_call:
  assumes "inputs_ok G" and "map_of raw = map_of (call_args k)"
  shows "Complexity C G p ''Mutation'' (call_name k) child raw =
    Ok (case call_cost C child k of None \<Rightarrow> (0, False) | Some n \<Rightarrow> (n, True))"
proof -
  note dec = mutation_args_decode [OF assms(1)]
  show ?thesis
  proof (cases k)
    case (CallCreate a m dry)
    have d: "field_Mutation_createAccountExec_args G p raw =
        Ok [(''createAccount'', ArgCreateAccount a), (''mint'', ArgMintPtr m), (''dryrun'', ArgBoolPtr dry)]"
      by (rule dec) (use assms(2) CallCreate in simp)
    show ?thesis unfolding CallCreate Complexity_def Let_def
      by (simp add: d cost_defs split: option.split)
  next
    case (CallRequest a n v r s dry)
    have d: "field_Mutation_requestSecret_args G p raw =
        Ok [(''eoa_addr'', ArgString a), (''nonce'', ArgInt n), (''sigV'', ArgInt v), (''sigR'', ArgString r),
            (''sigS'', ArgString s), (''dryrun'', ArgBoolPtr dry)]"
      by (rule dec) (use assms(2) CallRequest in simp)
    show ?thesis unfolding CallRequest Complexity_def Let_def
      by (simp add: d cost_defs split: option.split)
  next
    case (CallMint m dry)
    have d: "field_Mutation_ninelivesMint_args G p raw = Ok [(''mint'', ArgMint m), (''dryrun'', ArgBoolPtr dry)]"
      by (rule dec) (use assms(2) CallMint in simp)
    show ?thesis unfolding CallMint Complexity_def Let_def
      by (simp add: d cost_defs split: option.split)
  next
    case (CallClaim ms t dry)
    have d: "field_Mutation_claimRewards_args G p raw =
        Ok [(''markets'', ArgStrings ms), (''msTs'', ArgString t), (''dryrun'', ArgBoolPtr dry)]"
      by (rule dec) (use assms(2) CallClaim in simp)
    show ?thesis unfolding CallClaim Complexity_def Let_def
      by (simp add: d cost_defs split: option.split)
  qed
qed

text \<open>The server's own configuration decodes no argument and leaves every field at the default.\<close>

lemma Complexity_default: "Complexity no_complexity G p typeName field child raw = Ok (0, False)"
  unfolding Complexity_def Let_def by (simp only: no_complexity_def ComplexityRoot.select_convs plain_cost_def args_cost_def
      option.case if_cancel)

text \<open>The lookup of a child field succeeds exactly for the names the object writes.\<close>

lemma childFields_exact:
  "is_ok (childFields_CreateAccountExec n) \<longleftrightarrow> n \<in> {''hash'', ''secret''}"
  "is_ok (childFields_Statistics n) \<longleftrightarrow> n \<in> {''action'', ''avgGasLimit24Hours'', ''avgGasLimitWeek'',
     ''avgGasLimitAllTime'', ''tx24Hours'', ''txWeek'', ''txAllTime''}"
  unfolding childFields_CreateAccountExec_def childFields_Statistics_def by (simp_all split: if_splits)

end
