(* ===== verification/Introspection.thy ===== *)
theory Introspection
  imports Complexity
begin

text \<open>
  The introspection part of \<^verbatim>\<open>graph/generated.go\<close>: the two root fields \<^verbatim>\<open>__type\<close> and \<^verbatim>\<open>__schema\<close>, the
  six object types below them with every field, their arguments and their lists. The objects
  of gqlgen's package \<^verbatim>\<open>introspection\<close> are references, read through a parameter. The objects refer to
  each other without end, so writing one runs with fuel, which is how deep the selection
  nests; a selection deeper than the fuel panics here. The lemmas show that enough fuel makes no
  difference, and that introspection is what the theory \<^verbatim>\<open>Executor\<close> asks of its parameter.
\<close>

section \<open>The parameter\<close>

record introspection =
  Directive_Name :: "nat \<Rightarrow> string"
  Directive_Description :: "nat \<Rightarrow> string option"
  Directive_IsRepeatable :: "nat \<Rightarrow> bool"
  Directive_Locations :: "nat \<Rightarrow> string list"
  Directive_Args :: "nat \<Rightarrow> nat list"
  EnumValue_Name :: "nat \<Rightarrow> string"
  EnumValue_Description :: "nat \<Rightarrow> string option"
  EnumValue_IsDeprecated :: "nat \<Rightarrow> bool"
  EnumValue_DeprecationReason :: "nat \<Rightarrow> string option"
  Field_Name :: "nat \<Rightarrow> string"
  Field_Description :: "nat \<Rightarrow> string option"
  Field_Args :: "nat \<Rightarrow> nat list"
  Field_Type :: "nat \<Rightarrow> nat option"
  Field_IsDeprecated :: "nat \<Rightarrow> bool"
  Field_DeprecationReason :: "nat \<Rightarrow> string option"
  InputValue_Name :: "nat \<Rightarrow> string"
  InputValue_Description :: "nat \<Rightarrow> string option"
  InputValue_Type :: "nat \<Rightarrow> nat option"
  InputValue_DefaultValue :: "nat \<Rightarrow> string option"
  InputValue_IsDeprecated :: "nat \<Rightarrow> bool"
  InputValue_DeprecationReason :: "nat \<Rightarrow> string option"
  Schema_Description :: "nat \<Rightarrow> string option"
  Schema_Types :: "nat \<Rightarrow> nat list"
  Schema_QueryType :: "nat \<Rightarrow> nat option"
  Schema_MutationType :: "nat \<Rightarrow> nat option"
  Schema_SubscriptionType :: "nat \<Rightarrow> nat option"
  Schema_Directives :: "nat \<Rightarrow> nat list"
  Type_Kind :: "nat \<Rightarrow> string"
  Type_Name :: "nat \<Rightarrow> string option"
  Type_Description :: "nat \<Rightarrow> string option"
  Type_SpecifiedByURL :: "nat \<Rightarrow> string option"
  Type_Fields :: "nat \<Rightarrow> bool \<Rightarrow> nat list option"
  Type_Interfaces :: "nat \<Rightarrow> nat list option"
  Type_PossibleTypes :: "nat \<Rightarrow> nat list option"
  Type_EnumValues :: "nat \<Rightarrow> bool \<Rightarrow> nat list option"
  Type_InputFields :: "nat \<Rightarrow> nat list option"
  Type_OfType :: "nat \<Rightarrow> nat option"
  Type_IsOneOf :: "nat \<Rightarrow> bool"
  IntrospectType :: "string \<Rightarrow> nat option res"
  IntrospectSchema :: "nat option res"

text \<open>How an object is written, one level down.\<close>

type_synonym ('sel, 'q) child = "intro_obj \<Rightarrow> path \<Rightarrow> 'sel \<Rightarrow> (exec, 'q marshaler) gm"

section \<open>Arguments\<close>

definition field_Query_type_args :: "'b gql_inputs_scheme \<Rightarrow> path \<Rightarrow> raw_args \<Rightarrow> args_map res" where
  "field_Query_type_args G p raw = bindR (string_arg G p raw ''name'') (\<lambda>arg0. Ok [(''name'', arg0)])"

definition field_Directive_args_args :: "'b gql_inputs_scheme \<Rightarrow> path \<Rightarrow> raw_args \<Rightarrow> args_map res" where
  "field_Directive_args_args G p raw = bindR (bool_arg G p raw ''includeDeprecated'') (\<lambda>arg0. Ok [(''includeDeprecated'', arg0)])"

definition field_Field_args_args :: "'b gql_inputs_scheme \<Rightarrow> path \<Rightarrow> raw_args \<Rightarrow> args_map res" where
  "field_Field_args_args G p raw = bindR (bool_arg G p raw ''includeDeprecated'') (\<lambda>arg0. Ok [(''includeDeprecated'', arg0)])"

definition plain_bool_arg :: "'b gql_inputs_scheme \<Rightarrow> path \<Rightarrow> raw_args \<Rightarrow> string \<Rightarrow> arg res" where
  "plain_bool_arg G p raw k = ProcessArgField G p raw k (as_arg ArgBool (unmarshalOBoolean2bool G)) (ArgBool False)"

definition field_Type_enumValues_args :: "'b gql_inputs_scheme \<Rightarrow> path \<Rightarrow> raw_args \<Rightarrow> args_map res" where
  "field_Type_enumValues_args G p raw = bindR (plain_bool_arg G p raw ''includeDeprecated'') (\<lambda>arg0. Ok [(''includeDeprecated'', arg0)])"

definition field_Type_fields_args :: "'b gql_inputs_scheme \<Rightarrow> path \<Rightarrow> raw_args \<Rightarrow> args_map res" where
  "field_Type_fields_args G p raw = bindR (plain_bool_arg G p raw ''includeDeprecated'') (\<lambda>arg0. Ok [(''includeDeprecated'', arg0)])"

definition the_plain_bool :: "args_map \<Rightarrow> string \<Rightarrow> bool res" where
  "the_plain_bool m k = (case map_of m k of Some (ArgBool b) \<Rightarrow> Ok b | _ \<Rightarrow> Panic bad_assert)"

section \<open>Values\<close>

definition marshalN_TypeKind2string :: "('sel, 'q) gql \<Rightarrow> path \<Rightarrow> string \<Rightarrow> (exec, 'q marshaler) gm" where
  "marshalN_TypeKind2string G p v = non_null G p (MarshalString G v)"

definition marshalN_DirectiveLocation2string :: "('sel, 'q) gql \<Rightarrow> path \<Rightarrow> string \<Rightarrow> (exec, 'q marshaler) gm" where
  "marshalN_DirectiveLocation2string G p v = non_null G p (MarshalString G v)"

definition marshalOBoolean2bool :: "('sel, 'q) gql \<Rightarrow> bool \<Rightarrow> (exec, 'q marshaler) gm" where
  "marshalOBoolean2bool G v = retM (MarshalBoolean G v)"

fun marshalOString2ptr :: "('sel, 'q) gql \<Rightarrow> 'q gval \<Rightarrow> (exec, 'q marshaler) gm" where
  "marshalOString2ptr G (GvStringPtr None) = retM Null"
| "marshalOString2ptr G (GvStringPtr (Some s)) = retM (MarshalString G s)"
| "marshalOString2ptr G v = liftR (Panic bad_assert)"

text \<open>A list is null when one of its elements is.\<close>

definition marshal_slice :: "('sel, 'q) gql \<Rightarrow> nat \<Rightarrow> (nat \<Rightarrow> (exec, 'q marshaler) gm) \<Rightarrow> (exec, 'q marshaler) gm" where
  "marshal_slice G n el = bindM (MarshalSliceConcurrently G n el) (\<lambda>ret.
     retM (if list_ex (\<lambda>e. e = Null) ret then Null else MArray ret))"

fun marshalN_DirectiveLocation2strings :: "('sel, 'q) gql \<Rightarrow> path \<Rightarrow> 'q gval \<Rightarrow> (exec, 'q marshaler) gm" where
  "marshalN_DirectiveLocation2strings G p (GvStrings v) =
     marshal_slice G (length v) (\<lambda>i. marshalN_DirectiveLocation2string G (p @ [dec_nat i]) (v ! i))"
| "marshalN_DirectiveLocation2strings G p v = liftR (Panic bad_assert)"

text \<open>Pointers and slices of objects: a nil slice that may be null is, any other is written.\<close>

fun marshalN_Type2ptr :: "('sel, 'q) gql \<Rightarrow> ('sel, 'q) child \<Rightarrow> path \<Rightarrow> 'sel \<Rightarrow> 'q gval \<Rightarrow> (exec, 'q marshaler) gm" where
  "marshalN_Type2ptr G child p sel (GvIntro None) = non_null G p Null"
| "marshalN_Type2ptr G child p sel (GvIntro (Some v)) = child v p sel"
| "marshalN_Type2ptr G child p sel v = liftR (Panic bad_assert)"

fun marshalO_Type2ptr :: "('sel, 'q) gql \<Rightarrow> ('sel, 'q) child \<Rightarrow> path \<Rightarrow> 'sel \<Rightarrow> 'q gval \<Rightarrow> (exec, 'q marshaler) gm" where
  "marshalO_Type2ptr G child p sel (GvIntro None) = retM Null"
| "marshalO_Type2ptr G child p sel (GvIntro (Some v)) = child v p sel"
| "marshalO_Type2ptr G child p sel v = liftR (Panic bad_assert)"

fun marshalO_Schema2ptr :: "('sel, 'q) gql \<Rightarrow> ('sel, 'q) child \<Rightarrow> path \<Rightarrow> 'sel \<Rightarrow> 'q gval \<Rightarrow> (exec, 'q marshaler) gm" where
  "marshalO_Schema2ptr G child p sel (GvIntro None) = retM Null"
| "marshalO_Schema2ptr G child p sel (GvIntro (Some v)) = child v p sel"
| "marshalO_Schema2ptr G child p sel v = liftR (Panic bad_assert)"

fun marshalO_Type2slice :: "('sel, 'q) gql \<Rightarrow> ('sel, 'q) child \<Rightarrow> path \<Rightarrow> 'sel \<Rightarrow> 'q gval \<Rightarrow> (exec, 'q marshaler) gm" where
  "marshalO_Type2slice G child p sel (GvIntros None) = retM Null"
| "marshalO_Type2slice G child p sel (GvIntros (Some v)) = marshal_slice G (length v) (\<lambda>i. child (v ! i) (p @ [dec_nat i]) sel)"
| "marshalO_Type2slice G child p sel v = liftR (Panic bad_assert)"

fun marshalO_Field2slice :: "('sel, 'q) gql \<Rightarrow> ('sel, 'q) child \<Rightarrow> path \<Rightarrow> 'sel \<Rightarrow> 'q gval \<Rightarrow> (exec, 'q marshaler) gm" where
  "marshalO_Field2slice G child p sel (GvIntros None) = retM Null"
| "marshalO_Field2slice G child p sel (GvIntros (Some v)) = marshal_slice G (length v) (\<lambda>i. child (v ! i) (p @ [dec_nat i]) sel)"
| "marshalO_Field2slice G child p sel v = liftR (Panic bad_assert)"

fun marshalO_EnumValue2slice :: "('sel, 'q) gql \<Rightarrow> ('sel, 'q) child \<Rightarrow> path \<Rightarrow> 'sel \<Rightarrow> 'q gval \<Rightarrow> (exec, 'q marshaler) gm" where
  "marshalO_EnumValue2slice G child p sel (GvIntros None) = retM Null"
| "marshalO_EnumValue2slice G child p sel (GvIntros (Some v)) = marshal_slice G (length v) (\<lambda>i. child (v ! i) (p @ [dec_nat i]) sel)"
| "marshalO_EnumValue2slice G child p sel v = liftR (Panic bad_assert)"

fun marshalO_InputValue2slice :: "('sel, 'q) gql \<Rightarrow> ('sel, 'q) child \<Rightarrow> path \<Rightarrow> 'sel \<Rightarrow> 'q gval \<Rightarrow> (exec, 'q marshaler) gm" where
  "marshalO_InputValue2slice G child p sel (GvIntros None) = retM Null"
| "marshalO_InputValue2slice G child p sel (GvIntros (Some v)) = marshal_slice G (length v) (\<lambda>i. child (v ! i) (p @ [dec_nat i]) sel)"
| "marshalO_InputValue2slice G child p sel v = liftR (Panic bad_assert)"

text \<open>A slice that may not be null is written even when it is nil, as an empty list.\<close>

fun marshalN_Type2slice :: "('sel, 'q) gql \<Rightarrow> ('sel, 'q) child \<Rightarrow> path \<Rightarrow> 'sel \<Rightarrow> 'q gval \<Rightarrow> (exec, 'q marshaler) gm" where
  "marshalN_Type2slice G child p sel (GvIntros v) =
     (let v = (case v of None \<Rightarrow> [] | Some v \<Rightarrow> v) in marshal_slice G (length v) (\<lambda>i. child (v ! i) (p @ [dec_nat i]) sel))"
| "marshalN_Type2slice G child p sel v = liftR (Panic bad_assert)"

fun marshalN_InputValue2slice :: "('sel, 'q) gql \<Rightarrow> ('sel, 'q) child \<Rightarrow> path \<Rightarrow> 'sel \<Rightarrow> 'q gval \<Rightarrow> (exec, 'q marshaler) gm" where
  "marshalN_InputValue2slice G child p sel (GvIntros v) =
     (let v = (case v of None \<Rightarrow> [] | Some v \<Rightarrow> v) in marshal_slice G (length v) (\<lambda>i. child (v ! i) (p @ [dec_nat i]) sel))"
| "marshalN_InputValue2slice G child p sel v = liftR (Panic bad_assert)"

fun marshalN_Directive2slice :: "('sel, 'q) gql \<Rightarrow> ('sel, 'q) child \<Rightarrow> path \<Rightarrow> 'sel \<Rightarrow> 'q gval \<Rightarrow> (exec, 'q marshaler) gm" where
  "marshalN_Directive2slice G child p sel (GvIntros v) =
     (let v = (case v of None \<Rightarrow> [] | Some v \<Rightarrow> v) in marshal_slice G (length v) (\<lambda>i. child (v ! i) (p @ [dec_nat i]) sel))"
| "marshalN_Directive2slice G child p sel v = liftR (Panic bad_assert)"

section \<open>Objects and their fields\<close>

definition intro_Directive_name :: "('sel, 'q) gql \<Rightarrow> introspection \<Rightarrow> path \<Rightarrow> 'sel cfield \<Rightarrow> nat \<Rightarrow> (exec, 'q marshaler) gm" where
  "intro_Directive_name G I p f obj = ResolveField G f (retM [])
     (\<lambda>args. retM (GvString (Directive_Name I obj)))
     (\<lambda>sel. as_string (marshalNString2string G (p @ [cf_Alias f]))) True True"

definition intro_Directive_description :: "('sel, 'q) gql \<Rightarrow> introspection \<Rightarrow> path \<Rightarrow> 'sel cfield \<Rightarrow> nat \<Rightarrow> (exec, 'q marshaler) gm" where
  "intro_Directive_description G I p f obj = ResolveField G f (retM [])
     (\<lambda>args. retM (GvStringPtr (Directive_Description I obj)))
     (\<lambda>sel. marshalOString2ptr G) True False"

definition intro_Directive_isRepeatable :: "('sel, 'q) gql \<Rightarrow> introspection \<Rightarrow> path \<Rightarrow> 'sel cfield \<Rightarrow> nat \<Rightarrow> (exec, 'q marshaler) gm" where
  "intro_Directive_isRepeatable G I p f obj = ResolveField G f (retM [])
     (\<lambda>args. retM (GvBool (Directive_IsRepeatable I obj)))
     (\<lambda>sel. as_bool (marshalNBoolean2bool G (p @ [cf_Alias f]))) True True"

definition intro_Directive_locations :: "('sel, 'q) gql \<Rightarrow> introspection \<Rightarrow> path \<Rightarrow> 'sel cfield \<Rightarrow> nat \<Rightarrow> (exec, 'q marshaler) gm" where
  "intro_Directive_locations G I p f obj = ResolveField G f (retM [])
     (\<lambda>args. retM (GvStrings (Directive_Locations I obj)))
     (\<lambda>sel. marshalN_DirectiveLocation2strings G (p @ [cf_Alias f])) True True"

definition fieldContext_Directive_args :: "('sel, 'q) gql \<Rightarrow> path \<Rightarrow> 'sel cfield \<Rightarrow> (exec, args_map) gm" where
  "fieldContext_Directive_args G = decode_args G (field_Directive_args_args G)"

definition intro_Directive_args :: "('sel, 'q) gql \<Rightarrow> introspection \<Rightarrow> ('sel, 'q) child \<Rightarrow> path \<Rightarrow> 'sel cfield \<Rightarrow> nat \<Rightarrow> (exec, 'q marshaler) gm" where
  "intro_Directive_args G I child p f obj = ResolveField G f (fieldContext_Directive_args G p f)
     (\<lambda>args. retM (GvIntros (Some (map IInputValue (Directive_Args I obj)))))
     (marshalN_InputValue2slice G child (p @ [cf_Alias f])) True True"

definition object_Directive :: "('sel, 'q) gql \<Rightarrow> introspection \<Rightarrow> ('sel, 'q) child \<Rightarrow> path \<Rightarrow> 'sel \<Rightarrow> nat \<Rightarrow> (exec, 'q marshaler) gm" where
  "object_Directive G I child p sel obj =
     (let fs = CollectFields G sel [''__Directive''] in
      bindM (each_field (\<lambda>f.
        if cf_Name f = ''__typename'' then retM (MarshalString G ''__Directive'', False)
        else if cf_Name f = ''name'' then valued (intro_Directive_name G I p f obj) Null
        else if cf_Name f = ''description'' then valued (intro_Directive_description G I p f obj) RequiredNull
        else if cf_Name f = ''isRepeatable'' then valued (intro_Directive_isRepeatable G I p f obj) Null
        else if cf_Name f = ''locations'' then valued (intro_Directive_locations G I p f obj) Null
        else if cf_Name f = ''args'' then valued (intro_Directive_args G I child p f obj) Null
        else unknown_field f) fs) (\<lambda>vs.
      retM (field_set fs vs)))"

definition intro_EnumValue_name :: "('sel, 'q) gql \<Rightarrow> introspection \<Rightarrow> path \<Rightarrow> 'sel cfield \<Rightarrow> nat \<Rightarrow> (exec, 'q marshaler) gm" where
  "intro_EnumValue_name G I p f obj = ResolveField G f (retM [])
     (\<lambda>args. retM (GvString (EnumValue_Name I obj)))
     (\<lambda>sel. as_string (marshalNString2string G (p @ [cf_Alias f]))) True True"

definition intro_EnumValue_description :: "('sel, 'q) gql \<Rightarrow> introspection \<Rightarrow> path \<Rightarrow> 'sel cfield \<Rightarrow> nat \<Rightarrow> (exec, 'q marshaler) gm" where
  "intro_EnumValue_description G I p f obj = ResolveField G f (retM [])
     (\<lambda>args. retM (GvStringPtr (EnumValue_Description I obj)))
     (\<lambda>sel. marshalOString2ptr G) True False"

definition intro_EnumValue_isDeprecated :: "('sel, 'q) gql \<Rightarrow> introspection \<Rightarrow> path \<Rightarrow> 'sel cfield \<Rightarrow> nat \<Rightarrow> (exec, 'q marshaler) gm" where
  "intro_EnumValue_isDeprecated G I p f obj = ResolveField G f (retM [])
     (\<lambda>args. retM (GvBool (EnumValue_IsDeprecated I obj)))
     (\<lambda>sel. as_bool (marshalNBoolean2bool G (p @ [cf_Alias f]))) True True"

definition intro_EnumValue_deprecationReason :: "('sel, 'q) gql \<Rightarrow> introspection \<Rightarrow> path \<Rightarrow> 'sel cfield \<Rightarrow> nat \<Rightarrow> (exec, 'q marshaler) gm" where
  "intro_EnumValue_deprecationReason G I p f obj = ResolveField G f (retM [])
     (\<lambda>args. retM (GvStringPtr (EnumValue_DeprecationReason I obj)))
     (\<lambda>sel. marshalOString2ptr G) True False"

definition object_EnumValue :: "('sel, 'q) gql \<Rightarrow> introspection \<Rightarrow> ('sel, 'q) child \<Rightarrow> path \<Rightarrow> 'sel \<Rightarrow> nat \<Rightarrow> (exec, 'q marshaler) gm" where
  "object_EnumValue G I child p sel obj =
     (let fs = CollectFields G sel [''__EnumValue''] in
      bindM (each_field (\<lambda>f.
        if cf_Name f = ''__typename'' then retM (MarshalString G ''__EnumValue'', False)
        else if cf_Name f = ''name'' then valued (intro_EnumValue_name G I p f obj) Null
        else if cf_Name f = ''description'' then valued (intro_EnumValue_description G I p f obj) RequiredNull
        else if cf_Name f = ''isDeprecated'' then valued (intro_EnumValue_isDeprecated G I p f obj) Null
        else if cf_Name f = ''deprecationReason'' then valued (intro_EnumValue_deprecationReason G I p f obj) RequiredNull
        else unknown_field f) fs) (\<lambda>vs.
      retM (field_set fs vs)))"

definition intro_Field_name :: "('sel, 'q) gql \<Rightarrow> introspection \<Rightarrow> path \<Rightarrow> 'sel cfield \<Rightarrow> nat \<Rightarrow> (exec, 'q marshaler) gm" where
  "intro_Field_name G I p f obj = ResolveField G f (retM [])
     (\<lambda>args. retM (GvString (Field_Name I obj)))
     (\<lambda>sel. as_string (marshalNString2string G (p @ [cf_Alias f]))) True True"

definition intro_Field_description :: "('sel, 'q) gql \<Rightarrow> introspection \<Rightarrow> path \<Rightarrow> 'sel cfield \<Rightarrow> nat \<Rightarrow> (exec, 'q marshaler) gm" where
  "intro_Field_description G I p f obj = ResolveField G f (retM [])
     (\<lambda>args. retM (GvStringPtr (Field_Description I obj)))
     (\<lambda>sel. marshalOString2ptr G) True False"

definition fieldContext_Field_args :: "('sel, 'q) gql \<Rightarrow> path \<Rightarrow> 'sel cfield \<Rightarrow> (exec, args_map) gm" where
  "fieldContext_Field_args G = decode_args G (field_Field_args_args G)"

definition intro_Field_args :: "('sel, 'q) gql \<Rightarrow> introspection \<Rightarrow> ('sel, 'q) child \<Rightarrow> path \<Rightarrow> 'sel cfield \<Rightarrow> nat \<Rightarrow> (exec, 'q marshaler) gm" where
  "intro_Field_args G I child p f obj = ResolveField G f (fieldContext_Field_args G p f)
     (\<lambda>args. retM (GvIntros (Some (map IInputValue (Field_Args I obj)))))
     (marshalN_InputValue2slice G child (p @ [cf_Alias f])) True True"

definition intro_Field_type :: "('sel, 'q) gql \<Rightarrow> introspection \<Rightarrow> ('sel, 'q) child \<Rightarrow> path \<Rightarrow> 'sel cfield \<Rightarrow> nat \<Rightarrow> (exec, 'q marshaler) gm" where
  "intro_Field_type G I child p f obj = ResolveField G f (retM [])
     (\<lambda>args. retM (GvIntro (map_option IType (Field_Type I obj))))
     (marshalN_Type2ptr G child (p @ [cf_Alias f])) True True"

definition intro_Field_isDeprecated :: "('sel, 'q) gql \<Rightarrow> introspection \<Rightarrow> path \<Rightarrow> 'sel cfield \<Rightarrow> nat \<Rightarrow> (exec, 'q marshaler) gm" where
  "intro_Field_isDeprecated G I p f obj = ResolveField G f (retM [])
     (\<lambda>args. retM (GvBool (Field_IsDeprecated I obj)))
     (\<lambda>sel. as_bool (marshalNBoolean2bool G (p @ [cf_Alias f]))) True True"

definition intro_Field_deprecationReason :: "('sel, 'q) gql \<Rightarrow> introspection \<Rightarrow> path \<Rightarrow> 'sel cfield \<Rightarrow> nat \<Rightarrow> (exec, 'q marshaler) gm" where
  "intro_Field_deprecationReason G I p f obj = ResolveField G f (retM [])
     (\<lambda>args. retM (GvStringPtr (Field_DeprecationReason I obj)))
     (\<lambda>sel. marshalOString2ptr G) True False"

definition object_Field :: "('sel, 'q) gql \<Rightarrow> introspection \<Rightarrow> ('sel, 'q) child \<Rightarrow> path \<Rightarrow> 'sel \<Rightarrow> nat \<Rightarrow> (exec, 'q marshaler) gm" where
  "object_Field G I child p sel obj =
     (let fs = CollectFields G sel [''__Field''] in
      bindM (each_field (\<lambda>f.
        if cf_Name f = ''__typename'' then retM (MarshalString G ''__Field'', False)
        else if cf_Name f = ''name'' then valued (intro_Field_name G I p f obj) Null
        else if cf_Name f = ''description'' then valued (intro_Field_description G I p f obj) RequiredNull
        else if cf_Name f = ''args'' then valued (intro_Field_args G I child p f obj) Null
        else if cf_Name f = ''type'' then valued (intro_Field_type G I child p f obj) Null
        else if cf_Name f = ''isDeprecated'' then valued (intro_Field_isDeprecated G I p f obj) Null
        else if cf_Name f = ''deprecationReason'' then valued (intro_Field_deprecationReason G I p f obj) RequiredNull
        else unknown_field f) fs) (\<lambda>vs.
      retM (field_set fs vs)))"

definition intro_InputValue_name :: "('sel, 'q) gql \<Rightarrow> introspection \<Rightarrow> path \<Rightarrow> 'sel cfield \<Rightarrow> nat \<Rightarrow> (exec, 'q marshaler) gm" where
  "intro_InputValue_name G I p f obj = ResolveField G f (retM [])
     (\<lambda>args. retM (GvString (InputValue_Name I obj)))
     (\<lambda>sel. as_string (marshalNString2string G (p @ [cf_Alias f]))) True True"

definition intro_InputValue_description :: "('sel, 'q) gql \<Rightarrow> introspection \<Rightarrow> path \<Rightarrow> 'sel cfield \<Rightarrow> nat \<Rightarrow> (exec, 'q marshaler) gm" where
  "intro_InputValue_description G I p f obj = ResolveField G f (retM [])
     (\<lambda>args. retM (GvStringPtr (InputValue_Description I obj)))
     (\<lambda>sel. marshalOString2ptr G) True False"

definition intro_InputValue_type :: "('sel, 'q) gql \<Rightarrow> introspection \<Rightarrow> ('sel, 'q) child \<Rightarrow> path \<Rightarrow> 'sel cfield \<Rightarrow> nat \<Rightarrow> (exec, 'q marshaler) gm" where
  "intro_InputValue_type G I child p f obj = ResolveField G f (retM [])
     (\<lambda>args. retM (GvIntro (map_option IType (InputValue_Type I obj))))
     (marshalN_Type2ptr G child (p @ [cf_Alias f])) True True"

definition intro_InputValue_defaultValue :: "('sel, 'q) gql \<Rightarrow> introspection \<Rightarrow> path \<Rightarrow> 'sel cfield \<Rightarrow> nat \<Rightarrow> (exec, 'q marshaler) gm" where
  "intro_InputValue_defaultValue G I p f obj = ResolveField G f (retM [])
     (\<lambda>args. retM (GvStringPtr (InputValue_DefaultValue I obj)))
     (\<lambda>sel. marshalOString2ptr G) True False"

definition intro_InputValue_isDeprecated :: "('sel, 'q) gql \<Rightarrow> introspection \<Rightarrow> path \<Rightarrow> 'sel cfield \<Rightarrow> nat \<Rightarrow> (exec, 'q marshaler) gm" where
  "intro_InputValue_isDeprecated G I p f obj = ResolveField G f (retM [])
     (\<lambda>args. retM (GvBool (InputValue_IsDeprecated I obj)))
     (\<lambda>sel. as_bool (marshalNBoolean2bool G (p @ [cf_Alias f]))) True True"

definition intro_InputValue_deprecationReason :: "('sel, 'q) gql \<Rightarrow> introspection \<Rightarrow> path \<Rightarrow> 'sel cfield \<Rightarrow> nat \<Rightarrow> (exec, 'q marshaler) gm" where
  "intro_InputValue_deprecationReason G I p f obj = ResolveField G f (retM [])
     (\<lambda>args. retM (GvStringPtr (InputValue_DeprecationReason I obj)))
     (\<lambda>sel. marshalOString2ptr G) True False"

definition object_InputValue :: "('sel, 'q) gql \<Rightarrow> introspection \<Rightarrow> ('sel, 'q) child \<Rightarrow> path \<Rightarrow> 'sel \<Rightarrow> nat \<Rightarrow> (exec, 'q marshaler) gm" where
  "object_InputValue G I child p sel obj =
     (let fs = CollectFields G sel [''__InputValue''] in
      bindM (each_field (\<lambda>f.
        if cf_Name f = ''__typename'' then retM (MarshalString G ''__InputValue'', False)
        else if cf_Name f = ''name'' then valued (intro_InputValue_name G I p f obj) Null
        else if cf_Name f = ''description'' then valued (intro_InputValue_description G I p f obj) RequiredNull
        else if cf_Name f = ''type'' then valued (intro_InputValue_type G I child p f obj) Null
        else if cf_Name f = ''defaultValue'' then valued (intro_InputValue_defaultValue G I p f obj) RequiredNull
        else if cf_Name f = ''isDeprecated'' then valued (intro_InputValue_isDeprecated G I p f obj) Null
        else if cf_Name f = ''deprecationReason'' then valued (intro_InputValue_deprecationReason G I p f obj) RequiredNull
        else unknown_field f) fs) (\<lambda>vs.
      retM (field_set fs vs)))"

definition intro_Schema_description :: "('sel, 'q) gql \<Rightarrow> introspection \<Rightarrow> path \<Rightarrow> 'sel cfield \<Rightarrow> nat \<Rightarrow> (exec, 'q marshaler) gm" where
  "intro_Schema_description G I p f obj = ResolveField G f (retM [])
     (\<lambda>args. retM (GvStringPtr (Schema_Description I obj)))
     (\<lambda>sel. marshalOString2ptr G) True False"

definition intro_Schema_types :: "('sel, 'q) gql \<Rightarrow> introspection \<Rightarrow> ('sel, 'q) child \<Rightarrow> path \<Rightarrow> 'sel cfield \<Rightarrow> nat \<Rightarrow> (exec, 'q marshaler) gm" where
  "intro_Schema_types G I child p f obj = ResolveField G f (retM [])
     (\<lambda>args. retM (GvIntros (Some (map IType (Schema_Types I obj)))))
     (marshalN_Type2slice G child (p @ [cf_Alias f])) True True"

definition intro_Schema_queryType :: "('sel, 'q) gql \<Rightarrow> introspection \<Rightarrow> ('sel, 'q) child \<Rightarrow> path \<Rightarrow> 'sel cfield \<Rightarrow> nat \<Rightarrow> (exec, 'q marshaler) gm" where
  "intro_Schema_queryType G I child p f obj = ResolveField G f (retM [])
     (\<lambda>args. retM (GvIntro (map_option IType (Schema_QueryType I obj))))
     (marshalN_Type2ptr G child (p @ [cf_Alias f])) True True"

definition intro_Schema_mutationType :: "('sel, 'q) gql \<Rightarrow> introspection \<Rightarrow> ('sel, 'q) child \<Rightarrow> path \<Rightarrow> 'sel cfield \<Rightarrow> nat \<Rightarrow> (exec, 'q marshaler) gm" where
  "intro_Schema_mutationType G I child p f obj = ResolveField G f (retM [])
     (\<lambda>args. retM (GvIntro (map_option IType (Schema_MutationType I obj))))
     (marshalO_Type2ptr G child (p @ [cf_Alias f])) True False"

definition intro_Schema_subscriptionType :: "('sel, 'q) gql \<Rightarrow> introspection \<Rightarrow> ('sel, 'q) child \<Rightarrow> path \<Rightarrow> 'sel cfield \<Rightarrow> nat \<Rightarrow> (exec, 'q marshaler) gm" where
  "intro_Schema_subscriptionType G I child p f obj = ResolveField G f (retM [])
     (\<lambda>args. retM (GvIntro (map_option IType (Schema_SubscriptionType I obj))))
     (marshalO_Type2ptr G child (p @ [cf_Alias f])) True False"

definition intro_Schema_directives :: "('sel, 'q) gql \<Rightarrow> introspection \<Rightarrow> ('sel, 'q) child \<Rightarrow> path \<Rightarrow> 'sel cfield \<Rightarrow> nat \<Rightarrow> (exec, 'q marshaler) gm" where
  "intro_Schema_directives G I child p f obj = ResolveField G f (retM [])
     (\<lambda>args. retM (GvIntros (Some (map IDirective (Schema_Directives I obj)))))
     (marshalN_Directive2slice G child (p @ [cf_Alias f])) True True"

definition object_Schema :: "('sel, 'q) gql \<Rightarrow> introspection \<Rightarrow> ('sel, 'q) child \<Rightarrow> path \<Rightarrow> 'sel \<Rightarrow> nat \<Rightarrow> (exec, 'q marshaler) gm" where
  "object_Schema G I child p sel obj =
     (let fs = CollectFields G sel [''__Schema''] in
      bindM (each_field (\<lambda>f.
        if cf_Name f = ''__typename'' then retM (MarshalString G ''__Schema'', False)
        else if cf_Name f = ''description'' then valued (intro_Schema_description G I p f obj) RequiredNull
        else if cf_Name f = ''types'' then valued (intro_Schema_types G I child p f obj) Null
        else if cf_Name f = ''queryType'' then valued (intro_Schema_queryType G I child p f obj) Null
        else if cf_Name f = ''mutationType'' then valued (intro_Schema_mutationType G I child p f obj) RequiredNull
        else if cf_Name f = ''subscriptionType'' then valued (intro_Schema_subscriptionType G I child p f obj) RequiredNull
        else if cf_Name f = ''directives'' then valued (intro_Schema_directives G I child p f obj) Null
        else unknown_field f) fs) (\<lambda>vs.
      retM (field_set fs vs)))"

definition intro_Type_kind :: "('sel, 'q) gql \<Rightarrow> introspection \<Rightarrow> path \<Rightarrow> 'sel cfield \<Rightarrow> nat \<Rightarrow> (exec, 'q marshaler) gm" where
  "intro_Type_kind G I p f obj = ResolveField G f (retM [])
     (\<lambda>args. retM (GvString (Type_Kind I obj)))
     (\<lambda>sel. as_string (marshalN_TypeKind2string G (p @ [cf_Alias f]))) True True"

definition intro_Type_name :: "('sel, 'q) gql \<Rightarrow> introspection \<Rightarrow> path \<Rightarrow> 'sel cfield \<Rightarrow> nat \<Rightarrow> (exec, 'q marshaler) gm" where
  "intro_Type_name G I p f obj = ResolveField G f (retM [])
     (\<lambda>args. retM (GvStringPtr (Type_Name I obj)))
     (\<lambda>sel. marshalOString2ptr G) True False"

definition intro_Type_description :: "('sel, 'q) gql \<Rightarrow> introspection \<Rightarrow> path \<Rightarrow> 'sel cfield \<Rightarrow> nat \<Rightarrow> (exec, 'q marshaler) gm" where
  "intro_Type_description G I p f obj = ResolveField G f (retM [])
     (\<lambda>args. retM (GvStringPtr (Type_Description I obj)))
     (\<lambda>sel. marshalOString2ptr G) True False"

definition intro_Type_specifiedByURL :: "('sel, 'q) gql \<Rightarrow> introspection \<Rightarrow> path \<Rightarrow> 'sel cfield \<Rightarrow> nat \<Rightarrow> (exec, 'q marshaler) gm" where
  "intro_Type_specifiedByURL G I p f obj = ResolveField G f (retM [])
     (\<lambda>args. retM (GvStringPtr (Type_SpecifiedByURL I obj)))
     (\<lambda>sel. marshalOString2ptr G) True False"

definition fieldContext_Type_fields :: "('sel, 'q) gql \<Rightarrow> path \<Rightarrow> 'sel cfield \<Rightarrow> (exec, args_map) gm" where
  "fieldContext_Type_fields G = decode_args G (field_Type_fields_args G)"

definition intro_Type_fields :: "('sel, 'q) gql \<Rightarrow> introspection \<Rightarrow> ('sel, 'q) child \<Rightarrow> path \<Rightarrow> 'sel cfield \<Rightarrow> nat \<Rightarrow> (exec, 'q marshaler) gm" where
  "intro_Type_fields G I child p f obj = ResolveField G f (fieldContext_Type_fields G p f)
     (\<lambda>args. bindM (liftR (the_plain_bool args ''includeDeprecated'')) (\<lambda>dep.
        retM (GvIntros (map_option (map IField) (Type_Fields I obj dep)))))
     (marshalO_Field2slice G child (p @ [cf_Alias f])) True False"

definition intro_Type_interfaces :: "('sel, 'q) gql \<Rightarrow> introspection \<Rightarrow> ('sel, 'q) child \<Rightarrow> path \<Rightarrow> 'sel cfield \<Rightarrow> nat \<Rightarrow> (exec, 'q marshaler) gm" where
  "intro_Type_interfaces G I child p f obj = ResolveField G f (retM [])
     (\<lambda>args. retM (GvIntros (map_option (map IType) (Type_Interfaces I obj))))
     (marshalO_Type2slice G child (p @ [cf_Alias f])) True False"

definition intro_Type_possibleTypes :: "('sel, 'q) gql \<Rightarrow> introspection \<Rightarrow> ('sel, 'q) child \<Rightarrow> path \<Rightarrow> 'sel cfield \<Rightarrow> nat \<Rightarrow> (exec, 'q marshaler) gm" where
  "intro_Type_possibleTypes G I child p f obj = ResolveField G f (retM [])
     (\<lambda>args. retM (GvIntros (map_option (map IType) (Type_PossibleTypes I obj))))
     (marshalO_Type2slice G child (p @ [cf_Alias f])) True False"

definition fieldContext_Type_enumValues :: "('sel, 'q) gql \<Rightarrow> path \<Rightarrow> 'sel cfield \<Rightarrow> (exec, args_map) gm" where
  "fieldContext_Type_enumValues G = decode_args G (field_Type_enumValues_args G)"

definition intro_Type_enumValues :: "('sel, 'q) gql \<Rightarrow> introspection \<Rightarrow> ('sel, 'q) child \<Rightarrow> path \<Rightarrow> 'sel cfield \<Rightarrow> nat \<Rightarrow> (exec, 'q marshaler) gm" where
  "intro_Type_enumValues G I child p f obj = ResolveField G f (fieldContext_Type_enumValues G p f)
     (\<lambda>args. bindM (liftR (the_plain_bool args ''includeDeprecated'')) (\<lambda>dep.
        retM (GvIntros (map_option (map IEnumValue) (Type_EnumValues I obj dep)))))
     (marshalO_EnumValue2slice G child (p @ [cf_Alias f])) True False"

definition intro_Type_inputFields :: "('sel, 'q) gql \<Rightarrow> introspection \<Rightarrow> ('sel, 'q) child \<Rightarrow> path \<Rightarrow> 'sel cfield \<Rightarrow> nat \<Rightarrow> (exec, 'q marshaler) gm" where
  "intro_Type_inputFields G I child p f obj = ResolveField G f (retM [])
     (\<lambda>args. retM (GvIntros (map_option (map IInputValue) (Type_InputFields I obj))))
     (marshalO_InputValue2slice G child (p @ [cf_Alias f])) True False"

definition intro_Type_ofType :: "('sel, 'q) gql \<Rightarrow> introspection \<Rightarrow> ('sel, 'q) child \<Rightarrow> path \<Rightarrow> 'sel cfield \<Rightarrow> nat \<Rightarrow> (exec, 'q marshaler) gm" where
  "intro_Type_ofType G I child p f obj = ResolveField G f (retM [])
     (\<lambda>args. retM (GvIntro (map_option IType (Type_OfType I obj))))
     (marshalO_Type2ptr G child (p @ [cf_Alias f])) True False"

definition intro_Type_isOneOf :: "('sel, 'q) gql \<Rightarrow> introspection \<Rightarrow> path \<Rightarrow> 'sel cfield \<Rightarrow> nat \<Rightarrow> (exec, 'q marshaler) gm" where
  "intro_Type_isOneOf G I p f obj = ResolveField G f (retM [])
     (\<lambda>args. retM (GvBool (Type_IsOneOf I obj)))
     (\<lambda>sel. as_bool (marshalOBoolean2bool G)) True False"

definition object_Type :: "('sel, 'q) gql \<Rightarrow> introspection \<Rightarrow> ('sel, 'q) child \<Rightarrow> path \<Rightarrow> 'sel \<Rightarrow> nat \<Rightarrow> (exec, 'q marshaler) gm" where
  "object_Type G I child p sel obj =
     (let fs = CollectFields G sel [''__Type''] in
      bindM (each_field (\<lambda>f.
        if cf_Name f = ''__typename'' then retM (MarshalString G ''__Type'', False)
        else if cf_Name f = ''kind'' then valued (intro_Type_kind G I p f obj) Null
        else if cf_Name f = ''name'' then valued (intro_Type_name G I p f obj) RequiredNull
        else if cf_Name f = ''description'' then valued (intro_Type_description G I p f obj) RequiredNull
        else if cf_Name f = ''specifiedByURL'' then valued (intro_Type_specifiedByURL G I p f obj) RequiredNull
        else if cf_Name f = ''fields'' then valued (intro_Type_fields G I child p f obj) RequiredNull
        else if cf_Name f = ''interfaces'' then valued (intro_Type_interfaces G I child p f obj) RequiredNull
        else if cf_Name f = ''possibleTypes'' then valued (intro_Type_possibleTypes G I child p f obj) RequiredNull
        else if cf_Name f = ''enumValues'' then valued (intro_Type_enumValues G I child p f obj) RequiredNull
        else if cf_Name f = ''inputFields'' then valued (intro_Type_inputFields G I child p f obj) RequiredNull
        else if cf_Name f = ''ofType'' then valued (intro_Type_ofType G I child p f obj) RequiredNull
        else if cf_Name f = ''isOneOf'' then valued (intro_Type_isOneOf G I p f obj) RequiredNull
        else unknown_field f) fs) (\<lambda>vs.
      retM (field_set fs vs)))"

text \<open>One level of writing, and all of them.\<close>

fun object_of :: "('sel, 'q) gql \<Rightarrow> introspection \<Rightarrow> ('sel, 'q) child \<Rightarrow> ('sel, 'q) child" where
  "object_of G I child (IDirective n) p sel = object_Directive G I child p sel n"
| "object_of G I child (IEnumValue n) p sel = object_EnumValue G I child p sel n"
| "object_of G I child (IField n) p sel = object_Field G I child p sel n"
| "object_of G I child (IInputValue n) p sel = object_InputValue G I child p sel n"
| "object_of G I child (ISchema n) p sel = object_Schema G I child p sel n"
| "object_of G I child (IType n) p sel = object_Type G I child p sel n"

fun introspect :: "('sel, 'q) gql \<Rightarrow> introspection \<Rightarrow> nat \<Rightarrow> ('sel, 'q) child" where
  "introspect G I 0 obj p sel = liftR (Panic ''out of fuel'')"
| "introspect G I (Suc n) obj p sel = object_of G I (introspect G I n) obj p sel"

section \<open>Root fields\<close>

definition fieldContext_Query_type :: "('sel, 'q) gql \<Rightarrow> path \<Rightarrow> 'sel cfield \<Rightarrow> (exec, args_map) gm" where
  "fieldContext_Query_type G = decode_args G (field_Query_type_args G)"

definition Query_type :: "('sel, 'q) gql \<Rightarrow> introspection \<Rightarrow> nat \<Rightarrow> path \<Rightarrow> 'sel cfield \<Rightarrow> (exec, 'q marshaler) gm" where
  "Query_type G I fuel p f = ResolveField G f (fieldContext_Query_type G p f)
     (\<lambda>args. bindM (liftR (the_string args ''name'')) (\<lambda>name.
        bindM (liftR (IntrospectType I name)) (\<lambda>t. retM (GvIntro (map_option IType t)))))
     (marshalO_Type2ptr G (introspect G I fuel) (p @ [cf_Alias f])) True False"

definition Query_schema :: "('sel, 'q) gql \<Rightarrow> introspection \<Rightarrow> nat \<Rightarrow> path \<Rightarrow> 'sel cfield \<Rightarrow> (exec, 'q marshaler) gm" where
  "Query_schema G I fuel p f = ResolveField G f (retM [])
     (\<lambda>args. bindM (liftR (IntrospectSchema I)) (\<lambda>s. retM (GvIntro (map_option ISchema s))))
     (marshalO_Schema2ptr G (introspect G I fuel) (p @ [cf_Alias f])) True False"

definition introspection_field :: "('sel, 'q) gql \<Rightarrow> introspection \<Rightarrow> nat \<Rightarrow> 'sel cfield \<Rightarrow> (exec, 'q marshaler) gm" where
  "introspection_field G I fuel f =
     (if cf_Name f = ''__type'' then Query_type G I fuel [] f else Query_schema G I fuel [] f)"

section \<open>Child fields\<close>

definition childFields_Directive :: "string \<Rightarrow> (string \<times> string) res" where
  "childFields_Directive name = (
     if name = ''name'' then Ok (''__Directive'', ''name'')
     else if name = ''description'' then Ok (''__Directive'', ''description'')
     else if name = ''isRepeatable'' then Ok (''__Directive'', ''isRepeatable'')
     else if name = ''locations'' then Ok (''__Directive'', ''locations'')
     else if name = ''args'' then Ok (''__Directive'', ''args'')
     else Err (child_error ''__Directive'' name))"

definition childFields_EnumValue :: "string \<Rightarrow> (string \<times> string) res" where
  "childFields_EnumValue name = (
     if name = ''name'' then Ok (''__EnumValue'', ''name'')
     else if name = ''description'' then Ok (''__EnumValue'', ''description'')
     else if name = ''isDeprecated'' then Ok (''__EnumValue'', ''isDeprecated'')
     else if name = ''deprecationReason'' then Ok (''__EnumValue'', ''deprecationReason'')
     else Err (child_error ''__EnumValue'' name))"

definition childFields_Field :: "string \<Rightarrow> (string \<times> string) res" where
  "childFields_Field name = (
     if name = ''name'' then Ok (''__Field'', ''name'')
     else if name = ''description'' then Ok (''__Field'', ''description'')
     else if name = ''args'' then Ok (''__Field'', ''args'')
     else if name = ''type'' then Ok (''__Field'', ''type'')
     else if name = ''isDeprecated'' then Ok (''__Field'', ''isDeprecated'')
     else if name = ''deprecationReason'' then Ok (''__Field'', ''deprecationReason'')
     else Err (child_error ''__Field'' name))"

definition childFields_InputValue :: "string \<Rightarrow> (string \<times> string) res" where
  "childFields_InputValue name = (
     if name = ''name'' then Ok (''__InputValue'', ''name'')
     else if name = ''description'' then Ok (''__InputValue'', ''description'')
     else if name = ''type'' then Ok (''__InputValue'', ''type'')
     else if name = ''defaultValue'' then Ok (''__InputValue'', ''defaultValue'')
     else if name = ''isDeprecated'' then Ok (''__InputValue'', ''isDeprecated'')
     else if name = ''deprecationReason'' then Ok (''__InputValue'', ''deprecationReason'')
     else Err (child_error ''__InputValue'' name))"

definition childFields_Schema :: "string \<Rightarrow> (string \<times> string) res" where
  "childFields_Schema name = (
     if name = ''description'' then Ok (''__Schema'', ''description'')
     else if name = ''types'' then Ok (''__Schema'', ''types'')
     else if name = ''queryType'' then Ok (''__Schema'', ''queryType'')
     else if name = ''mutationType'' then Ok (''__Schema'', ''mutationType'')
     else if name = ''subscriptionType'' then Ok (''__Schema'', ''subscriptionType'')
     else if name = ''directives'' then Ok (''__Schema'', ''directives'')
     else Err (child_error ''__Schema'' name))"

definition childFields_Type :: "string \<Rightarrow> (string \<times> string) res" where
  "childFields_Type name = (
     if name = ''kind'' then Ok (''__Type'', ''kind'')
     else if name = ''name'' then Ok (''__Type'', ''name'')
     else if name = ''description'' then Ok (''__Type'', ''description'')
     else if name = ''specifiedByURL'' then Ok (''__Type'', ''specifiedByURL'')
     else if name = ''fields'' then Ok (''__Type'', ''fields'')
     else if name = ''interfaces'' then Ok (''__Type'', ''interfaces'')
     else if name = ''possibleTypes'' then Ok (''__Type'', ''possibleTypes'')
     else if name = ''enumValues'' then Ok (''__Type'', ''enumValues'')
     else if name = ''inputFields'' then Ok (''__Type'', ''inputFields'')
     else if name = ''ofType'' then Ok (''__Type'', ''ofType'')
     else if name = ''isOneOf'' then Ok (''__Type'', ''isOneOf'')
     else Err (child_error ''__Type'' name))"

section \<open>An object no resolver returns\<close>

record model_FlorinOpenPositionResult =
  fopr_Hash :: string

definition FlorinOpenPositionResult_hash :: "('sel, 'q) gql \<Rightarrow> path \<Rightarrow> 'sel cfield \<Rightarrow> model_FlorinOpenPositionResult \<Rightarrow> (exec, 'q marshaler) gm" where
  "FlorinOpenPositionResult_hash G p f obj =
     plain_field G f (GvString (fopr_Hash obj)) (as_string (marshalNString2string G (p @ [cf_Alias f])))"

definition object_FlorinOpenPositionResult :: "('sel, 'q) gql \<Rightarrow> path \<Rightarrow> 'sel \<Rightarrow> model_FlorinOpenPositionResult \<Rightarrow> (exec, 'q marshaler) gm" where
  "object_FlorinOpenPositionResult G p sel obj =
     (let fs = CollectFields G sel [''FlorinOpenPositionResult''] in
      bindM (each_field (\<lambda>f.
        if cf_Name f = ''__typename'' then retM (MarshalString G ''FlorinOpenPositionResult'', False)
        else if cf_Name f = ''hash'' then valued (FlorinOpenPositionResult_hash G p f obj) Null
        else unknown_field f) fs) (\<lambda>vs.
      retM (field_set fs vs)))"

section \<open>Documented behaviour\<close>

text \<open>A selection is finite: what is selected below a field nests less deeply.\<close>

definition nests :: "('sel, 'q) gql \<Rightarrow> ('sel \<Rightarrow> nat) \<Rightarrow> bool" where
  "nests G depth \<longleftrightarrow> (\<forall>sel impl. \<forall>f\<in>set (CollectFields G sel impl). depth (cf_Selections f) < depth sel)"

text \<open>An instance: a schema with a single type, which is made of itself.\<close>

definition ref_intro :: introspection where
  "ref_intro = \<lparr>Directive_Name = (\<lambda>n. ''t''), Directive_Description = (\<lambda>n. Some ''t''), Directive_IsRepeatable = (\<lambda>n. False),
     Directive_Locations = (\<lambda>n. []), Directive_Args = (\<lambda>n. [n]), EnumValue_Name = (\<lambda>n. ''t''),
     EnumValue_Description = (\<lambda>n. Some ''t''), EnumValue_IsDeprecated = (\<lambda>n. False), EnumValue_DeprecationReason = (\<lambda>n. Some ''t''),
     Field_Name = (\<lambda>n. ''t''), Field_Description = (\<lambda>n. Some ''t''), Field_Args = (\<lambda>n. [n]),
     Field_Type = (\<lambda>n. Some n), Field_IsDeprecated = (\<lambda>n. False), Field_DeprecationReason = (\<lambda>n. Some ''t''),
     InputValue_Name = (\<lambda>n. ''t''), InputValue_Description = (\<lambda>n. Some ''t''), InputValue_Type = (\<lambda>n. Some n),
     InputValue_DefaultValue = (\<lambda>n. Some ''t''), InputValue_IsDeprecated = (\<lambda>n. False), InputValue_DeprecationReason = (\<lambda>n. Some ''t''),
     Schema_Description = (\<lambda>n. Some ''t''), Schema_Types = (\<lambda>n. [n]), Schema_QueryType = (\<lambda>n. Some n),
     Schema_MutationType = (\<lambda>n. Some n), Schema_SubscriptionType = (\<lambda>n. Some n), Schema_Directives = (\<lambda>n. [n]),
     Type_Kind = (\<lambda>n. ''OBJECT''), Type_Name = (\<lambda>n. Some ''t''), Type_Description = (\<lambda>n. Some ''t''),
     Type_SpecifiedByURL = (\<lambda>n. Some ''t''), Type_Fields = (\<lambda>n dep. Some [n]), Type_Interfaces = (\<lambda>n. None),
     Type_PossibleTypes = (\<lambda>n. None), Type_EnumValues = (\<lambda>n dep. Some [n]), Type_InputFields = (\<lambda>n. None),
     Type_OfType = (\<lambda>n. Some n), Type_IsOneOf = (\<lambda>n. False), IntrospectType = (\<lambda>name. Ok (Some 0)),
     IntrospectSchema = Ok (Some 0)\<rparr>"

fun sel_depth :: "selection \<Rightarrow> nat" where
  "sel_depth (Selection xs) = Suc (sum_list (map (\<lambda>(n, a, r, t). sel_depth t) xs))"

definition ref_intro_field :: "selection cfield" where
  "ref_intro_field = \<lparr>cf_Name = ''__schema'', cf_Alias = ''s'', cf_ArgumentMap = [], cf_Selections =
     Selection [(''queryType'', ''q'', [], Selection [(''ofType'', ''o'', [], Selection [(''name'', ''n'', [], Selection [])])])]\<rparr>"

section \<open>Lemmas\<close>

subsection \<open>Introspection leaves the world alone\<close>

lemma world_same_slice: "gql_ok G \<Longrightarrow> (\<And>i. world_same (el i)) \<Longrightarrow> world_same (marshal_slice G n el)"
  unfolding marshal_slice_def by (intro world_same_bindM gql_okD(10) world_same_simps)

lemma world_same_values:
  assumes "gql_ok G"
  shows "world_same (as_string (marshalN_TypeKind2string G p) v)" "world_same (as_bool (marshalOBoolean2bool G) v)"
    "world_same (marshalOString2ptr G v)" "world_same (marshalN_DirectiveLocation2strings G p v)"
proof -
  show "world_same (as_string (marshalN_TypeKind2string G p) v)"
    by (cases v) (simp_all only: as_string.simps marshalN_TypeKind2string_def world_same_simps)
  show "world_same (as_bool (marshalOBoolean2bool G) v)"
    by (cases v) (simp_all only: as_bool.simps marshalOBoolean2bool_def world_same_simps)
  show "world_same (marshalOString2ptr G v)"
    by (cases "(G, v)" rule: marshalOString2ptr.cases) (simp_all only: prod.inject marshalOString2ptr.simps world_same_simps)
  show "world_same (marshalN_DirectiveLocation2strings G p v)"
    by (cases v) (simp_all only: marshalN_DirectiveLocation2strings.simps marshalN_DirectiveLocation2string_def
        world_same_slice [OF assms] world_same_simps)
qed

lemma world_same_children:
  assumes "gql_ok G" and "\<And>obj p sel. world_same (child obj p sel)"
  shows "world_same (marshalN_Type2ptr G child p sel v)" "world_same (marshalO_Type2ptr G child p sel v)"
    "world_same (marshalO_Schema2ptr G child p sel v)" "world_same (marshalO_Type2slice G child p sel v)"
    "world_same (marshalO_Field2slice G child p sel v)" "world_same (marshalO_EnumValue2slice G child p sel v)"
    "world_same (marshalO_InputValue2slice G child p sel v)" "world_same (marshalN_Type2slice G child p sel v)"
    "world_same (marshalN_InputValue2slice G child p sel v)" "world_same (marshalN_Directive2slice G child p sel v)"
proof -
  show "world_same (marshalN_Type2ptr G child p sel v)"
    by (cases "(G, child, p, sel, v)" rule: marshalN_Type2ptr.cases) (auto simp only: prod.inject marshalN_Type2ptr.simps world_same_simps assms(2))
  show "world_same (marshalO_Type2ptr G child p sel v)"
    by (cases "(G, child, p, sel, v)" rule: marshalO_Type2ptr.cases) (auto simp only: prod.inject marshalO_Type2ptr.simps world_same_simps assms(2))
  show "world_same (marshalO_Schema2ptr G child p sel v)"
    by (cases "(G, child, p, sel, v)" rule: marshalO_Schema2ptr.cases) (auto simp only: prod.inject marshalO_Schema2ptr.simps world_same_simps assms(2))
  show "world_same (marshalO_Type2slice G child p sel v)"
    by (cases "(G, child, p, sel, v)" rule: marshalO_Type2slice.cases)
      (auto simp only: prod.inject marshalO_Type2slice.simps world_same_simps world_same_slice [OF assms(1)] assms(2))
  show "world_same (marshalO_Field2slice G child p sel v)"
    by (cases "(G, child, p, sel, v)" rule: marshalO_Field2slice.cases)
      (auto simp only: prod.inject marshalO_Field2slice.simps world_same_simps world_same_slice [OF assms(1)] assms(2))
  show "world_same (marshalO_EnumValue2slice G child p sel v)"
    by (cases "(G, child, p, sel, v)" rule: marshalO_EnumValue2slice.cases)
      (auto simp only: prod.inject marshalO_EnumValue2slice.simps world_same_simps world_same_slice [OF assms(1)] assms(2))
  show "world_same (marshalO_InputValue2slice G child p sel v)"
    by (cases "(G, child, p, sel, v)" rule: marshalO_InputValue2slice.cases)
      (auto simp only: prod.inject marshalO_InputValue2slice.simps world_same_simps world_same_slice [OF assms(1)] assms(2))
  show "world_same (marshalN_Type2slice G child p sel v)" "world_same (marshalN_InputValue2slice G child p sel v)"
    "world_same (marshalN_Directive2slice G child p sel v)"
    by (cases v; simp only: Let_def marshalN_Type2slice.simps marshalN_InputValue2slice.simps marshalN_Directive2slice.simps
        world_same_simps world_same_slice [OF assms(1)] assms(2))+
qed

lemmas intro_defs =
    intro_Directive_name_def intro_Directive_description_def intro_Directive_isRepeatable_def intro_Directive_locations_def
    intro_Directive_args_def intro_EnumValue_name_def intro_EnumValue_description_def intro_EnumValue_isDeprecated_def
    intro_EnumValue_deprecationReason_def intro_Field_name_def intro_Field_description_def intro_Field_args_def intro_Field_type_def
    intro_Field_isDeprecated_def intro_Field_deprecationReason_def intro_InputValue_name_def intro_InputValue_description_def
    intro_InputValue_type_def intro_InputValue_defaultValue_def intro_InputValue_isDeprecated_def intro_InputValue_deprecationReason_def
    intro_Schema_description_def intro_Schema_types_def intro_Schema_queryType_def intro_Schema_mutationType_def
    intro_Schema_subscriptionType_def intro_Schema_directives_def intro_Type_kind_def intro_Type_name_def intro_Type_description_def
    intro_Type_specifiedByURL_def intro_Type_fields_def intro_Type_interfaces_def intro_Type_possibleTypes_def intro_Type_enumValues_def
    intro_Type_inputFields_def intro_Type_ofType_def intro_Type_isOneOf_def

lemmas object_defs =
    object_Directive_def object_EnumValue_def object_Field_def object_InputValue_def object_Schema_def object_Type_def

lemmas context_defs = fieldContext_Directive_args_def fieldContext_Field_args_def fieldContext_Type_fields_def fieldContext_Type_enumValues_def

lemma world_same_object_of:
  assumes "gql_ok G" and "\<And>obj p sel. world_same (child obj p sel)"
  shows "world_same (object_of G I child obj p sel)"
  by (cases obj; simp only: object_of.simps object_defs intro_defs context_defs Let_def gql_okD(2) [OF assms(1)];
      intro world_same_bindM world_same_each world_same_if world_same_valued world_same_resolve world_same_as
        world_same_values [OF assms(1)] world_same_children [OF assms] world_same_simps world_same_unknown)

lemma world_same_introspect: "gql_ok G \<Longrightarrow> world_same (introspect G I n obj p sel)"
  by (induction n arbitrary: obj p sel) (simp_all only: introspect.simps world_same_simps world_same_object_of)

lemma world_same_introspection_field: "gql_ok G \<Longrightarrow> world_same (introspection_field G I fuel f)"
  unfolding introspection_field_def Query_type_def Query_schema_def fieldContext_Query_type_def
  by (simp only: gql_okD(2))
    (intro world_same_if world_same_resolve world_same_bindM world_same_simps world_same_children world_same_introspect)

subsection \<open>Enough fuel\<close>

lemma each_field_cong: "(\<And>f. f \<in> set fs \<Longrightarrow> g f = h f) \<Longrightarrow> each_field g fs = each_field h fs"
  by (induction fs) simp_all

lemma resolve_agree:
  "marsh (cf_Selections f) = marsh' (cf_Selections f) \<Longrightarrow> resolve_spec G f init res marsh = resolve_spec G f init res marsh'"
  by (intro ext) (simp add: resolve_spec_def cong: res.case_cong prod.case_cong)

lemma children_agree:
  assumes "\<And>obj p. c1 obj p sel = c2 obj p sel"
  shows "marshalN_Type2ptr G c1 p sel = marshalN_Type2ptr G c2 p sel" "marshalO_Type2ptr G c1 p sel = marshalO_Type2ptr G c2 p sel"
    "marshalO_Schema2ptr G c1 p sel = marshalO_Schema2ptr G c2 p sel" "marshalO_Type2slice G c1 p sel = marshalO_Type2slice G c2 p sel"
    "marshalO_Field2slice G c1 p sel = marshalO_Field2slice G c2 p sel"
    "marshalO_EnumValue2slice G c1 p sel = marshalO_EnumValue2slice G c2 p sel"
    "marshalO_InputValue2slice G c1 p sel = marshalO_InputValue2slice G c2 p sel"
    "marshalN_Type2slice G c1 p sel = marshalN_Type2slice G c2 p sel"
    "marshalN_InputValue2slice G c1 p sel = marshalN_InputValue2slice G c2 p sel"
    "marshalN_Directive2slice G c1 p sel = marshalN_Directive2slice G c2 p sel"
proof -
  have "marshalN_Type2ptr G c1 p sel v = marshalN_Type2ptr G c2 p sel v" "marshalO_Type2ptr G c1 p sel v = marshalO_Type2ptr G c2 p sel v"
    "marshalO_Schema2ptr G c1 p sel v = marshalO_Schema2ptr G c2 p sel v" for v
    by (cases v; (cases "case v of GvIntro x \<Rightarrow> x | _ \<Rightarrow> None")?; simp add: assms)+
  then show "marshalN_Type2ptr G c1 p sel = marshalN_Type2ptr G c2 p sel" "marshalO_Type2ptr G c1 p sel = marshalO_Type2ptr G c2 p sel"
    "marshalO_Schema2ptr G c1 p sel = marshalO_Schema2ptr G c2 p sel" by blast+
  have "marshalO_Type2slice G c1 p sel v = marshalO_Type2slice G c2 p sel v"
    "marshalO_Field2slice G c1 p sel v = marshalO_Field2slice G c2 p sel v"
    "marshalO_EnumValue2slice G c1 p sel v = marshalO_EnumValue2slice G c2 p sel v"
    "marshalO_InputValue2slice G c1 p sel v = marshalO_InputValue2slice G c2 p sel v" for v
    by (cases v; (cases "case v of GvIntros x \<Rightarrow> x | _ \<Rightarrow> None")?; simp add: assms)+
  then show "marshalO_Type2slice G c1 p sel = marshalO_Type2slice G c2 p sel"
    "marshalO_Field2slice G c1 p sel = marshalO_Field2slice G c2 p sel"
    "marshalO_EnumValue2slice G c1 p sel = marshalO_EnumValue2slice G c2 p sel"
    "marshalO_InputValue2slice G c1 p sel = marshalO_InputValue2slice G c2 p sel" by blast+
  have "marshalN_Type2slice G c1 p sel v = marshalN_Type2slice G c2 p sel v"
    "marshalN_InputValue2slice G c1 p sel v = marshalN_InputValue2slice G c2 p sel v"
    "marshalN_Directive2slice G c1 p sel v = marshalN_Directive2slice G c2 p sel v" for v
    by (cases v; simp add: assms)+
  then show "marshalN_Type2slice G c1 p sel = marshalN_Type2slice G c2 p sel"
    "marshalN_InputValue2slice G c1 p sel = marshalN_InputValue2slice G c2 p sel"
    "marshalN_Directive2slice G c1 p sel = marshalN_Directive2slice G c2 p sel" by blast+
qed

lemma fields_agree:
  assumes "gql_ok G" and "\<And>obj p. c1 obj p (cf_Selections f) = c2 obj p (cf_Selections f)"
  shows
    "intro_Directive_args G I c1 p f n = intro_Directive_args G I c2 p f n"
    "intro_Field_args G I c1 p f n = intro_Field_args G I c2 p f n"
    "intro_Field_type G I c1 p f n = intro_Field_type G I c2 p f n"
    "intro_InputValue_type G I c1 p f n = intro_InputValue_type G I c2 p f n"
    "intro_Schema_types G I c1 p f n = intro_Schema_types G I c2 p f n"
    "intro_Schema_queryType G I c1 p f n = intro_Schema_queryType G I c2 p f n"
    "intro_Schema_mutationType G I c1 p f n = intro_Schema_mutationType G I c2 p f n"
    "intro_Schema_subscriptionType G I c1 p f n = intro_Schema_subscriptionType G I c2 p f n"
    "intro_Schema_directives G I c1 p f n = intro_Schema_directives G I c2 p f n"
    "intro_Type_fields G I c1 p f n = intro_Type_fields G I c2 p f n"
    "intro_Type_interfaces G I c1 p f n = intro_Type_interfaces G I c2 p f n"
    "intro_Type_possibleTypes G I c1 p f n = intro_Type_possibleTypes G I c2 p f n"
    "intro_Type_enumValues G I c1 p f n = intro_Type_enumValues G I c2 p f n"
    "intro_Type_inputFields G I c1 p f n = intro_Type_inputFields G I c2 p f n"
    "intro_Type_ofType G I c1 p f n = intro_Type_ofType G I c2 p f n"
  unfolding
    intro_Directive_args_def intro_Field_args_def intro_Field_type_def intro_InputValue_type_def intro_Schema_types_def
    intro_Schema_queryType_def intro_Schema_mutationType_def intro_Schema_subscriptionType_def intro_Schema_directives_def
    intro_Type_fields_def intro_Type_interfaces_def intro_Type_possibleTypes_def intro_Type_enumValues_def intro_Type_inputFields_def
    intro_Type_ofType_def
    gql_okD(2) [OF assms(1)]
  by (rule resolve_agree, rule children_agree, rule assms(2))+

lemma object_of_agree:
  assumes "gql_ok G" and "nests G depth" and "\<And>obj p s. depth s < depth sel \<Longrightarrow> c1 obj p s = c2 obj p s"
  shows "object_of G I c1 obj p sel = object_of G I c2 obj p sel"
proof -
  have "c1 obj p (cf_Selections f) = c2 obj p (cf_Selections f)" if "f \<in> set (CollectFields G sel impl)" for f obj p impl
    using assms(2,3) that unfolding nests_def by blast
  note eqs = fields_agree [OF assms(1), of c1 _ c2, OF this]
  show ?thesis
    by (cases obj; simp only: object_of.simps object_defs Let_def;
        rule arg_cong2 [where f = bindM, OF each_field_cong refl]; simp only: eqs)
qed

lemma introspect_fuel:
  assumes "gql_ok G" and "nests G depth"
  shows "depth sel < n \<Longrightarrow> depth sel < m \<Longrightarrow> introspect G I n obj p sel = introspect G I m obj p sel"
proof (induction n arbitrary: m obj p sel)
  case (Suc n)
  obtain k where m: "m = Suc k" using Suc.prems(2) by (cases m) simp_all
  have "introspect G I n obj p s = introspect G I k obj p s" if "depth s < depth sel" for obj p s
    by (rule Suc.IH) (use Suc.prems that m in simp_all)
  then show ?case unfolding m introspect.simps by (rule object_of_agree [OF assms])
qed simp

lemma ref_nests: "nests ref_gql sel_depth"
proof -
  have "sel_depth (cf_Selections f) < sel_depth (Selection xs)" if "f \<in> set (CollectFields ref_gql (Selection xs) impl)" for f xs impl
  proof -
    from that obtain n a r t where "(n, a, r, t) \<in> set xs" "cf_Selections f = t" by (auto simp: ref_gql_def)
    then have "sel_depth (cf_Selections f) \<le> sum_list (map (\<lambda>(n, a, r, t). sel_depth t) xs)"
      by (intro member_le_sum_list) (force simp: image_iff, simp)
    then show ?thesis by simp
  qed
  then show ?thesis unfolding nests_def by (metis selection.exhaust)
qed

text \<open>The law the executor needs of introspection holds of the generated resolvers.\<close>

lemma resolve_spec_introspect: "resolve_spec (G\<lparr>Introspect := h\<rparr>) = resolve_spec G"
proof -
  have "recovered (G\<lparr>Introspect := h\<rparr>) = recovered G" by (intro ext) (simp add: recovered_def split: prod.split res.split)
  then show ?thesis by (intro ext) (simp only: resolve_spec_def)
qed

lemma gql_ok_introspection: "gql_ok G \<Longrightarrow> gql_ok (G\<lparr>Introspect := introspection_field G I n\<rparr>)"
  using world_same_introspection_field [of G I n]
  by (simp add: gql_ok_def resolve_spec_introspect inputs_ok_def world_same_def)

section \<open>Properties\<close>

text \<open>C21. Introspection ends although the schema it walks may be cyclic. What \<open>_Query___schema\<close> and \<open>_Query___type\<close>
  answer needs no more nested calls of the object functions than the request's own selection is deep: from that fuel on every
  fuel gives the same answer, whatever the accessors of the schema return, so the recursion of \<open>____Type\<close> through
  \<open>ofType\<close>, \<open>fields\<close> and \<open>interfaces\<close> is bounded by the query and not by the schema.\<close>

theorem introspection_ends:
  assumes "gql_ok G" and "nests G depth" and "depth (cf_Selections f) < n"
  shows "introspection_field G I n f = introspection_field G I (Suc (depth (cf_Selections f))) f"
proof -
  have "introspect G I n obj p (cf_Selections f) = introspect G I (Suc (depth (cf_Selections f))) obj p (cf_Selections f)" for obj p
    by (rule introspect_fuel [OF assms(1,2)]) (use assms(3) in simp_all)
  note eqs = children_agree [of "introspect G I n" "cf_Selections f" "introspect G I (Suc (depth (cf_Selections f)))", OF this]
  show ?thesis
    unfolding introspection_field_def Query_type_def Query_schema_def gql_okD(2) [OF assms(1)] Let_def
    by (rule arg_cong2 [where f = "If (cf_Name f = ''__type'')"]; rule resolve_agree; rule eqs)
qed

text \<open>C29. A service with introspection only reads on a query. With the generated resolvers of \<open>__schema\<close> and \<open>__type\<close> in
  the place of the executor's introspection parameter, whatever a query selects of the service and of its schema, to whatever
  depth and whichever of the fields panic or fail, the tables, the transactions and the alarms are after it what they were.\<close>

theorem introspection_silent:
  assumes "gql_ok G"
  shows "x_world (snd (Exec (G\<lparr>Introspect := introspection_field G I n\<rparr>) avg E R c OpQuery sel first x)) = x_world x"
  using queries_read_only [OF gql_ok_introspection [OF assms]] by blast

section \<open>Witnesses\<close>

theorem introspection_ends_witness:
  "introspection_field ref_gql ref_intro 1000 ref_intro_field = introspection_field ref_gql ref_intro 5 ref_intro_field \<and>
   fst (introspection_field ref_gql ref_intro 5 ref_intro_field \<lparr>x_world = ref_world, x_errors = []\<rparr>) =
     Ok (MObject [(''q'', MObject [(''o'', MObject [(''n'', MString ''t'')])])])"
proof (rule conjI)
  show "introspection_field ref_gql ref_intro 1000 ref_intro_field = introspection_field ref_gql ref_intro 5 ref_intro_field"
  proof -
    have depth: "sel_depth (cf_Selections ref_intro_field) = 4" by (simp add: ref_intro_field_def)
    show ?thesis using introspection_ends [OF ref_gql_ok ref_nests, of ref_intro_field 1000 ref_intro] unfolding depth by simp
  qed
  show "fst (introspection_field ref_gql ref_intro 5 ref_intro_field \<lparr>x_world = ref_world, x_errors = []\<rparr>) =
     Ok (MObject [(''q'', MObject [(''o'', MObject [(''n'', MString ''t'')])])])"
    by (simp add: introspection_field_def ref_intro_field_def Query_schema_def ref_gql_def ref_intro_def eval_nat_numeral
        object_Schema_def object_Type_def intro_Schema_queryType_def intro_Type_ofType_def intro_Type_name_def valued_def bindM_def field_set_def)
qed

theorem introspection_silent_witness:
  "x_world (snd (Exec (ref_gql\<lparr>Introspect := introspection_field ref_gql ref_intro 5\<rparr>) (\<lambda>_. 0) ref_env ref_resolver anon_ctx OpQuery
     (Selection [(''__schema'', ''s'', [], cf_Selections ref_intro_field)]) True \<lparr>x_world = ref_world, x_errors = []\<rparr>)) = ref_world"
  by (simp add: introspection_silent [OF ref_gql_ok])

end
