(* ===== verification/Scheduling.thy ===== *)
theory Scheduling
  imports Executor
begin

text \<open>
  The order of concurrent work (\<^verbatim>\<open>graph/generated.go\<close>, \<^verbatim>\<open>_Query\<close> and the marshalling of the
  statistics): the fields of a query and the rows of the statistics are computed by as many
  goroutines, which finish in any order. Below: such work depends on the world alone and
  only reports errors, so every order yields the same answer with the same errors.
\<close>

section \<open>Definitions\<close>

text \<open>Work that reads the world, reports errors of its own and does nothing else.\<close>

definition reads_with :: "(world \<Rightarrow> 'a res \<times> string list) \<Rightarrow> (exec, 'a) gm \<Rightarrow> bool" where
  "reads_with h m \<longleftrightarrow> (\<forall>x. m x = (fst (h (x_world x)), x\<lparr>x_errors := x_errors x @ snd (h (x_world x))\<rparr>))"

definition reads :: "(exec, 'a) gm \<Rightarrow> bool" where
  "reads m \<longleftrightarrow> (\<exists>h. reads_with h m)"

text \<open>Marshalling a slice of elements that only read only reads.\<close>

definition slices_read :: "('sel, 'q) gql \<Rightarrow> bool" where
  "slices_read G \<longleftrightarrow> (\<forall>n el. (\<forall>i. reads (el i)) \<longrightarrow> reads (MarshalSliceConcurrently G n el))"

text \<open>The names of the rows of the statistics, and a written row.\<close>

definition row_field :: "'q model_Statistics \<Rightarrow> string \<Rightarrow> 'q marshaler option" where
  "row_field s = map_of [(''__typename'', MString ''Statistics''), (''action'', MString (stats_Action s)),
     (''avgGasLimit24Hours'', MFloat (stats_AvgGasLimit24Hours s)), (''avgGasLimitWeek'', MFloat (stats_AvgGasLimitWeek s)),
     (''avgGasLimitAllTime'', MFloat (stats_AvgGasLimitAllTime s)), (''tx24Hours'', MInt (stats_Tx24Hours s)),
     (''txWeek'', MInt (stats_TxWeek s)), (''txAllTime'', MInt (stats_TxAllTime s))]"

section \<open>Lemmas\<close>

subsection \<open>What only reads\<close>

lemma readsI: "(\<And>x. m x = (f (x_world x), x\<lparr>x_errors := x_errors x @ g (x_world x)\<rparr>)) \<Longrightarrow> reads m"
  unfolding reads_def reads_with_def by (rule exI [of _ "\<lambda>w. (f w, g w)"]) simp

text \<open>A choice of the function for work that takes an argument.\<close>

lemma reads_family: "(\<And>a. reads (m a)) \<Longrightarrow> \<exists>k. \<forall>a. reads_with (k a) (m a)"
  unfolding reads_def by (rule choice) simp

lemma reads_liftR: "reads (liftR r)"
  by (rule readsI [where f = "\<lambda>_. r" and g = "\<lambda>_. []"]) simp

lemma reads_retM: "reads (retM v)"
  by (rule readsI [where f = "\<lambda>_. Ok v" and g = "\<lambda>_. []"]) simp

lemma reads_bindM:
  assumes "reads m" and "\<And>v. reads (f v)"
  shows "reads (bindM m f)"
proof -
  obtain h where h: "reads_with h m" using assms(1) by (auto simp: reads_def)
  obtain k where k: "\<forall>v. reads_with (k v) (f v)" using reads_family [of f] assms(2) by blast
  show ?thesis
    by (rule readsI [where f = "\<lambda>w. case fst (h w) of Ok v \<Rightarrow> fst (k v w) | Err e \<Rightarrow> Err e | Panic q \<Rightarrow> Panic q | Exit e \<Rightarrow> Exit e"
          and g = "\<lambda>w. snd (h w) @ (case fst (h w) of Ok v \<Rightarrow> snd (k v w) | _ \<Rightarrow> [])"])
      (use h k in \<open>simp add: reads_with_def bindM_def split: res.split\<close>)
qed

lemma reads_decode: "reads (decode_args G dec p f)"
  by (rule readsI [where f = "\<lambda>_. case dec (p @ [cf_Alias f]) (cf_ArgumentMap f) of
        Ok a \<Rightarrow> Ok a | Err e \<Rightarrow> Err e | Panic q \<Rightarrow> Err (Recover G q) | Exit e \<Rightarrow> Exit e"
        and g = "\<lambda>_. case dec (p @ [cf_Alias f]) (cf_ArgumentMap f) of
        Ok a \<Rightarrow> [] | Err e \<Rightarrow> [e] | Panic q \<Rightarrow> [Recover G q] | Exit e \<Rightarrow> []"])
    (simp add: decode_args_def add_error_def split: res.split)

lemma reads_on_world:
  assumes "keeps (=) m" shows "reads (on_world m)"
proof (rule readsI [where f = "\<lambda>w. fst (m w)" and g = "\<lambda>_. []"])
  fix x :: exec
  have "snd (m (x_world x)) = x_world x" using assms by (simp add: keeps_def eq_commute)
  then show "on_world m x = (fst (m (x_world x)), x\<lparr>x_errors := x_errors x @ []\<rparr>)"
    by (simp add: on_world_def case_prod_unfold)
qed

lemma reads_recovered: "reads m \<Longrightarrow> reads (recovered G m)"
proof -
  assume "reads m"
  then obtain h where h: "reads_with h m" by (auto simp: reads_def)
  show ?thesis
    by (rule readsI [where f = "\<lambda>w. case fst (h w) of Panic q \<Rightarrow> Ok Null | r \<Rightarrow> r"
          and g = "\<lambda>w. snd (h w) @ (case fst (h w) of Panic q \<Rightarrow> [Recover G q] | _ \<Rightarrow> [])"])
      (use h in \<open>simp add: reads_with_def recovered_def add_error_def split: res.split\<close>)
qed

lemma reads_recovering: "reads m \<Longrightarrow> reads (recovering G m)"
proof -
  assume "reads m"
  then obtain h where h: "reads_with h m" by (auto simp: reads_def)
  show ?thesis
    by (rule readsI [where f = "\<lambda>w. case fst (h w) of Panic q \<Rightarrow> Ok (NilMarshaler, False) | r \<Rightarrow> r"
          and g = "\<lambda>w. snd (h w) @ (case fst (h w) of Panic q \<Rightarrow> [Recover G q] | _ \<Rightarrow> [])"])
      (use h in \<open>simp add: reads_with_def recovering_def add_error_def split: res.split\<close>)
qed

lemma reads_resolve:
  assumes "reads init" and "\<And>a. reads (resolve a)" and "\<And>s v. reads (marsh s v)"
  shows "reads (resolve_spec G f init resolve marsh)"
proof -
  define run where "run = (\<lambda>a y. case resolve a y of (Ok v, z) \<Rightarrow> marsh (cf_Selections f) v z
      | (Err e, z) \<Rightarrow> (Ok Null, add_error e z) | (Panic q, z) \<Rightarrow> (Panic q, z) | (Exit e, z) \<Rightarrow> (Exit e, z))"
  have "reads (run a)" for a
  proof -
    obtain h where h: "reads_with h (resolve a)" using assms(2) by (auto simp: reads_def)
    obtain k where k: "\<forall>v. reads_with (k v) (marsh (cf_Selections f) v)" using reads_family [of "marsh (cf_Selections f)"] assms(3) by blast
    show ?thesis
      by (rule readsI [where f = "\<lambda>w. case fst (h w) of Ok v \<Rightarrow> fst (k v w) | Err e \<Rightarrow> Ok Null | Panic q \<Rightarrow> Panic q | Exit e \<Rightarrow> Exit e"
            and g = "\<lambda>w. snd (h w) @ (case fst (h w) of Ok v \<Rightarrow> snd (k v w) | Err e \<Rightarrow> [e] | _ \<Rightarrow> [])"])
        (use h k in \<open>simp add: run_def reads_with_def add_error_def split: res.split\<close>)
  qed
  then have "\<And>a. reads (recovered G (run a))" by (rule reads_recovered)
  then obtain k where k: "\<forall>a. reads_with (k a) (recovered G (run a))"
    using reads_family [of "\<lambda>a. recovered G (run a)"] by blast
  obtain h where h: "reads_with h init" using assms(1) by (auto simp: reads_def)
  have eq: "resolve_spec G f init resolve marsh = (\<lambda>x. case init x of (Ok a, y) \<Rightarrow> recovered G (run a) y
      | (Err e, y) \<Rightarrow> (Ok Null, y) | (Panic q, y) \<Rightarrow> (Panic q, y) | (Exit e, y) \<Rightarrow> (Exit e, y))"
    unfolding resolve_spec_def run_def ..
  show ?thesis
    unfolding eq
    by (rule readsI [where f = "\<lambda>w. case fst (h w) of Ok a \<Rightarrow> fst (k a w) | Err e \<Rightarrow> Ok Null | Panic q \<Rightarrow> Panic q | Exit e \<Rightarrow> Exit e"
          and g = "\<lambda>w. snd (h w) @ (case fst (h w) of Ok a \<Rightarrow> snd (k a w) | _ \<Rightarrow> [])"])
      (use h k in \<open>simp add: reads_with_def split: res.split\<close>)
qed

lemma reads_run: "(\<And>i. reads (task i)) \<Longrightarrow> reads (run_order is task vs)"
  by (induction "is" arbitrary: vs) (auto intro: reads_bindM reads_retM)

lemma reads_each: "(\<And>f. reads (h f)) \<Longrightarrow> reads (each_field h fs)"
  by (induction fs) (auto intro: reads_bindM reads_retM)

lemma reads_if: "reads m \<Longrightarrow> reads n \<Longrightarrow> reads (if b then m else n)"
  by simp

lemma reads_valued: "reads m \<Longrightarrow> reads (valued m bad)"
  unfolding valued_def by (intro reads_bindM reads_retM)

lemma reads_resolver:
  assumes "\<And>m. call = Ok m \<Longrightarrow> keeps (=) m" shows "reads (resolver con call)"
proof (cases "\<exists>m. call = Ok m")
  case True
  then obtain m where m: "call = Ok m" by blast
  show ?thesis unfolding m resolver_Ok by (intro reads_bindM reads_on_world assms m reads_retM)
next
  case False
  then have "resolver con call = bindM (liftR call) (\<lambda>_. liftR undefined)"
    by (cases call) (auto simp: resolver_def bindM_def)
  then show ?thesis by (simp add: reads_bindM reads_liftR)
qed

subsection \<open>Any order\<close>

lemma run_order_Ok:
  assumes "\<And>i. reads_with (h i) (task i)" and "\<forall>i\<in>set is. fst (h i (x_world x)) = Ok (g i)"
  shows "run_order is task vs x = (Ok (fold (\<lambda>i vs. vs[i := g i]) is vs),
    x\<lparr>x_errors := x_errors x @ concat (map (\<lambda>i. snd (h i (x_world x))) is)\<rparr>)"
  using assms(2)
proof (induction "is" arbitrary: vs x)
  case (Cons i "is")
  have i: "task i x = (Ok (g i), x\<lparr>x_errors := x_errors x @ snd (h i (x_world x))\<rparr>)"
    using assms(1) [of i] Cons.prems by (simp add: reads_with_def)
  show ?case
    using Cons.IH [of "x\<lparr>x_errors := x_errors x @ snd (h i (x_world x))\<rparr>" "vs[i := g i]"] Cons.prems
    by (simp add: bindM_def i)
qed simp

lemma run_order_OkD:
  assumes "\<And>i. reads_with (h i) (task i)" and "run_order is task vs x = (Ok us, y)"
  shows "\<exists>g. \<forall>i\<in>set is. fst (h i (x_world x)) = Ok (g i)"
proof -
  have "\<forall>i\<in>set is. \<exists>v. fst (h i (x_world x)) = Ok v"
    using assms(2)
  proof (induction "is" arbitrary: vs x)
    case (Cons i "is")
    then obtain v z where v: "task i x = (Ok v, z)" "run_order is task (vs[i := v]) z = (Ok us, y)"
      by (auto simp: bindM_Ok_iff)
    have z: "fst (h i (x_world x)) = Ok v" "x_world z = x_world x"
      using assms(1) [of i] v(1) by (auto simp: reads_with_def)
    from Cons.IH [OF v(2)] z show ?case by simp
  qed simp
  then show ?thesis by (rule bchoice)
qed

lemma fold_update_permute:
  assumes "mset is = mset js" shows "fold (\<lambda>i vs. vs[i := g i]) is vs = fold (\<lambda>i vs. vs[i := g i]) js vs"
proof -
  have "(\<lambda>vs. vs[i := g i]) \<circ> (\<lambda>vs. vs[j := g j]) = (\<lambda>vs. vs[j := g j]) \<circ> (\<lambda>vs. vs[i := g i])" for i j
    by (rule ext) (cases "i = j", simp_all add: list_update_swap)
  then have "fold (\<lambda>i vs. vs[i := g i]) is = fold (\<lambda>i vs. vs[i := g i]) js"
    by (intro fold_multiset_equiv assms)
  then show ?thesis by simp
qed

lemma mset_concat_permute:
  assumes "mset is = mset js" shows "mset (concat (map f is)) = mset (concat (map f js))"
  by (simp add: mset_concat sum_mset_sum_list [symmetric] mset_map [symmetric] del: mset_map)
    (simp add: assms multiset.map_comp [symmetric])

text \<open>Reading tasks give the same values in any order, and the same errors in another.\<close>

lemma run_order_permute:
  assumes "\<And>i. reads (task i)" and "mset is = mset js" and "run_order is task vs x = (Ok us, y)"
  shows "\<exists>es. run_order js task vs x = (Ok us, y\<lparr>x_errors := es\<rparr>) \<and> mset es = mset (x_errors y)"
proof -
  obtain h where h: "\<And>i. reads_with (h i) (task i)" using reads_family [of task] assms(1) by blast
  obtain g where g: "\<forall>i\<in>set is. fst (h i (x_world x)) = Ok (g i)" using run_order_OkD [OF h assms(3)] by blast
  have js: "\<forall>i\<in>set js. fst (h i (x_world x)) = Ok (g i)" using g mset_eq_setD [OF assms(2)] by simp
  show ?thesis
    using assms(3) run_order_Ok [OF h g, of vs] run_order_Ok [OF h js, of vs] fold_update_permute [OF assms(2), of g vs]
      mset_concat_permute [OF assms(2), of "\<lambda>i. snd (h i (x_world x))"]
    by (intro exI [of _ "x_errors x @ concat (map (\<lambda>i. snd (h i (x_world x))) js)"]) auto
qed

subsection \<open>The queries\<close>

lemma marshal_values:
  assumes "gql_ok G"
  shows "marshalNBoolean2bool G p b = retM (MBool b)" "marshalNInt2int32 G p i = retM (MInt i)"
    "marshalNFloat2float64 G p q = retM (MFloat q)"
  by (rule ext, simp add: marshalNBoolean2bool_def marshalNInt2int32_def marshalNFloat2float64_def non_null_def gql_okD [OF assms])+

lemma reads_as:
  assumes "gql_ok G"
  shows "reads (as_string (marshalNString2string G p) v)" "reads (as_bool (marshalNBoolean2bool G p) v)"
    "reads (as_int (marshalNInt2int32 G p) v)" "reads (as_float (marshalNFloat2float64 G p) v)"
  by (cases v; simp only: as_string.simps as_bool.simps as_int.simps as_float.simps marshal_strings [OF assms]
      marshal_values [OF assms] reads_retM reads_liftR)+

lemma reads_plain:
  assumes "gql_ok G" and "\<And>v. reads (marsh v)" shows "reads (plain_field G f v marsh)"
  unfolding plain_field_def gql_okD(2) [OF assms(1)] by (intro reads_resolve reads_retM assms(2))

lemma reads_unknown: "reads (unknown_field f)"
  unfolding unknown_field_def by (rule reads_liftR)

lemma reads_row:
  assumes "gql_ok G" shows "reads (object_Statistics G p sel s)"
  unfolding object_Statistics_def Let_def Statistics_action_def Statistics_avgGasLimit24Hours_def Statistics_avgGasLimitWeek_def
    Statistics_avgGasLimitAllTime_def Statistics_tx24Hours_def Statistics_txWeek_def Statistics_txAllTime_def
  by (intro reads_bindM reads_each reads_if reads_valued reads_plain [OF assms] reads_as [OF assms] reads_retM reads_unknown)

lemma reads_statistics:
  assumes "gql_ok G" and "slices_read G" shows "reads (marshalOStatistics G p sel v)"
  using assms(2) reads_row [OF assms(1)]
  by (cases "(G, p, sel, v)" rule: marshalOStatistics.cases)
    (auto intro!: reads_bindM simp: slices_read_def reads_retM reads_liftR)

lemma reads_query:
  assumes "gql_ok G" and "slices_read G" shows "reads (delayed_query G avg E R f)"
  unfolding delayed_query_def gql_okD(7) [OF assms(1)] Query_publickey_def Query_eoaForAddress_def Query_hasCreated_def
    Query_statistics_def gql_okD(2) [OF assms(1)] fieldContext_Query_eoaForAddress_def fieldContext_Query_hasCreated_def
  by (intro reads_recovering reads_if reads_valued reads_resolve reads_retM reads_decode reads_as [OF assms(1)]
      reads_statistics [OF assms] reads_resolver) (auto intro: queries_keep same_world_keeps)

text \<open>The rows of the statistics are written in their order, each with the selected fields in theirs.\<close>

lemma plain_value: "gql_ok G \<Longrightarrow> marsh v = retM m \<Longrightarrow> plain_field G f v marsh = retM m"
  by (rule ext) (simp add: plain_field_def gql_okD(2) resolve_spec_def recovered_def)

lemma plain_shown:
  assumes "gql_ok G"
  shows "plain_field G f (GvString s) (as_string (marshalNString2string G p)) = retM (MString s)"
    "plain_field G f (GvFloat q) (as_float (marshalNFloat2float64 G p)) = retM (MFloat q)"
    "plain_field G f (GvInt i) (as_int (marshalNInt2int32 G p)) = retM (MInt i)"
  by (rule plain_value [OF assms], simp only: as_string.simps as_float.simps as_int.simps marshal_strings [OF assms]
      marshal_values [OF assms])+

lemma each_field_values:
  assumes "\<And>f. f \<in> set fs \<Longrightarrow> h f = retM (g f, False)"
  shows "each_field h fs = retM (map (\<lambda>f. (g f, False)) fs)"
  using assms by (induction fs) (simp_all only: each_field.simps bindM_retM list.map list.set_intros)

lemma statistics_written:
  fixes G :: "('sel, 'q) gql" and v :: "'q model_Statistics list"
  assumes "gql_ok G" and "\<And>(s :: 'q model_Statistics) f. f \<in> set (CollectFields G sel [''Statistics'']) \<Longrightarrow> row_field s (cf_Name f) \<noteq> None"
  shows "marshalOStatistics G p sel (GvStats (Some v)) = retM (MArray (map (\<lambda>s.
    MObject (map (\<lambda>f. (cf_Alias f, the (row_field s (cf_Name f)))) (CollectFields G sel [''Statistics'']))) v))"
proof -
  let ?fs = "CollectFields G sel [''Statistics'']"
  have field: "(if cf_Name f = ''__typename'' then retM (MarshalString G ''Statistics'', False)
        else if cf_Name f = ''action'' then valued (Statistics_action G q f s) Null
        else if cf_Name f = ''avgGasLimit24Hours'' then valued (Statistics_avgGasLimit24Hours G q f s) Null
        else if cf_Name f = ''avgGasLimitWeek'' then valued (Statistics_avgGasLimitWeek G q f s) Null
        else if cf_Name f = ''avgGasLimitAllTime'' then valued (Statistics_avgGasLimitAllTime G q f s) Null
        else if cf_Name f = ''tx24Hours'' then valued (Statistics_tx24Hours G q f s) Null
        else if cf_Name f = ''txWeek'' then valued (Statistics_txWeek G q f s) Null
        else if cf_Name f = ''txAllTime'' then valued (Statistics_txAllTime G q f s) Null
        else unknown_field f) = retM (the (row_field s (cf_Name f)), False)" if "f \<in> set ?fs" for f q s
    using assms(2) [OF that, of s]
    by (intro ext) (auto simp: row_field_def valued_def bindM_def gql_okD(3) [OF assms(1)] Statistics_action_def
        Statistics_avgGasLimit24Hours_def Statistics_avgGasLimitWeek_def Statistics_avgGasLimitAllTime_def Statistics_tx24Hours_def
        Statistics_txWeek_def Statistics_txAllTime_def plain_shown [OF assms(1)] split: if_splits)
  have row: "object_Statistics G q sel s = retM (MObject (map (\<lambda>f. (cf_Alias f, the (row_field s (cf_Name f)))) ?fs))" for q s
    unfolding object_Statistics_def Let_def
    by (subst each_field_values [where g = "\<lambda>f. the (row_field s (cf_Name f))"], rule field, assumption, unfold bindM_retM)
      (simp add: field_set_def list_ex_iff zip_map_map zip_same_conv_map comp_def)
  show ?thesis
    unfolding marshalOStatistics.simps
    by (subst gql_okD(11) [OF assms(1)], rule row, unfold bindM_retM)
      (auto simp: list_ex_iff intro!: arg_cong [of _ _ retM] nth_equalityI)
qed

text \<open>Nothing but the order of the fields of a query looks at the schedule.\<close>

lemma schedule_select:
  "UnmarshalString (G\<lparr>Schedule := S\<rparr>) = UnmarshalString G"
  "UnmarshalInt32 (G\<lparr>Schedule := S\<rparr>) = UnmarshalInt32 G"
  "UnmarshalBoolean (G\<lparr>Schedule := S\<rparr>) = UnmarshalBoolean G"
  "CoerceList (G\<lparr>Schedule := S\<rparr>) = CoerceList G"
  "ErrorOnPath (G\<lparr>Schedule := S\<rparr>) = ErrorOnPath G"
  "ProcessArgField (G\<lparr>Schedule := S\<rparr>) = ProcessArgField G"
  "CollectFields (G\<lparr>Schedule := S\<rparr>) = CollectFields G"
  "ResolveField (G\<lparr>Schedule := S\<rparr>) = ResolveField G"
  "MarshalString (G\<lparr>Schedule := S\<rparr>) = MarshalString G"
  "MarshalBoolean (G\<lparr>Schedule := S\<rparr>) = MarshalBoolean G"
  "MarshalInt32 (G\<lparr>Schedule := S\<rparr>) = MarshalInt32 G"
  "MarshalFloatContext (G\<lparr>Schedule := S\<rparr>) = MarshalFloatContext G"
  "Recover (G\<lparr>Schedule := S\<rparr>) = Recover G"
  "HasFieldError (G\<lparr>Schedule := S\<rparr>) = HasFieldError G"
  "RootResolverMiddleware (G\<lparr>Schedule := S\<rparr>) = RootResolverMiddleware G"
  "MarshalSliceConcurrently (G\<lparr>Schedule := S\<rparr>) = MarshalSliceConcurrently G"
  "Introspect (G\<lparr>Schedule := S\<rparr>) = Introspect G"
  by simp_all

lemma schedule_unused:
  "resolve_spec (G\<lparr>Schedule := S\<rparr>) = resolve_spec G"
  "field_Query_eoaForAddress_args (G\<lparr>Schedule := S\<rparr>) = field_Query_eoaForAddress_args G"
  "field_Query_hasCreated_args (G\<lparr>Schedule := S\<rparr>) = field_Query_hasCreated_args G"
  "marshalNString2string (G\<lparr>Schedule := S\<rparr>) = marshalNString2string G"
  "marshalNBoolean2bool (G\<lparr>Schedule := S\<rparr>) = marshalNBoolean2bool G"
  "marshalNInt2int32 (G\<lparr>Schedule := S\<rparr>) = marshalNInt2int32 G"
  "marshalNFloat2float64 (G\<lparr>Schedule := S\<rparr>) = marshalNFloat2float64 G"
  "recovering (G\<lparr>Schedule := S\<rparr>) = recovering G"
  "decode_args (G\<lparr>Schedule := S\<rparr>) = decode_args G"
  "plain_field (G\<lparr>Schedule := S\<rparr>) = plain_field G"
  unfolding resolve_spec_def [abs_def] recovered_def [abs_def] field_Query_eoaForAddress_args_def [abs_def]
    field_Query_hasCreated_args_def [abs_def] string_arg_def [abs_def] unmarshalNString2string_def [abs_def] on_path_def
    [abs_def] as_arg_def [abs_def] marshalNString2string_def [abs_def] marshalNBoolean2bool_def [abs_def]
    marshalNInt2int32_def [abs_def] marshalNFloat2float64_def [abs_def] non_null_def [abs_def] recovering_def [abs_def]
    decode_args_def [abs_def] plain_field_def [abs_def] schedule_select by (rule refl)+

lemma schedule_unused_rows: "object_Statistics (G\<lparr>Schedule := S\<rparr>) = object_Statistics G"
  unfolding object_Statistics_def [abs_def] Statistics_action_def Statistics_avgGasLimit24Hours_def
    Statistics_avgGasLimitWeek_def Statistics_avgGasLimitAllTime_def Statistics_tx24Hours_def Statistics_txWeek_def
    Statistics_txAllTime_def schedule_unused schedule_select ..

lemma schedule_unused_statistics: "marshalOStatistics (G\<lparr>Schedule := S\<rparr>) = marshalOStatistics G"
proof (intro ext)
  fix p sel v x
  show "marshalOStatistics (G\<lparr>Schedule := S\<rparr>) p sel v x = marshalOStatistics G p sel v x"
    by (cases "(G, p, sel, v)" rule: marshalOStatistics.cases) (simp_all add: schedule_unused_rows)
qed

lemma schedule_unused_query: "delayed_query (G\<lparr>Schedule := S\<rparr>) = delayed_query G"
  unfolding delayed_query_def [abs_def] Query_publickey_def Query_eoaForAddress_def Query_hasCreated_def Query_statistics_def
    fieldContext_Query_eoaForAddress_def fieldContext_Query_hasCreated_def schedule_unused schedule_unused_statistics
    schedule_select ..

lemma root_Query_any_order:
  assumes "gql_ok G" and "slices_read G" and "\<And>is. mset (S is) = mset is"
    and "root_Query G avg E R sel x = (Ok v, y)"
  shows "\<exists>es. root_Query (G\<lparr>Schedule := S\<rparr>) avg E R sel x = (Ok v, y\<lparr>x_errors := es\<rparr>) \<and> mset es = mset (x_errors y)"
proof -
  define fs where "fs = CollectFields G sel [''Query'']"
  define here where "here = (\<lambda>f. if cf_Name f = ''__typename'' then retM (MarshalString G ''Query'', False)
        else if is_delayed f then retM (NilMarshaler, False)
        else if cf_Name f = ''__type'' \<or> cf_Name f = ''__schema'' then valued (root_field G (Introspect G f)) RequiredNull
        else unknown_field f)"
  define late where "late = filter (\<lambda>i. is_delayed (fs ! i)) [0..<length fs]"
  let ?task = "\<lambda>i. delayed_query G avg E R (fs ! i)"
  have root: "root_Query (G\<lparr>Schedule := Z\<rparr>) avg E R sel = bindM (each_field here fs) (\<lambda>vs.
      bindM (run_order (Z late) ?task vs) (\<lambda>vs. retM (field_set fs vs)))" for Z
    unfolding root_Query_def Let_def root_field_def schedule_select schedule_unused_query fs_def [symmetric] late_def here_def
    by simp
  have "G = G\<lparr>Schedule := Schedule G\<rparr>" by simp
  with assms(4) root [of "Schedule G"] obtain vs z us where
    z: "each_field here fs x = (Ok vs, z)" "run_order (Schedule G late) ?task vs z = (Ok us, y)" "v = field_set fs us"
    by (auto simp: bindM_Ok_iff)
  have "mset (Schedule G late) = mset (S late)" using gql_okD(8) [OF assms(1)] assms(3) by simp
  from run_order_permute [OF reads_query [OF assms(1,2)] this z(2)] show ?thesis
    unfolding root using z(1,3) by (auto simp: bindM_def)
qed

lemma ref_slices_read: "slices_read ref_gql"
  unfolding slices_read_def by (simp add: ref_gql_def reads_run)

section \<open>Properties\<close>

text \<open>
  C28. The answer to a query does not depend on which of its fields is computed first: when
  it is answered under one order of the concurrent work, it is answered with the same data
  under every other, with the same errors up to their order, and with the same world.
\<close>

theorem schedule_irrelevant:
  assumes "gql_ok G" and "slices_read G" and "\<And>is. mset (S is) = mset is"
    and "Exec G avg E R c OpQuery sel True x = (Ok resp, y)"
  shows "\<exists>es. Exec (G\<lparr>Schedule := S\<rparr>) avg E R c OpQuery sel True x = (Ok resp, y\<lparr>x_errors := es\<rparr>) \<and>
    mset es = mset (x_errors y) \<and> x_world y = x_world x"
proof -
  obtain v where v: "root_Query G avg E R sel x = (Ok v, y)" "nil_free v"
      "resp = Some \<lparr>resp_Data = Some v, resp_Errors = []\<rparr>"
    using assms(4) by (auto simp: Exec_def bindM_Ok_iff write_data_def split: if_splits)
  have "x_world y = x_world x"
    using world_same_root_Query [OF assms(1), of avg E R sel] v(1) by (metis snd_conv world_same_def)
  with root_Query_any_order [OF assms(1-3) v(1)] v(2,3) show ?thesis
    by (auto simp: Exec_def bindM_def write_data_def)
qed

theorem schedule_irrelevant_witness:
  "\<exists>v y es. Exec ref_gql (\<lambda>_. 0) ref_env ref_resolver anon_ctx OpQuery
     (Selection [(''publickey'', ''k'', [], Selection []), (''publickey'', ''l'', [], Selection [])]) True
       \<lparr>x_world = ref_world, x_errors = []\<rparr> = (Ok v, y) \<and>
     Exec (ref_gql\<lparr>Schedule := rev\<rparr>) (\<lambda>_. 0) ref_env ref_resolver anon_ctx OpQuery
     (Selection [(''publickey'', ''k'', [], Selection []), (''publickey'', ''l'', [], Selection [])]) True
       \<lparr>x_world = ref_world, x_errors = []\<rparr> = (Ok v, y\<lparr>x_errors := es\<rparr>)"
proof -
  let ?sel = "Selection [(''publickey'', ''k'', [], Selection []), (''publickey'', ''l'', [], Selection [])]"
  let ?x = "\<lparr>x_world = ref_world, x_errors = []\<rparr>"
  have fs: "CollectFields ref_gql ?sel [''Query''] =
      [\<lparr>cf_Name = ''publickey'', cf_Alias = ''k'', cf_ArgumentMap = [], cf_Selections = Selection []\<rparr>,
       \<lparr>cf_Name = ''publickey'', cf_Alias = ''l'', cf_ArgumentMap = [], cf_Selections = Selection []\<rparr>]"
    by (simp add: ref_gql_def)
  have key: "delayed_query ref_gql (\<lambda>_. 0) ref_env ref_resolver f ?x = (Ok (MString (hex_encode (r_AccPubKey ref_resolver)), False), ?x)"
    if "cf_Name f = ''publickey''" for f
    using that
    by (simp add: delayed_query_def gql_okD(7) [OF ref_gql_ok] Query_publickey_def gql_okD(2) [OF ref_gql_ok] recovering_def
        valued_def resolve_spec_def recovered_def resolver_def bindM_def on_world_def Publickey_def
        marshal_strings [OF ref_gql_ok] del: hex_encode_Cons)
  have schedule: "Schedule ref_gql is = is" for "is" by (simp add: ref_gql_def)
  have "\<exists>v. Exec ref_gql (\<lambda>_. 0) ref_env ref_resolver anon_ctx OpQuery ?sel True ?x = (Ok v, ?x)"
    by (simp add: Exec_def bindM_def root_Query_def fs is_delayed_def key schedule write_data_def field_set_def
        del: hex_encode_Cons)
  then obtain v where v: "Exec ref_gql (\<lambda>_. 0) ref_env ref_resolver anon_ctx OpQuery ?sel True ?x = (Ok v, ?x)" by blast
  from schedule_irrelevant [OF ref_gql_ok ref_slices_read _ v, of rev] v show ?thesis by auto
qed

end
