(* ===== verification/Tools.thy ===== *)
theory Tools
  imports Handlers
begin

text \<open>
  The command-line tools under \<^verbatim>\<open>tools/\<close>: \<^verbatim>\<open>leftpad-int\<close>, \<^verbatim>\<open>keccak256-hex\<close>,
  \<^verbatim>\<open>sign-stdin\<close> and \<^verbatim>\<open>make-permit\<close>, as functions of their arguments (the program's name
  first) and of what they read, with what they print as the result. The second half shows
  that what they print is what the server accepts.
\<close>

section \<open>Input and output\<close>

definition os_arg :: "string list \<Rightarrow> nat \<Rightarrow> string res" where
  "os_arg args i = (if i < length args then Ok (args ! i) else Panic index_panic)"

text \<open>
  \<^verbatim>\<open>ReadLine\<close> of a \<^verbatim>\<open>bufio.Reader\<close>: the first line without its end, or the part of it that
  fits the buffer of 4096 bytes.
\<close>

definition read_line :: "bytes \<Rightarrow> bytes res" where
  "read_line input =
     (let line = takeWhile (\<lambda>b. b \<noteq> 10) input in
      if input = [] then Err ''EOF''
      else if 4096 \<le> length line then
        Ok (if line ! 4095 = 13 then take 4095 line else take 4096 line)
      else if length line = length input then Ok line
      else Ok (if line \<noteq> [] \<and> last line = 13 then butlast line else line))"

definition panic_err :: "'a res \<Rightarrow> 'a res" where
  "panic_err r = (case r of Err e \<Rightarrow> Panic e | _ \<Rightarrow> r)"

section \<open>\<^verbatim>\<open>leftpad-int\<close>\<close>

definition leftpad_int :: "string list \<Rightarrow> string res" where
  "leftpad_int args =
     bindR (os_arg args 1) (\<lambda>s.
     case big_SetString10 s of
       None \<Rightarrow> Panic ''bad arg''
     | Some v \<Rightarrow>
        let b = big_Bytes v in
        if 32 < length b then Panic ''makeslice: len out of range''
        else Ok (hex_encode (zeros (32 - length b) @ b) @ [CHR 10]))"

section \<open>\<^verbatim>\<open>keccak256-hex\<close>\<close>

definition keccak256_hex :: "libs \<Rightarrow> bytes \<Rightarrow> string res" where
  "keccak256_hex L input =
     bindR (panic_err (read_line input)) (\<lambda>l.
     bindR (panic_err (hex_decode_string (string_of_bytes l))) (\<lambda>b.
     Ok (hex_encode (Keccak256 L b))))"

section \<open>\<^verbatim>\<open>sign-stdin\<close>\<close>

record tool_sig =
  ts_R :: string
  ts_S :: string
  ts_V :: u8

definition signed_preimage :: "bytes \<Rightarrow> bytes" where
  "signed_preimage msg =
     0x19 # bytes_of_string (''Ethereum Signed Message:'' @ [CHR 10] @ dec_nat (length msg)) @ msg"

definition sign_stdin :: "libs \<Rightarrow> string list \<Rightarrow> bytes \<Rightarrow> tool_sig res" where
  "sign_stdin L args input =
     bindR (os_arg args 1) (\<lambda>key.
     bindR (panic_err (of_sum (HexToECDSA L (trim_prefix key ''0x'')))) (\<lambda>p.
     bindR (panic_err (of_sum (ECDSA_Sign L (Keccak256 L (signed_preimage input)) p))) (\<lambda>s.
     if length s < 65 then Panic index_panic
     else Ok \<lparr>ts_R = hex_encode (take 32 s), ts_S = hex_encode (take 32 (drop 32 s)), ts_V = s ! 64 + 27\<rparr>)))"

section \<open>\<^verbatim>\<open>make-permit\<close>\<close>

definition TokenName :: string where "TokenName = ''Bridged USDC (Stargate)''"
definition TokenVersion :: string where "TokenVersion = ''2''"
definition ChainId :: int where "ChainId = 55244"

definition permit_digest :: "libs \<Rightarrow> Address \<Rightarrow> Address \<Rightarrow> int \<Rightarrow> Address \<Rightarrow> int \<Rightarrow> bytes" where
  "permit_digest L owner accounts nonce token deadline =
     (let domainSep = Keccak256 L (
            Keccak256 L (bytes_of_string
              ''EIP712Domain(string name,string version,uint256 chainId,address verifyingContract)'') @
            Keccak256 L (bytes_of_string TokenName) @ Keccak256 L (bytes_of_string TokenVersion) @
            BigToHash L ChainId @ LeftPadBytes L token 32);
          permitHash = Keccak256 L (bytes_of_string
            ''Permit(address owner,address spender,uint256 value,uint256 nonce,uint256 deadline)'');
          structHash = Keccak256 L (permitHash @ LeftPadBytes L owner 32 @ LeftPadBytes L accounts 32 @
            replicate 32 255 @ LeftPadBytes L (big_Bytes nonce) 32 @ LeftPadBytes L (big_Bytes deadline) 32)
      in Keccak256 L ([0x19, 0x01] @ domainSep @ structHash))"

definition make_permit :: "libs \<Rightarrow> string list \<Rightarrow> tool_sig res" where
  "make_permit L args =
     bindR (os_arg args 1) (\<lambda>key.
     bindR (panic_err (of_sum (HexToECDSA L key))) (\<lambda>privKey.
     bindR (os_arg args 2) (\<lambda>accounts.
     bindR (os_arg args 3) (\<lambda>nonceS.
     case big_SetString10 nonceS of None \<Rightarrow> Panic ''bad nonce'' | Some nonce \<Rightarrow>
     bindR (os_arg args 4) (\<lambda>token.
     bindR (os_arg args 5) (\<lambda>deadlineS.
     case big_SetString10 deadlineS of None \<Rightarrow> Panic ''bad deadline'' | Some deadline \<Rightarrow>
     let owner = PubkeyToAddress L (ECDSA_Public L privKey);
         d = permit_digest L owner (HexToAddress L accounts) nonce (HexToAddress L token) deadline in
     bindR (panic_err (of_sum (ECDSA_Sign L d privKey))) (\<lambda>sig.
     if length sig < 65 then Panic index_panic
     else let v = sig ! 64 in
       Ok \<lparr>ts_R = hex_encode (take 32 sig), ts_S = hex_encode (take 32 (drop 32 sig)),
           ts_V = (if v < 27 then v + 27 else v)\<rparr>)))))))"

text \<open>What the two signing tools print.\<close>

definition sign_stdin_json :: "tool_sig \<Rightarrow> string" where
  "sign_stdin_json t = ''{\"r\":\"'' @ ts_R t @ ''\",\"s\":\"'' @ ts_S t @ ''\",\"v\":'' @ dec_nat (unat (ts_V t)) @ ''}'' @ [CHR 10]"

definition make_permit_json :: "tool_sig \<Rightarrow> string" where
  "make_permit_json t = ''{\"v\":'' @ dec_nat (unat (ts_V t)) @ '',\"r\":\"'' @ ts_R t @ ''\",\"s\":\"'' @ ts_S t @ ''\"}'' @ [CHR 10]"

section \<open>Instances\<close>

text \<open>A signature scheme whose signature names the key, for the instances.\<close>

definition naming_libs :: libs where
  "naming_libs = ref_libs\<lparr>ECDSA_Sign := \<lambda>d k. Inr (k @ zeros 31 @ [1, 0])\<rparr>"

text \<open>
  What the documentation of \<^verbatim>\<open>crypto.Sign\<close> and \<^verbatim>\<open>crypto.SigToPub\<close> says of a key: a
  signature is 65 bytes \<^verbatim>\<open>[R || S || V]\<close> with \<^verbatim>\<open>V\<close> 0 or 1 and \<^verbatim>\<open>S\<close> in the lower half,
  and the public key is recovered from it.
\<close>

definition ecdsa_ok :: "libs \<Rightarrow> bytes \<Rightarrow> bool" where
  "ecdsa_ok L k \<longleftrightarrow> (\<forall>d. \<exists>r s v. ECDSA_Sign L d k = Inr (r @ s @ [v]) \<and> length r = 32 \<and> length s = 32 \<and>
     v \<in> {0, 1} \<and> int (be_value s) \<le> secpMaxS \<and> SigToPub L d (r @ s @ [v]) = Inr (ECDSA_Public L k))"

section \<open>Lemmas\<close>

lemma trim_prefix_hex [simp]: "trim_prefix (hex_encode b) ''0x'' = hex_encode b"
proof (cases b)
  case (Cons x xs)
  have "hex_val (CHR ''x'') = None" by (simp add: hex_val_def)
  moreover have "hex_val (hex_digit (unat x mod 16)) \<noteq> None" by simp
  ultimately have "hex_digit (unat x mod 16) \<noteq> CHR ''x''" by metis
  then show ?thesis using Cons by (simp add: trim_prefix_def)
qed (simp add: trim_prefix_def)

lemma request_message:
  assumes "length pubKey = 32"
  shows "signed_preimage (bytes_of_string (hex_encode pubKey @ hex_encode (be_fixed 4 (unat nonce)))) =
    request_preimage pubKey nonce"
proof -
  have "length (hex_encode pubKey @ hex_encode (be_fixed 4 (unat nonce))) = 72" using assms by simp
  moreover have "dec_nat 72 = ''72''" by code_simp
  ultimately show ?thesis
    by (simp add: signed_preimage_def request_preimage_def bytes_of_string_def)
qed

lemma recovery_byte:
  assumes "v \<in> {0, 1 :: u8}"
  shows "sint (ucast (v + 27) :: i32) = sint (ucast v :: i32) + 27" "\<not> exceeds_u8 (ucast (v + 27))"
    "length r = 32 \<Longrightarrow> length s = 32 \<Longrightarrow> request_sig r s (ucast (v + 27)) = r @ s @ [v]"
  using assms by (auto simp: exceeds_u8_def request_sig_def Let_def)

lemma sign_stdin_Ok:
  assumes "HexToECDSA L (trim_prefix key ''0x'') = Inr k"
    and "ECDSA_Sign L (Keccak256 L (signed_preimage msg)) k = Inr (r @ s @ [v])" "length r = 32" "length s = 32"
  shows "sign_stdin L [prog, key] msg = Ok \<lparr>ts_R = hex_encode r, ts_S = hex_encode s, ts_V = v + 27\<rparr>"
  using assms by (simp add: sign_stdin_def os_arg_def panic_err_def of_sum_def nth_append)

lemma make_permit_Ok:
  assumes "HexToECDSA L key = Inr k" "big_SetString10 nonceS = Some nonce" "big_SetString10 deadlineS = Some deadline"
    and "ECDSA_Sign L (permit_digest L (PubkeyToAddress L (ECDSA_Public L k)) (HexToAddress L accounts) nonce
      (HexToAddress L token) deadline) k = Inr (r @ s @ [v])" "length r = 32" "length s = 32" "v \<in> {0, 1}"
  shows "make_permit L [prog, key, accounts, nonceS, token, deadlineS] =
    Ok \<lparr>ts_R = hex_encode r, ts_S = hex_encode s, ts_V = v + 27\<rparr>"
  using assms
  by (auto simp: make_permit_def os_arg_def panic_err_def of_sum_def nth_append Let_def)

lemma naming_libs_ok: "geth_ok naming_libs" "length k = 32 \<Longrightarrow> ecdsa_ok naming_libs k"
proof -
  have "geth_ok naming_libs \<longleftrightarrow> geth_ok ref_libs" by (simp add: geth_ok_def naming_libs_def)
  then show "geth_ok naming_libs" using ref_geth_ok by simp
  have v: "be_value (zeros 31 @ [1]) = 1" by simp
  have "\<exists>r s v. Inr (k @ zeros 31 @ [1, 0]) = Inr (r @ s @ [v]) \<and> length r = 32 \<and> length s = 32 \<and>
     v \<in> {0, 1} \<and> int (be_value s) \<le> secpMaxS \<and> SigToPub naming_libs d (r @ s @ [v]) = Inr (ECDSA_Public naming_libs k)"
    if "length k = 32" for d
    by (rule exI [of _ k], rule exI [of _ "zeros 31 @ [1]"], rule exI [of _ 0])
      (use that v in \<open>simp add: naming_libs_def ref_libs_def secpMaxS_def\<close>)
  then show "length k = 32 \<Longrightarrow> ecdsa_ok naming_libs k" by (simp add: ecdsa_ok_def naming_libs_def)
qed

section \<open>Properties\<close>

text \<open>
  C23. What \<^verbatim>\<open>sign-stdin\<close> prints opens the door: when the owner of a key signs with it the
  hexadecimal form of the server's public key followed by that of a nonce in four bytes, the nonce
  being greater than any recorded for the owner's address as the schema asks, then
  \<^verbatim>\<open>RequestSecret\<close> for that address succeeds with the printed signature. For real it takes the nonce
  and returns a secret that is accepted from then on; a dry run changes nothing. The random source
  and the database have to answer, and where the server checks that the account exists there
  must be code at its address.
\<close>

theorem sign_stdin_opens:
  assumes "geth_ok (e_libs E)" and "length (r_AccPubKey R) = 32" and "HexToECDSA (e_libs E) (trim_prefix key ''0x'') = Inr k"
    and "ecdsa_ok (e_libs E) k"
    and "IsHexAddress (e_libs E) eoaAddr" "HexToAddress (e_libs E) eoaAddr = PubkeyToAddress (e_libs E) (ECDSA_Public (e_libs E) k)"
    and "e_rand E = (secret, None)" "length secret = 32" and "\<And>q. pg_fault (e_pg E) q = None"
    and "r_FeatureCheckCode R \<Longrightarrow> \<exists>code. code \<noteq> [] \<and>
      CodeAt (e_rpc E) (GetClientAddr (e_libs E) (r_AccountsFactoryAddr R) (HexToAddress (e_libs E) eoaAddr)) = Inr code"
    and "\<And>n. (addr_hex (HexToAddress (e_libs E) eoaAddr), n) \<in> nonces_of (w_db w) \<Longrightarrow> sint n < sint nonce"
  shows "\<exists>out x w'. sign_stdin (e_libs E) [prog, key]
      (bytes_of_string (hex_encode (r_AccPubKey R) @ hex_encode (be_fixed 4 (unat nonce)))) = Ok out \<and>
    RequestSecret E R c eoaAddr nonce (ucast (ts_V out)) (ts_R out) (ts_S out) dry w = (Ok x, w') \<and>
    (if isDryrun dry then w' = w
     else (addr_hex (HexToAddress (e_libs E) eoaAddr), nonce) \<in> nonces_of (w_db w') \<and>
       0 < count_secret (w_db w') (addr_hex (HexToAddress (e_libs E) eoaAddr)) x)"
proof -
  let ?L = "e_libs E" and ?a = "addr_hex (HexToAddress (e_libs E) eoaAddr)"
  obtain r s v where sig: "ECDSA_Sign ?L (Keccak256 ?L (request_preimage (r_AccPubKey R) nonce)) k = Inr (r @ s @ [v])"
      "length r = 32" "length s = 32" "v \<in> {0, 1}" "int (be_value s) \<le> secpMaxS"
      "SigToPub ?L (Keccak256 ?L (request_preimage (r_AccPubKey R) nonce)) (r @ s @ [v]) = Inr (ECDSA_Public ?L k)"
    using assms(4) unfolding ecdsa_ok_def by blast
  have out: "sign_stdin ?L [prog, key] (bytes_of_string (hex_encode (r_AccPubKey R) @ hex_encode (be_fixed 4 (unat nonce)))) =
      Ok \<lparr>ts_R = hex_encode r, ts_S = hex_encode s, ts_V = v + 27\<rparr>"
    by (rule sign_stdin_Ok [OF assms(3) _ sig(2,3)]) (simp only: request_message [OF assms(2)] sig(1))
  have "\<not> nonce_used (w_db w) ?a nonce"
    using assms(11) [of nonce] by (auto simp: nonce_used_iff nonces_of_def)
  then obtain d where d: "accounts_insert_nonce_secret_3 (e_pg E) ?a (hex_encode secret) nonce (w_db w) = (Ok (), d)"
    using assms(8,9) geth_okD(1) [OF assms(1)] by (simp add: nonce_secret_eq)
  have code: "(if r_FeatureCheckCode R
      then case CodeAt (e_rpc E) (GetClientAddr ?L (r_AccountsFactoryAddr R) (HexToAddress ?L eoaAddr)) of
          Inl _ \<Rightarrow> liftR (Err x) | Inr code \<Rightarrow> liftR (guardR (code = []) y)
      else retM ()) u = (Ok (), u)" for x y and u :: world
    using assms(10) by (auto simp: guardR_def)
  have "RequestSecret E R c eoaAddr nonce (ucast (v + 27)) (hex_encode r) (hex_encode s) dry w =
      (Ok (hex_encode secret), if isDryrun dry then w else w\<lparr>w_db := d\<rparr>)"
    unfolding RequestSecret_def Let_def lower_address [OF assms(1)]
    using assms(5-8) sig(5,6) d recovery_byte [OF sig(4)] sig(2,3) code
    by (simp add: bindM_def catchM_def on_db_def guardR_def makeSecret_def of_sum_def)
  moreover have "(?a, nonce) \<in> nonces_of d" "0 < count_secret d ?a (hex_encode secret)"
    using nonces.used_step [OF step_nonce [OF d]] secrets.accepts_step [OF step_nonce [OF d], of ?a "hex_encode secret"]
    by (simp_all add: count_secret_pos)
  ultimately show ?thesis using out by auto
qed

theorem sign_stdin_opens_witness:
  "\<exists>out x w'. sign_stdin naming_libs [''sign-stdin'', hex_encode (replicate 32 6)]
      (bytes_of_string (hex_encode (replicate 32 4) @ hex_encode (be_fixed 4 7))) = Ok out \<and>
    RequestSecret (ref_env\<lparr>e_libs := naming_libs\<rparr>) ref_resolver anon_ctx (addr_hex (replicate 20 6)) 7
      (ucast (ts_V out)) (ts_R out) (ts_S out) None ref_world = (Ok x, w') \<and>
    0 < count_secret (w_db w') (addr_hex (replicate 20 6)) x"
proof -
  let ?E = "ref_env\<lparr>e_libs := naming_libs\<rparr>"
  have k: "HexToECDSA naming_libs (hex_encode b) = Inr b" for b by (simp add: naming_libs_def ref_libs_def)
  have a: "PubkeyToAddress naming_libs (ECDSA_Public naming_libs (replicate 32 6)) = replicate 20 (6 :: byte)"
    by (simp add: naming_libs_def ref_libs_def ref_crop_def zeros_def)
  note g = geth_okD(8,9) [OF naming_libs_ok(1), of "replicate 20 6"]
  have E: "geth_ok (e_libs ?E)" "length (r_AccPubKey ref_resolver) = 32"
    "HexToECDSA (e_libs ?E) (trim_prefix (hex_encode (replicate 32 6)) ''0x'') = Inr (replicate 32 6)"
    "ecdsa_ok (e_libs ?E) (replicate 32 6)" "IsHexAddress (e_libs ?E) (addr_hex (replicate 20 6))"
    "HexToAddress (e_libs ?E) (addr_hex (replicate 20 6)) = PubkeyToAddress (e_libs ?E) (ECDSA_Public (e_libs ?E) (replicate 32 6))"
    "e_rand ?E = (replicate 32 42, None)" "length (replicate 32 (42 :: byte)) = 32" "pg_fault (e_pg ?E) q = None" for q
    using g naming_libs_ok k [of "replicate 32 6"] a
    by (simp_all add: ref_env_def ref_resolver_def ref_pg_def del: hex_encode_Cons)
  have "\<not> r_FeatureCheckCode ref_resolver" "nonces_of (w_db ref_world) = {}" "\<not> isDryrun None"
    by (simp_all add: ref_resolver_def nonces_of_def ref_world_def empty_db_def isDryrun_def)
  then show ?thesis
    using sign_stdin_opens [OF E, where w = ref_world and prog = "''sign-stdin''" and nonce = 7 and c = anon_ctx and dry = None] g
    by (auto simp: ref_resolver_def simp del: hex_encode_Cons)
qed

text \<open>
  C37. What \<^verbatim>\<open>make-permit\<close> prints is what a mint takes: its fields and the deadline it was
  given are accepted as the permit of a request, and the words of the parsed permit recover
  the signer's key from the digest of the permit.
\<close>

theorem make_permit_parses:
  assumes "HexToECDSA L key = Inr k" and "ecdsa_ok L k"
    and "big_SetString10 nonceS = Some nonce" "big_SetString10 deadlineS = Some deadline"
    and "0 \<le> deadline" "deadline < 2 ^ 31"
  shows "\<exists>out p. make_permit L [prog, key, accounts, nonceS, token, deadlineS] = Ok out \<and>
    parse_permit asset (Some \<lparr>mp_Deadline = of_int deadline, mp_PermitV = ucast (ts_V out), mp_PermitR = ts_R out,
      mp_PermitS = ts_S out\<rparr>) = Ok (Some p) \<and>
    uint (permit_Deadline p) = deadline \<and>
    SigToPub L (permit_digest L (PubkeyToAddress L (ECDSA_Public L k)) (HexToAddress L accounts) nonce
      (HexToAddress L token) deadline) (permit_R p @ permit_S p @ [permit_V p - 27]) = Inr (ECDSA_Public L k)"
proof -
  let ?d = "permit_digest L (PubkeyToAddress L (ECDSA_Public L k)) (HexToAddress L accounts) nonce (HexToAddress L token) deadline"
  obtain r s v where sig: "ECDSA_Sign L ?d k = Inr (r @ s @ [v])" "length r = 32" "length s = 32" "v \<in> {0, 1}"
      "SigToPub L ?d (r @ s @ [v]) = Inr (ECDSA_Public L k)"
    using assms(2) unfolding ecdsa_ok_def by blast
  note out = make_permit_Ok [OF assms(1,3,4) sig(1-4), of prog]
  have dl: "sint (of_int deadline :: i32) = deadline" using assms(5,6) by (simp add: signed_of_int signed_take_bit_int_eq_self)
  have b: "strToBytes32 (hex_encode r) = Ok r" "strToBytes32 (hex_encode s) = Ok s"
    using sig(2,3) by (simp_all add: strToBytes32_def decode_array_Ok_iff)
  have v: "of_int (sint (ucast (v + 27) :: i32)) = v + 27" using sig(4) by auto
  have u: "uint (of_int deadline :: u64) = deadline" using assms(5,6) by (simp add: uint_word_of_int)
  have "parse_permit asset (Some \<lparr>mp_Deadline = of_int deadline, mp_PermitV = ucast (v + 27), mp_PermitR = hex_encode r,
      mp_PermitS = hex_encode s\<rparr>) = Ok (Some (NewPermit asset (of_int deadline) (v + 27) r s))"
    using recovery_byte(2) [OF sig(4)] assms(5) v b by (simp add: parse_permit_def NewPermitGraph_def guardR_def dl)
  then show ?thesis using out u sig(5) by (auto simp: NewPermit_def)
qed

theorem make_permit_parses_witness:
  "\<exists>out p. make_permit naming_libs [''make-permit'', hex_encode (replicate 32 6), ''0x'', ''0'', ''0x'', ''7''] = Ok out \<and>
     parse_permit 0 (Some \<lparr>mp_Deadline = 7, mp_PermitV = ucast (ts_V out), mp_PermitR = ts_R out,
       mp_PermitS = ts_S out\<rparr>) = Ok (Some p) \<and> uint (permit_Deadline p) = 7"
proof -
  have k: "HexToECDSA naming_libs (hex_encode b) = Inr b" for b by (simp add: naming_libs_def ref_libs_def)
  have n: "big_SetString10 ''0'' = Some 0" "big_SetString10 ''7'' = Some 7"
    by (simp_all add: big_SetString10_def scan_nat_def digit_val_def)
  have e: "ecdsa_ok naming_libs (replicate 32 6)" by (rule naming_libs_ok) simp
  show ?thesis
    using make_permit_parses [OF k e n, of "''make-permit''" "''0x''" "''0x''" 0] by auto
qed

text \<open>
  \<^verbatim>\<open>leftpad-int\<close> prints the 64 hexadecimal digits of the absolute value of its argument
  when that fits 32 bytes, and panics on every other argument.
\<close>

theorem leftpad_exact:
  shows "(case big_SetString10 s of
      None \<Rightarrow> leftpad_int [prog, s] = Panic ''bad arg''
    | Some v \<Rightarrow> leftpad_int [prog, s] =
        (if nat \<bar>v\<bar> < 2 ^ 256 then Ok (hex_encode (be_fixed 32 (nat \<bar>v\<bar>)) @ [CHR 10])
         else Panic ''makeslice: len out of range''))"
proof (cases "big_SetString10 s")
  case (Some v)
  have "length (be_bytes (nat \<bar>v\<bar>)) \<le> 32 \<longleftrightarrow> nat \<bar>v\<bar> < 2 ^ 256"
    unfolding length_be_bytes_le by simp
  with zeros_be_bytes [of "nat \<bar>v\<bar>" 32] Some show ?thesis
    by (auto simp: leftpad_int_def os_arg_def Let_def big_Bytes_def not_less)
qed (simp add: leftpad_int_def os_arg_def)

end
