(* ===== verification/Ratelimit.thy ===== *)
theory Ratelimit
  imports GoStd
begin

text \<open>
  The rate limiter of \<^verbatim>\<open>lib/ratelimit/ratelimit.go\<close>. The server goroutine owns the two
  variables \<^verbatim>\<open>lastSlice\<close> and \<^verbatim>\<open>seen\<close> and takes one request at a time from its
  channel, so its behaviour is a step function on their record; the requests of the
  clients are a sequence of arrival times and identifiers. Times are nanoseconds since
  the zero \<^verbatim>\<open>time.Time\<close>. The abstract specification counts the earlier requests of
  an identifier within its time slice, and the server is shown to refine it.
\<close>

section \<open>The server\<close>

text \<open>\<^verbatim>\<open>5 * time.Minute\<close>, in nanoseconds.\<close>

definition TimesliceBlock :: int where
  "TimesliceBlock = 5 * 60 * 1000000000"

definition MaxCount :: int where
  "MaxCount = 4"

text \<open>\<^verbatim>\<open>Time.Truncate\<close>: down to a multiple of the duration.\<close>

definition truncate_time :: "int \<Rightarrow> int \<Rightarrow> int" where
  "truncate_time t d = t - t mod d"

abbreviation slice_of :: "int \<Rightarrow> int" where
  "slice_of t \<equiv> truncate_time t TimesliceBlock"

record limiter =
  lastSlice :: int
  seen :: "string \<rightharpoonup> int"

text \<open>The zero time and the empty map the goroutine starts with.\<close>

definition init_limiter :: limiter where
  "init_limiter = \<lparr>lastSlice = 0, seen = Map.empty\<rparr>"

text \<open>One turn of the loop: the answer sent on \<^verbatim>\<open>r.resp\<close> and the variables after it.\<close>

definition limiter_step :: "int \<Rightarrow> string \<Rightarrow> limiter \<Rightarrow> bool \<times> limiter" where
  "limiter_step now rid st =
     (let curSlice = truncate_time now TimesliceBlock in
      if lastSlice st \<noteq> curSlice then
        (False, \<lparr>lastSlice = curSlice, seen = [rid \<mapsto> 1]\<rparr>)
      else
        (let curCount = (case seen st rid of None \<Rightarrow> 0 | Some c \<Rightarrow> c) in
         if curCount + 1 > MaxCount then (True, st)
         else (False, st\<lparr>seen := (seen st)(rid \<mapsto> curCount + 1)\<rparr>)))"

text \<open>\<^verbatim>\<open>Run\<close> starts one of two goroutines, according to its \<^verbatim>\<open>dryrun\<close> flag.\<close>

datatype rl_server = DryRunServer | LimitingServer limiter

definition run_ratelimit :: "bool \<Rightarrow> rl_server" where
  "run_ratelimit dryrun = (if dryrun then DryRunServer else LimitingServer init_limiter)"

text \<open>\<^verbatim>\<open>IsRateLimited\<close>: one request sent to the server and its answer received.\<close>

definition IsRateLimited :: "int \<Rightarrow> bytes \<Rightarrow> rl_server \<Rightarrow> bool \<times> rl_server" where
  "IsRateLimited now rid srv = (case srv of
     DryRunServer \<Rightarrow> (False, DryRunServer)
   | LimitingServer st \<Rightarrow>
      (let (limited, st') = limiter_step now (string_of_bytes rid) st
       in (limited, LimitingServer st')))"

text \<open>A sequence of requests, each with the time the server reads its clock.\<close>

fun serve :: "rl_server \<Rightarrow> (int \<times> bytes) list \<Rightarrow> bool list \<times> rl_server" where
  "serve srv [] = ([], srv)"
| "serve srv ((now, rid) # rs) =
     (let (a, srv') = IsRateLimited now rid srv; (as, srv'') = serve srv' rs
      in (a # as, srv''))"

section \<open>The specification\<close>

text \<open>
  A request is limited when its identifier has made \<^const>\<open>MaxCount\<close> requests or more
  in the same time slice before it.
\<close>

definition requests_in :: "int \<Rightarrow> bytes \<Rightarrow> (int \<times> bytes) list \<Rightarrow> nat" where
  "requests_in sl rid hist = length (filter (\<lambda>(t, i). slice_of t = sl \<and> i = rid) hist)"

fun spec_serve :: "(int \<times> bytes) list \<Rightarrow> (int \<times> bytes) list \<Rightarrow> bool list" where
  "spec_serve hist [] = []"
| "spec_serve hist ((now, rid) # rs) =
     (MaxCount \<le> int (requests_in (slice_of now) rid hist)) # spec_serve (hist @ [(now, rid)]) rs"

text \<open>The requests of one identifier in one slice that were let through.\<close>

definition admitted_in :: "int \<Rightarrow> bytes \<Rightarrow> (int \<times> bytes) list \<Rightarrow> bool list \<Rightarrow> nat" where
  "admitted_in sl rid rs as =
     length (filter (\<lambda>((t, i), limited). \<not> limited \<and> slice_of t = sl \<and> i = rid) (zip rs as))"

text \<open>The states the goroutine can be in, whatever its clock shows.\<close>

inductive limiter_reachable :: "limiter \<Rightarrow> bool" where
  start: "limiter_reachable init_limiter"
| step: "limiter_reachable st \<Longrightarrow> limiter_step now rid st = (a, st') \<Longrightarrow> limiter_reachable st'"

text \<open>Every stored count is between one and the maximum.\<close>

definition counts_ok :: "limiter \<Rightarrow> bool" where
  "counts_ok st \<longleftrightarrow> (\<forall>rid c. seen st rid = Some c \<longrightarrow> 1 \<le> c \<and> c \<le> MaxCount)"

text \<open>How the variables of the server stand for the requests it has served.\<close>

definition tracks :: "(int \<times> bytes) list \<Rightarrow> limiter \<Rightarrow> bool" where
  "tracks hist st \<longleftrightarrow>
     (hist \<noteq> [] \<longrightarrow> (\<exists>(t, i) \<in> set hist. lastSlice st = slice_of t)) \<and>
     (\<forall>(t, i) \<in> set hist. slice_of t \<le> lastSlice st) \<and>
     (\<forall>rid. (case seen st (string_of_bytes rid) of None \<Rightarrow> 0 | Some c \<Rightarrow> c) =
        min MaxCount (int (requests_in (lastSlice st) rid hist)))"

section \<open>Lemmas\<close>

lemma truncate_mono: "s \<le> t \<Longrightarrow> slice_of s \<le> slice_of t"
proof -
  assume "s \<le> t"
  then have "s div TimesliceBlock \<le> t div TimesliceBlock"
    by (intro zdiv_mono1) (simp_all add: TimesliceBlock_def)
  then have "TimesliceBlock * (s div TimesliceBlock) \<le> TimesliceBlock * (t div TimesliceBlock)"
    by (intro mult_left_mono) (simp_all add: TimesliceBlock_def)
  then show ?thesis by (simp add: truncate_time_def minus_mod_eq_mult_div)
qed

lemma slice_of_le: "slice_of t \<le> t"
  by (simp add: truncate_time_def TimesliceBlock_def)

lemma slice_of_gt: "t < slice_of t + TimesliceBlock"
proof -
  have "t mod TimesliceBlock < TimesliceBlock" by (simp add: TimesliceBlock_def)
  then show ?thesis by (simp add: truncate_time_def)
qed

lemma requests_in_snoc:
  "requests_in sl rid (hist @ [(t, i)]) =
     requests_in sl rid hist + (if slice_of t = sl \<and> i = rid then 1 else 0)"
  by (simp add: requests_in_def)

lemma requests_in_0: "(\<And>t i. (t, i) \<in> set hist \<Longrightarrow> slice_of t \<noteq> sl) \<Longrightarrow> requests_in sl rid hist = 0"
  by (auto simp: requests_in_def filter_empty_conv)

lemma string_of_bytes_inj [simp]: "string_of_bytes a = string_of_bytes b \<longleftrightarrow> a = b"
  by (metis bytes_of_string_of_bytes)

lemma counts_ok_step:
  assumes "counts_ok st" and "limiter_step now rid st = (a, st')"
  shows "counts_ok st'"
proof -
  have "0 \<le> c" if "seen st rid = Some c" for c
    using assms(1) that by (force simp: counts_ok_def)
  then show ?thesis
    using assms unfolding counts_ok_def limiter_step_def Let_def MaxCount_def
    by (auto split: if_splits option.splits)
qed

lemma counts_ok_init: "counts_ok init_limiter"
  by (simp add: counts_ok_def init_limiter_def)

lemma counts_ok_reachable: "limiter_reachable st \<Longrightarrow> counts_ok st"
  by (induction rule: limiter_reachable.induct) (auto intro: counts_ok_init counts_ok_step)

lemma tracks_init: "tracks [] init_limiter"
  by (simp add: tracks_def init_limiter_def requests_in_def MaxCount_def)

text \<open>
  One step keeps the correspondence and answers as the specification does, provided the
  clock has not gone back to an earlier slice.
\<close>

lemma tracks_step:
  assumes tr: "tracks hist st" and mono: "\<And>t i. (t, i) \<in> set hist \<Longrightarrow> t \<le> now"
    and step: "limiter_step now (string_of_bytes rid) st = (a, st')"
  shows "tracks (hist @ [(now, rid)]) st'"
    and "a \<longleftrightarrow> MaxCount \<le> int (requests_in (slice_of now) rid hist)"
proof -
  have past: "slice_of t \<le> slice_of now" if "(t, i) \<in> set hist" for t i
    using mono [OF that] by (rule truncate_mono)
  have last: "lastSlice st \<le> slice_of now" if "hist \<noteq> []"
    using tr that past by (fastforce simp: tracks_def)
  have cnt: "(case seen st (string_of_bytes i) of None \<Rightarrow> 0 | Some c \<Rightarrow> c) =
      min MaxCount (int (requests_in (lastSlice st) i hist))" for i
    using tr by (simp add: tracks_def)
  show "tracks (hist @ [(now, rid)]) st'"
    and "a \<longleftrightarrow> MaxCount \<le> int (requests_in (slice_of now) rid hist)"
  proof (atomize (full), cases "lastSlice st = slice_of now")
    case False
    then have new: "a = False" "st' = \<lparr>lastSlice = slice_of now, seen = [string_of_bytes rid \<mapsto> 1]\<rparr>"
      using step by (auto simp: limiter_step_def Let_def)
    have "slice_of t \<noteq> slice_of now" if "(t, i) \<in> set hist" for t i
      using tr that False last by (fastforce simp: tracks_def)
    then have none: "requests_in (slice_of now) i hist = 0" for i
      by (rule requests_in_0)
    show "tracks (hist @ [(now, rid)]) st' \<and>
        a = (MaxCount \<le> int (requests_in (slice_of now) rid hist))"
      using new none past by (auto simp: tracks_def requests_in_snoc MaxCount_def)
  next
    case True
    show "tracks (hist @ [(now, rid)]) st' \<and>
        a = (MaxCount \<le> int (requests_in (slice_of now) rid hist))"
      using step True cnt [of rid] cnt past tr
      by (auto simp: tracks_def limiter_step_def Let_def requests_in_snoc MaxCount_def
          split: if_splits)
  qed
qed

lemma serve_tracks:
  assumes "tracks hist st" and "sorted (map fst (hist @ rs))"
  shows "fst (serve (LimitingServer st) rs) = spec_serve hist rs"
  using assms
proof (induction rs arbitrary: hist st)
  case Nil
  show ?case by simp
next
  case (Cons r rs)
  obtain now rid where r: "r = (now, rid)" by force
  obtain a st' where st: "limiter_step now (string_of_bytes rid) st = (a, st')" by force
  have le: "t \<le> now" if "(t, i) \<in> set hist" for t i
    using Cons.prems(2) that r by (force simp: sorted_append)
  have srt: "sorted (map fst ((hist @ [(now, rid)]) @ rs))"
    using Cons.prems(2) r by simp
  have "tracks (hist @ [(now, rid)]) st'"
    and a: "a = (MaxCount \<le> int (requests_in (slice_of now) rid hist))"
    using tracks_step [OF Cons.prems(1) le st] by auto
  then have "fst (serve (LimitingServer st') rs) = spec_serve (hist @ [(now, rid)]) rs"
    using srt Cons.IH by blast
  then show ?case
    using r st a by (auto simp: IsRateLimited_def split: prod.splits)
qed

lemma serve_fresh:
  "sorted (map fst rs) \<Longrightarrow> fst (serve (run_ratelimit False) rs) = spec_serve [] rs"
  using serve_tracks [OF tracks_init, of rs] by (simp add: run_ratelimit_def)

lemma length_spec_serve [simp]: "length (spec_serve hist rs) = length rs"
  by (induction hist rs rule: spec_serve.induct) auto

lemma admitted_spec:
  "int (admitted_in sl rid rs (spec_serve hist rs)) =
     min MaxCount (int (requests_in sl rid (hist @ rs))) - min MaxCount (int (requests_in sl rid hist))"
proof (induction hist rs rule: spec_serve.induct)
  case (1 hist)
  show ?case by (simp add: admitted_in_def)
next
  case (2 hist now i rs)
  then show ?case
    by (auto simp: admitted_in_def requests_in_snoc MaxCount_def)
qed

section \<open>Properties\<close>

text \<open>
  C27. The limiting server refines its specification: on any sequence of requests whose
  clock readings do not decrease, the answers are exactly those of counting, for each
  request, the earlier requests of the same identifier in the same five-minute slice.
\<close>

theorem serve_refines_spec:
  assumes "sorted (map fst rs)"
  shows "fst (serve (run_ratelimit False) rs) = spec_serve [] rs"
  using assms by (rule serve_fresh)

theorem serve_refines_spec_witness:
  "fst (serve (run_ratelimit False) (replicate 5 (7, [1]) @ [(300000000000, [1])])) =
     [False, False, False, False, True, False]"
proof -
  have "sorted (map fst (replicate 5 (7, [1]) @ [(300000000000 :: int, [1 :: byte])]))"
    by (simp add: numeral_eq_Suc)
  from serve_refines_spec [OF this] show ?thesis
    by (simp add: requests_in_def MaxCount_def truncate_time_def TimesliceBlock_def eval_nat_numeral)
qed

text \<open>
  Within one time slice an identifier is let through exactly as often as it asks, up
  to four times and never more.
\<close>

theorem admitted_per_slice:
  assumes "sorted (map fst rs)"
  shows "int (admitted_in sl rid rs (fst (serve (run_ratelimit False) rs))) =
     min MaxCount (int (requests_in sl rid rs))"
  using admitted_spec [of sl rid rs "[]"] serve_fresh [OF assms]
  by (simp add: requests_in_def MaxCount_def)

theorem admitted_per_slice_witness:
  "int (admitted_in 0 [1] (replicate 6 (7, [1])) (fst (serve (run_ratelimit False) (replicate 6 (7, [1]))))) = 4"
proof -
  have "sorted (map fst (replicate 6 (7 :: int, [1 :: byte])))" by (simp add: numeral_eq_Suc)
  from admitted_per_slice [OF this, of 0 "[1]"] show ?thesis
    by (simp add: requests_in_def MaxCount_def truncate_time_def TimesliceBlock_def eval_nat_numeral)
qed

text \<open>
  In every state the goroutine can reach, whatever its clock does, the stored counts
  lie between one and the maximum, and a request whose slice differs from the recorded
  one is let through and recorded as the first of its slice.
\<close>

theorem limiter_invariant:
  assumes "limiter_reachable st"
  shows "counts_ok st \<and>
    (lastSlice st \<noteq> slice_of now \<longrightarrow>
       limiter_step now rid st = (False, \<lparr>lastSlice = slice_of now, seen = [rid \<mapsto> 1]\<rparr>))"
  using counts_ok_reachable [OF assms] by (simp add: limiter_step_def Let_def)

theorem limiter_invariant_witness:
  "counts_ok init_limiter \<and> fst (limiter_step 300000000000 ''a'' init_limiter) = False"
  using limiter_invariant [OF limiter_reachable.start, of 300000000000 "''a''"]
  by (simp add: init_limiter_def truncate_time_def TimesliceBlock_def)

text \<open>
  Started as the main program starts it, with the dry-run flag, the server limits no
  request of any sequence.
\<close>

theorem dryrun_never_limits: "serve (run_ratelimit True) rs = (replicate (length rs) False, DryRunServer)"
proof -
  have "serve DryRunServer rs = (replicate (length rs) False, DryRunServer)"
    by (induction rs) (auto simp: IsRateLimited_def)
  then show ?thesis by (simp add: run_ratelimit_def)
qed

end
