(* ===== verification/AccountSdk.thy ===== *)
theory AccountSdk
  imports Convertor
begin

text \<open>
  What the account contract (\<^verbatim>\<open>superposition_libaccounts\<close>) is written against: words, the
  storage of a contract, calls to other contracts, and the functions of \<^verbatim>\<open>bobcat-sdk\<close>,
  \<^verbatim>\<open>borsh\<close> and \<^verbatim>\<open>superposition-assets\<close> it calls, which are not part of the repository and are
  the fields of a parameter. The predicate \<^verbatim>\<open>sdk_ok\<close> states what they are documented to do.
  A contract may be called again while it waits for a call of its own: all that is assumed
  of an outside call is that it changes the storage of the account only as the account's own
  entry points do, the relation \<^verbatim>\<open>later\<close>, which the theory of the account shows them to keep.
\<close>

section \<open>Words, storage and calls\<close>

text \<open>A word is its 32 bytes, the most significant first.\<close>

type_synonym word32 = bytes

definition U_ZERO :: word32 where "U_ZERO = zeros 32"
definition U_ONE :: word32 where "U_ONE = zeros 31 @ [1]"
definition U_TWO :: word32 where "U_TWO = zeros 31 @ [2]"
definition U_MAX :: word32 where "U_MAX = replicate 32 255"

definition is_some :: "word32 \<Rightarrow> bool" where
  "is_some u \<longleftrightarrow> u \<noteq> U_ZERO"

definition U_le :: "word32 \<Rightarrow> word32 \<Rightarrow> bool" where
  "U_le a b \<longleftrightarrow> be_value a \<le> be_value b"

type_synonym storage = "word32 \<Rightarrow> word32"

datatype ext =
    ExtCall Address bytes
  | ExtStatic Address bytes
  | ExtCreate bytes bytes

text \<open>
  A running call: the storage of the account, the calls it has made so far, the oldest
  first, and the word it returns. A panic reverts: what it leaves here is thrown away by
  the entry point.
\<close>

record frame =
  f_storage :: storage
  f_calls :: "ext list"
  f_return :: "word32 option"

datatype Network = Arbitrum | Robinhood | RobinhoodTestnet

record Imm =
  imm_network :: Network
  imm_clearinghouse :: Address

text \<open>The requests of an account, as the enumeration of \<^verbatim>\<open>lib.rs\<close> has them.\<close>

datatype request =
    FreshBackwardsReq FreshBackwards
  | SolveReq "SolveArgsSigArgs list"
  | VersionReq
  | AuthorityReq
  | SolveV2Req SolveV2Args Sig
  | TransferOnlyReq TransferOnlyArgs Sig
  | StatementReq StatementArgs Sig
  | OwnerReq
  | Ed25519KeyReq
  | SolveV3Req SolveV3Args Sig
  | AssetsVersionReq

datatype wire =
    WireSolveArgs SolveArgs
  | WireSolveV2Args SolveV2Args
  | WireSolveV3Args SolveV3Args
  | WireTransferOnlyArgs TransferOnlyArgs
  | WireStatementArgs StatementArgs
  | WireRequest request

section \<open>The parameter\<close>

record sdk =
  slot_map :: "word32 \<Rightarrow> word32 \<Rightarrow> word32"
  SLOT_IMPL :: word32
  guard_slot :: "string \<Rightarrow> word32"
  storage_exchange :: "word32 \<Rightarrow> word32 \<Rightarrow> word32 \<Rightarrow> storage \<Rightarrow> bool \<times> storage"
  reentrancy_guard_const_keccak :: "string \<Rightarrow> (frame, nat) gm \<Rightarrow> (frame, nat) gm"
  flush_guard :: "(frame, nat) gm \<Rightarrow> (frame, nat) gm"
  U_from :: "bytes \<Rightarrow> word32"
  U_from_u64 :: "u64 \<Rightarrow> word32"
  U_addr :: "word32 \<Rightarrow> Address"
  U_display :: "word32 \<Rightarrow> string"
  Asset_display :: "Asset \<Rightarrow> string"
  contract_address :: Address
  msg_sender :: Address
  code_hash :: "ext list \<Rightarrow> Address \<Rightarrow> word32"
  call_unit_err_vec :: "Address \<Rightarrow> bytes \<Rightarrow> (frame, bool \<times> bytes option) gm"
  safe_call_bool_err_vec :: "Address \<Rightarrow> bytes \<Rightarrow> (frame, bool \<times> bytes option) gm"
  safe_call_unit_err_vec :: "Address \<Rightarrow> bytes \<Rightarrow> (frame, bool \<times> bytes option) gm"
  call_word_err_vec :: "Address \<Rightarrow> bytes \<Rightarrow> (frame, bytes option + word32) gm"
  call_unit :: "Address \<Rightarrow> bytes \<Rightarrow> (frame, bool) gm"
  static_call_bool :: "Address \<Rightarrow> bytes \<Rightarrow> (frame, bool) gm"
  create2_pre_unit :: "bytes \<Rightarrow> bytes \<Rightarrow> (frame, Address option) gm"
  revert_if_bad_call_unit_vec :: "bool \<times> bytes option \<Rightarrow> unit res"
  revert_if_bad_call_slice_vec :: "bytes option + word32 \<Rightarrow> word32 res"
  read_words4 :: "bytes \<Rightarrow> (word32 \<times> word32 \<times> word32 \<times> word32) option"
  edphverify_pre :: "bytes \<Rightarrow> word32 \<Rightarrow> Sig \<Rightarrow> bool"
  edphverify_post :: "bytes \<Rightarrow> word32 \<Rightarrow> Sig \<Rightarrow> bool"
  sdk_sha512 :: "bytes \<Rightarrow> bytes"
  sdk_keccak256 :: "bytes \<Rightarrow> word32"
  ecrecover_post :: "word32 \<Rightarrow> u8 \<Rightarrow> word32 \<Rightarrow> word32 \<Rightarrow> Address option"
  make_fn_permit :: "Address \<Rightarrow> Address \<Rightarrow> word32 \<Rightarrow> word32 \<Rightarrow> u8 \<Rightarrow> word32 \<Rightarrow> word32 \<Rightarrow> bytes"
  make_fn_transfer_from :: "Address \<Rightarrow> Address \<Rightarrow> word32 \<Rightarrow> bytes"
  make_fn_approve :: "Address \<Rightarrow> word32 \<Rightarrow> bytes"
  make_fn_balance_of :: "Address \<Rightarrow> bytes"
  make_metamorphic_evmfn_beacon_proxy :: "Address \<Rightarrow> bytes"
  SEL_MIGRATE :: bytes
  const_keccak_sel :: "string \<Rightarrow> bytes"
  asset_addr :: "Asset \<Rightarrow> Network \<Rightarrow> Address option"
  to_vec :: "wire \<Rightarrow> bytes option"
  Args_deserialize :: "bytes \<Rightarrow> string + request"

section \<open>The storage of an account\<close>

text \<open>The slots of \<^verbatim>\<open>storage.rs\<close>, numbered in the order of the declaration.\<close>

definition slot_no :: "nat \<Rightarrow> word32" where
  "slot_no n = be_fixed 32 n"

definition plain_get :: "nat \<Rightarrow> storage \<Rightarrow> word32" where
  "plain_get n st = st (slot_no n)"

definition plain_set :: "nat \<Rightarrow> word32 \<Rightarrow> storage \<Rightarrow> storage" where
  "plain_set n x st = st(slot_no n := x)"

definition map_get :: "sdk \<Rightarrow> nat \<Rightarrow> word32 \<Rightarrow> storage \<Rightarrow> word32" where
  "map_get S n k st = st (slot_map S (slot_no n) k)"

definition map_set :: "sdk \<Rightarrow> nat \<Rightarrow> word32 \<Rightarrow> word32 \<Rightarrow> storage \<Rightarrow> storage" where
  "map_set S n k x st = st(slot_map S (slot_no n) k := x)"

abbreviation "ed25519_count_set \<equiv> plain_set 1"
abbreviation "ed25519_slot_get S \<equiv> map_get S 2"
abbreviation "ed25519_slot_set S \<equiv> map_set S 2"
abbreviation "ethereum_owner_get \<equiv> plain_get 3"
abbreviation "ethereum_owner_set \<equiv> plain_set 3"
abbreviation "timestamps_get S \<equiv> map_get S 4"
abbreviation "version_get \<equiv> plain_get 5"
abbreviation "version_set \<equiv> plain_set 5"
abbreviation "authority_get \<equiv> plain_get 6"
abbreviation "authority_set \<equiv> plain_set 6"

definition get_storage :: "(storage \<Rightarrow> 'a) \<Rightarrow> (frame, 'a) gm" where
  "get_storage f = (\<lambda>fr. (Ok (f (f_storage fr)), fr))"

definition set_storage :: "(storage \<Rightarrow> storage) \<Rightarrow> (frame, unit) gm" where
  "set_storage f = modifyM (\<lambda>fr. fr\<lparr>f_storage := f (f_storage fr)\<rparr>)"

definition write_word :: "word32 \<Rightarrow> (frame, unit) gm" where
  "write_word u = modifyM (\<lambda>fr. fr\<lparr>f_return := Some u\<rparr>)"

definition assertM :: "bool \<Rightarrow> string \<Rightarrow> (frame, unit) gm" where
  "assertM b msg = liftR (if b then Ok () else Panic msg)"

definition unwrapM :: "'a option \<Rightarrow> (frame, 'a) gm" where
  "unwrapM v = liftR (case v of None \<Rightarrow> Panic ''called Option::unwrap() on a None value'' | Some x \<Rightarrow> Ok x)"

definition timestamps_exchange :: "sdk \<Rightarrow> word32 \<Rightarrow> (frame, unit) gm" where
  "timestamps_exchange S ms = (\<lambda>fr.
     case storage_exchange S (slot_map S (slot_no 4) ms) U_ZERO U_ONE (f_storage fr) of
       (ok, st) \<Rightarrow> (if ok then Ok () else Panic ''exchange failed'', fr\<lparr>f_storage := st\<rparr>))"

text \<open>A loop over a list.\<close>

fun for_each :: "('a \<Rightarrow> (frame, unit) gm) \<Rightarrow> 'a list \<Rightarrow> (frame, unit) gm" where
  "for_each body [] = retM ()"
| "for_each body (x # xs) = bindM (body x) (\<lambda>_. for_each body xs)"

section \<open>Documented behaviour\<close>

text \<open>
  What time and other calls may do to the storage of an account: a consumed value stays
  consumed, and once the account is at its current version, its version, first key, owner and
  authority stay, as does a lock held by a running call.
\<close>

definition later :: "sdk \<Rightarrow> storage \<Rightarrow> storage \<Rightarrow> bool" where
  "later S st st' \<longleftrightarrow>
     (\<forall>k. timestamps_get S k st \<noteq> U_ZERO \<longrightarrow> timestamps_get S k st' \<noteq> U_ZERO) \<and>
     (version_get st = U_TWO \<longrightarrow>
        version_get st' = U_TWO \<and> ed25519_slot_get S U_ZERO st' = ed25519_slot_get S U_ZERO st \<and>
        ethereum_owner_get st' = ethereum_owner_get st \<and> authority_get st' = authority_get st) \<and>
     (\<forall>key. st' (guard_slot S key) = st (guard_slot S key))"

text \<open>An outside call returns, is the one call it makes, and leaves the account as above.\<close>

definition one_call :: "sdk \<Rightarrow> ext \<Rightarrow> (frame, 'a) gm \<Rightarrow> bool" where
  "one_call S e m \<longleftrightarrow> (\<forall>fr. \<exists>v st. m fr = (Ok v, fr\<lparr>f_storage := st, f_calls := f_calls fr @ [e]\<rparr>) \<and>
     later S (f_storage fr) st)"

text \<open>The slots do not run into each other.\<close>

definition layout_ok :: "sdk \<Rightarrow> bool" where
  "layout_ok S \<longleftrightarrow>
     (\<forall>n\<in>{2, 4}. \<forall>m\<in>{2, 4}. \<forall>k l. slot_map S (slot_no n) k = slot_map S (slot_no m) l \<longrightarrow> n = m \<and> k = l) \<and>
     (\<forall>n\<in>{2, 4}. \<forall>m<7. \<forall>k. slot_map S (slot_no n) k \<noteq> slot_no m) \<and>
     (\<forall>n\<in>{2, 4}. \<forall>k. slot_map S (slot_no n) k \<noteq> SLOT_IMPL S) \<and>
     (\<forall>n\<in>{2, 4}. \<forall>k key. slot_map S (slot_no n) k \<noteq> guard_slot S key) \<and>
     (\<forall>m<7. SLOT_IMPL S \<noteq> slot_no m \<and> (\<forall>key. guard_slot S key \<noteq> slot_no m)) \<and>
     (\<forall>key. guard_slot S key \<noteq> SLOT_IMPL S)"

definition guard_ok :: "sdk \<Rightarrow> bool" where
  "guard_ok S \<longleftrightarrow> (\<forall>key m fr v fr'.
     reentrancy_guard_const_keccak S key m fr = (Ok v, fr') \<longleftrightarrow>
     (f_storage fr (guard_slot S key) = U_ZERO \<and>
      (\<exists>fr''. m (fr\<lparr>f_storage := (f_storage fr)(guard_slot S key := U_ONE)\<rparr>) = (Ok v, fr'') \<and>
         fr' = fr''\<lparr>f_storage := (f_storage fr'')(guard_slot S key := U_ZERO)\<rparr>)))"

definition calls_ok :: "sdk \<Rightarrow> bool" where
  "calls_ok S \<longleftrightarrow> (\<forall>to cd.
     one_call S (ExtCall to cd) (call_unit_err_vec S to cd) \<and>
     one_call S (ExtCall to cd) (safe_call_bool_err_vec S to cd) \<and>
     one_call S (ExtCall to cd) (safe_call_unit_err_vec S to cd) \<and>
     one_call S (ExtCall to cd) (call_word_err_vec S to cd) \<and>
     one_call S (ExtCall to cd) (call_unit S to cd) \<and>
     one_call S (ExtStatic to cd) (static_call_bool S to cd) \<and>
     one_call S (ExtCreate cd to) (create2_pre_unit S cd to))"

definition sdk_ok :: "sdk \<Rightarrow> bool" where
  "sdk_ok S \<longleftrightarrow> layout_ok S \<and> guard_ok S \<and> calls_ok S \<and>
     (\<forall>k old new st. storage_exchange S k old new st = (if st k = old then (True, st(k := new)) else (False, st))) \<and>
     (\<forall>m. flush_guard S m = m) \<and>
     (\<forall>ok v. is_ok (revert_if_bad_call_unit_vec S (ok, v)) \<longleftrightarrow> ok) \<and>
     (\<forall>r u. revert_if_bad_call_slice_vec S r = Ok u \<longleftrightarrow> r = Inr u) \<and>
     (\<forall>a b c d. length a = 32 \<and> length b = 32 \<and> length c = 32 \<and> length d = 32 \<longrightarrow>
        read_words4 S (a @ b @ c @ d) = Some (a, b, c, d)) \<and>
     (\<forall>a. length a = 20 \<longrightarrow> U_from S a = zeros 12 @ a) \<and> (\<forall>a. length a = 20 \<longrightarrow> U_addr S (zeros 12 @ a) = a) \<and>
     length (SEL_MIGRATE S) = 4"

text \<open>
  Contracts that do what they are asked and do not call back: every call succeeds, the
  balances are as large as a word can be, and the storage of the account stays.
\<close>

definition willing :: "sdk \<Rightarrow> bool" where
  "willing S \<longleftrightarrow> (\<forall>to cd fr. let fr' = fr\<lparr>f_calls := f_calls fr @ [ExtCall to cd]\<rparr> in
     (\<exists>v. call_unit_err_vec S to cd fr = (Ok (True, v), fr')) \<and>
     (\<exists>v. safe_call_bool_err_vec S to cd fr = (Ok (True, v), fr')) \<and>
     (\<exists>v. safe_call_unit_err_vec S to cd fr = (Ok (True, v), fr')) \<and>
     call_word_err_vec S to cd fr = (Ok (Inr U_MAX), fr') \<and>
     static_call_bool S to cd fr = (Ok True, fr\<lparr>f_calls := f_calls fr @ [ExtStatic to cd]\<rparr>))"

text \<open>The footprint of a running call on the storage of its account.\<close>

definition frame_later :: "sdk \<Rightarrow> frame \<Rightarrow> frame \<Rightarrow> bool" where
  "frame_later S fr fr' \<longleftrightarrow> later S (f_storage fr) (f_storage fr')"

text \<open>The storage is as the account's code leaves it: locks are not held.\<close>

definition unlocked :: "sdk \<Rightarrow> storage \<Rightarrow> bool" where
  "unlocked S st \<longleftrightarrow> (\<forall>key. st (guard_slot S key) = U_ZERO)"

section \<open>An instance\<close>

text \<open>Contracts that answer every call, and a verifier that knows one signature and one key.\<close>

definition ref_call :: "(Address \<Rightarrow> bytes \<Rightarrow> ext) \<Rightarrow> 'a \<Rightarrow> Address \<Rightarrow> bytes \<Rightarrow> (frame, 'a) gm" where
  "ref_call mk v to cd = (\<lambda>fr. (Ok v, fr\<lparr>f_calls := f_calls fr @ [mk to cd]\<rparr>))"

definition ref_guard :: "string \<Rightarrow> (frame, nat) gm \<Rightarrow> (frame, nat) gm" where
  "ref_guard key m = (\<lambda>fr.
     if f_storage fr [7] \<noteq> U_ZERO then (Panic ''reentrant'', fr)
     else case m (fr\<lparr>f_storage := (f_storage fr)([7] := U_ONE)\<rparr>) of
         (Ok v, fr') \<Rightarrow> (Ok v, fr'\<lparr>f_storage := (f_storage fr')([7] := U_ZERO)\<rparr>)
       | r \<Rightarrow> r)"

definition ref_decode :: "bytes \<Rightarrow> string + request" where
  "ref_decode bs =
     (if bs = [2] then Inr VersionReq
      else if bs = [7] then Inr OwnerReq
      else case dec_Args bs of
          None \<Rightarrow> Inl ''Unexpected length of input''
        | Some (a, r) \<Rightarrow>
            if args_Enum a = ArgsFreshBackwards then Inr (FreshBackwardsReq (args_FreshBackwards a))
            else if args_Enum a = ArgsSolveV2 then Inr (SolveV2Req (v2_Args (args_SolveV2 a)) (v2_Sig (args_SolveV2 a)))
            else Inr (SolveV3Req (v3_Args (args_SolveV3 a)) (v3_Sig (args_SolveV3 a))))"

fun ref_to_vec :: "wire \<Rightarrow> bytes option" where
  "ref_to_vec (WireSolveArgs a) = Some (enc_SolveArgs a)"
| "ref_to_vec (WireSolveV2Args a) = Some (enc_SolveV2Args a)"
| "ref_to_vec (WireSolveV3Args a) = Some (enc_SolveV3Args a)"
| "ref_to_vec (WireTransferOnlyArgs a) = Some (toa_MsTs a)"
| "ref_to_vec (WireStatementArgs a) = Some (enc_vec enc_u8 (sta_Msg a) @ sta_MsTs a)"
| "ref_to_vec (WireRequest (SolveReq args)) = Some (1 # enc_vec enc_SolveArgsSigArgs args)"
| "ref_to_vec (WireRequest req) = None"

definition ref_sdk :: sdk where
  "ref_sdk = \<lparr>
     slot_map = (\<lambda>slot k. 0 # slot @ k), SLOT_IMPL = [], guard_slot = (\<lambda>key. [7]),
     storage_exchange = (\<lambda>k old new st. if st k = old then (True, st(k := new)) else (False, st)),
     reentrancy_guard_const_keccak = ref_guard, flush_guard = (\<lambda>m. m),
     U_from = (\<lambda>b. zeros (32 - length b) @ b), U_from_u64 = (\<lambda>w. zeros 24 @ be_fixed 8 (unat w)), U_addr = drop 12, U_display = hex_encode,
     Asset_display = (\<lambda>a. hex_encode [a]),
     contract_address = replicate 20 9, msg_sender = replicate 20 6, code_hash = (\<lambda>calls a. zeros 12 @ a),
     call_unit_err_vec = ref_call ExtCall (True, None), safe_call_bool_err_vec = ref_call ExtCall (True, None),
     safe_call_unit_err_vec = ref_call ExtCall (True, None), call_word_err_vec = ref_call ExtCall (Inr U_MAX),
     call_unit = ref_call ExtCall True, static_call_bool = ref_call ExtStatic True,
     create2_pre_unit = (\<lambda>code salt. ref_call (\<lambda>salt code. ExtCreate code salt) (Some (replicate 20 8)) salt code),
     revert_if_bad_call_unit_vec = (\<lambda>(ok, v). if ok then Ok () else Panic ''revert''),
     revert_if_bad_call_slice_vec = (\<lambda>r. case r of Inl v \<Rightarrow> Panic ''revert'' | Inr u \<Rightarrow> Ok u),
     read_words4 = (\<lambda>b. if length b < 128 then None
       else Some (take 32 b, take 32 (drop 32 b), take 32 (drop 64 b), take 32 (drop 96 b))),
     edphverify_pre = (\<lambda>m key sig. key = replicate 32 4 \<and> sig = replicate 64 97),
     edphverify_post = (\<lambda>h key sig. key = replicate 32 4 \<and> sig = replicate 64 97),
     sdk_sha512 = (\<lambda>b. b), sdk_keccak256 = (\<lambda>b. zeros 32), ecrecover_post = (\<lambda>h v r s. Some (replicate 20 6)),
     make_fn_permit = (\<lambda>own spender amt deadline v r s. [1] @ own @ spender @ amt @ deadline @ [v] @ r @ s),
     make_fn_transfer_from = (\<lambda>own recipient amt. [2] @ own @ recipient @ amt),
     make_fn_approve = (\<lambda>spender amt. [3] @ spender @ amt), make_fn_balance_of = (\<lambda>a. [4] @ a),
     make_metamorphic_evmfn_beacon_proxy = (\<lambda>a. [5] @ a), SEL_MIGRATE = replicate 4 255, const_keccak_sel = (\<lambda>s. replicate 4 6),
     asset_addr = (\<lambda>a net. Some (replicate 20 a)), to_vec = ref_to_vec, Args_deserialize = ref_decode\<rparr>"

section \<open>Lemmas\<close>

lemma sdk_okD:
  assumes "sdk_ok S"
  shows "layout_ok S" "guard_ok S" "calls_ok S"
    "storage_exchange S k old new st = (if st k = old then (True, st(k := new)) else (False, st))"
    "flush_guard S m = m" "is_ok (revert_if_bad_call_unit_vec S (ok, v)) \<longleftrightarrow> ok"
    "revert_if_bad_call_slice_vec S r = Ok u \<longleftrightarrow> r = Inr u"
    "length a = 32 \<Longrightarrow> length b = 32 \<Longrightarrow> length c = 32 \<Longrightarrow> length d = 32 \<Longrightarrow> read_words4 S (a @ b @ c @ d) = Some (a, b, c, d)"
    "length e = 20 \<Longrightarrow> U_from S e = zeros 12 @ e" "length e = 20 \<Longrightarrow> U_addr S (zeros 12 @ e) = e"
    "length (SEL_MIGRATE S) = 4"
  using assms unfolding sdk_ok_def by simp_all

lemma words_distinct: "U_ZERO \<noteq> U_ONE" "U_ONE \<noteq> U_TWO" "U_ZERO \<noteq> U_TWO" "U_ONE \<noteq> U_ZERO" "U_TWO \<noteq> U_ONE" "U_TWO \<noteq> U_ZERO"
  by (simp_all add: U_ZERO_def U_ONE_def U_TWO_def zeros_def replicate_eq_replicate append_eq_append_conv2 del: replicate.simps)
    (simp_all add: numeral_eq_Suc)

lemma U_two_above: "\<not> U_le U_TWO U_ONE"
  unfolding U_le_def U_TWO_def U_ONE_def by simp

lemma slot_no_inj: "n < 7 \<Longrightarrow> m < 7 \<Longrightarrow> slot_no n = slot_no m \<longleftrightarrow> n = m"
  unfolding slot_no_def by (rule be_fixed_inj) simp_all

subsection \<open>Slots\<close>

text \<open>Writing one of the slots leaves every other alone.\<close>

lemma layoutD:
  assumes "layout_ok S"
  shows "n \<in> {2, 4} \<Longrightarrow> m \<in> {2, 4} \<Longrightarrow> slot_map S (slot_no n) k = slot_map S (slot_no m) l \<longleftrightarrow> n = m \<and> k = l"
    "n \<in> {2, 4} \<Longrightarrow> p < 7 \<Longrightarrow> slot_map S (slot_no n) k \<noteq> slot_no p"
    "n \<in> {2, 4} \<Longrightarrow> slot_map S (slot_no n) k \<noteq> SLOT_IMPL S"
    "n \<in> {2, 4} \<Longrightarrow> slot_map S (slot_no n) k \<noteq> guard_slot S key"
    "p < 7 \<Longrightarrow> SLOT_IMPL S \<noteq> slot_no p" "p < 7 \<Longrightarrow> guard_slot S key \<noteq> slot_no p" "guard_slot S key \<noteq> SLOT_IMPL S"
  using assms unfolding layout_ok_def by blast+

lemmas slot_defs = plain_get_def plain_set_def map_get_def map_set_def

lemma slots_apart:
  assumes "layout_ok S"
  shows "timestamps_get S k (st(slot_map S (slot_no 4) l := x)) = (if k = l then x else timestamps_get S k st)"
    "ed25519_slot_get S k (st(slot_map S (slot_no 4) l := x)) = ed25519_slot_get S k st"
    "p < 7 \<Longrightarrow> plain_get p (st(slot_map S (slot_no 4) l := x)) = plain_get p st"
    "(st(slot_map S (slot_no 4) l := x)) (guard_slot S key) = st (guard_slot S key)"
    "timestamps_get S k (st(guard_slot S key := x)) = timestamps_get S k st"
    "ed25519_slot_get S k (st(guard_slot S key := x)) = ed25519_slot_get S k st"
    "p < 7 \<Longrightarrow> plain_get p (st(guard_slot S key := x)) = plain_get p st"
    "timestamps_get S k (st(SLOT_IMPL S := x)) = timestamps_get S k st"
    "ed25519_slot_get S k (st(SLOT_IMPL S := x)) = ed25519_slot_get S k st"
    "p < 7 \<Longrightarrow> plain_get p (st(SLOT_IMPL S := x)) = plain_get p st"
    "(st(SLOT_IMPL S := x)) (guard_slot S key) = st (guard_slot S key)"
    "p < 7 \<Longrightarrow> timestamps_get S k (plain_set p x st) = timestamps_get S k st"
    "p < 7 \<Longrightarrow> ed25519_slot_get S k (plain_set p x st) = ed25519_slot_get S k st"
    "p < 7 \<Longrightarrow> q < 7 \<Longrightarrow> plain_get q (plain_set p x st) = (if p = q then x else plain_get q st)"
    "p < 7 \<Longrightarrow> plain_set p x st (guard_slot S key) = st (guard_slot S key)"
    "timestamps_get S k (ed25519_slot_set S l x st) = timestamps_get S k st"
    "ed25519_slot_get S k (ed25519_slot_set S l x st) = (if k = l then x else ed25519_slot_get S k st)"
    "p < 7 \<Longrightarrow> plain_get p (ed25519_slot_set S l x st) = plain_get p st"
    "ed25519_slot_set S l x st (guard_slot S key) = st (guard_slot S key)"
  by (simp_all add: slot_defs layoutD [OF assms] layoutD [OF assms, symmetric] slot_no_inj)

subsection \<open>Time passes\<close>

lemma later_refl: "later S st st"
  by (simp add: later_def)

lemma later_trans: "later S st st' \<Longrightarrow> later S st' st'' \<Longrightarrow> later S st st''"
  by (simp add: later_def)

interpretation frame_fp: footprint "frame_later S" for S
  by unfold_locales (auto simp: frame_later_def intro: later_refl later_trans)

lemma one_call_later: "one_call S e m \<Longrightarrow> keeps (frame_later S) m"
  unfolding keeps_def
proof
  fix fr
  assume "one_call S e m"
  then obtain v st where "m fr = (Ok v, fr\<lparr>f_storage := st, f_calls := f_calls fr @ [e]\<rparr>)" "later S (f_storage fr) st"
    unfolding one_call_def by blast
  then show "frame_later S fr (snd (m fr))" by (simp add: frame_later_def)
qed

lemma one_call_Ok:
  assumes "one_call S e m" and "m fr = (r, fr')"
  shows "\<exists>v. r = Ok v" "f_calls fr' = f_calls fr @ [e]" "frame_later S fr fr'" "f_return fr' = f_return fr"
proof -
  obtain v st where "m fr = (Ok v, fr\<lparr>f_storage := st, f_calls := f_calls fr @ [e]\<rparr>)" "later S (f_storage fr) st"
    using assms(1) unfolding one_call_def by blast
  with assms(2) show "\<exists>v. r = Ok v" "f_calls fr' = f_calls fr @ [e]" "frame_later S fr fr'" "f_return fr' = f_return fr"
    by (auto simp: frame_later_def)
qed

lemma calls_okD:
  assumes "calls_ok S"
  shows "one_call S (ExtCall to cd) (call_unit_err_vec S to cd)" "one_call S (ExtCall to cd) (safe_call_bool_err_vec S to cd)"
    "one_call S (ExtCall to cd) (safe_call_unit_err_vec S to cd)" "one_call S (ExtCall to cd) (call_word_err_vec S to cd)"
    "one_call S (ExtCall to cd) (call_unit S to cd)" "one_call S (ExtStatic to cd) (static_call_bool S to cd)"
    "one_call S (ExtCreate cd to) (create2_pre_unit S cd to)"
  using assms unfolding calls_ok_def by blast+

lemma exchange_eq:
  assumes "sdk_ok S"
  shows "timestamps_exchange S ms fr = (if timestamps_get S ms (f_storage fr) = U_ZERO
     then (Ok (), fr\<lparr>f_storage := (f_storage fr)(slot_map S (slot_no 4) ms := U_ONE)\<rparr>)
     else (Panic ''exchange failed'', fr))"
  by (simp add: timestamps_exchange_def sdk_okD(4) [OF assms] map_get_def)

lemma exchange_later:
  assumes "sdk_ok S" shows "keeps (frame_later S) (timestamps_exchange S ms)"
  unfolding keeps_def frame_later_def exchange_eq [OF assms] later_def
  by (simp add: slots_apart [OF sdk_okD(1) [OF assms]] words_distinct)
    (metis insertCI layoutD(4) [OF sdk_okD(1) [OF assms]])

lemma keeps_frame_simps:
  "keeps (frame_later S) (get_storage f)" "keeps (frame_later S) (assertM b msg)" "keeps (frame_later S) (unwrapM v)"
  "keeps (frame_later S) (write_word u)"
  by (simp_all add: keeps_def frame_later_def get_storage_def assertM_def unwrapM_def write_word_def modifyM_def later_refl)

lemma keeps_for_each: "(\<And>x. keeps (frame_later S) (body x)) \<Longrightarrow> keeps (frame_later S) (for_each body xs)"
  by (induction xs) (auto intro: frame_fp.keeps_bindM frame_fp.keeps_retM)

lemma guard_OkD:
  assumes "sdk_ok S" and "reentrancy_guard_const_keccak S key m fr = (Ok v, fr')"
  obtains fr'' where "f_storage fr (guard_slot S key) = U_ZERO"
    "m (fr\<lparr>f_storage := (f_storage fr)(guard_slot S key := U_ONE)\<rparr>) = (Ok v, fr'')"
    "fr' = fr''\<lparr>f_storage := (f_storage fr'')(guard_slot S key := U_ZERO)\<rparr>"
  using assms(2) sdk_okD(2) [OF assms(1)] unfolding guard_ok_def by blast

lemma assertM_Ok [simp]: "assertM b msg fr = (Ok v, fr') \<longleftrightarrow> b \<and> fr' = fr"
  by (auto simp: assertM_def)

lemma unwrapM_Ok [simp]: "unwrapM x fr = (Ok v, fr') \<longleftrightarrow> x = Some v \<and> fr' = fr"
  by (auto simp: unwrapM_def split: option.splits)

lemma get_storage_Ok [simp]: "get_storage f fr = (Ok v, fr') \<longleftrightarrow> v = f (f_storage fr) \<and> fr' = fr"
  by (auto simp: get_storage_def)

subsection \<open>The instance\<close>

lemma length_slot_no [simp]: "length (slot_no n) = 32"
  by (simp add: slot_no_def)

lemma ref_call_one: "one_call S (mk to cd) (ref_call mk v to cd)"
  unfolding one_call_def ref_call_def
proof
  fix fr :: frame
  show "\<exists>u st. (Ok v, fr\<lparr>f_calls := f_calls fr @ [mk to cd]\<rparr>) = (Ok u, fr\<lparr>f_storage := st, f_calls := f_calls fr @ [mk to cd]\<rparr>) \<and>
      later S (f_storage fr) st"
    by (intro exI [of _ v] exI [of _ "f_storage fr"]) (simp add: later_refl)
qed

lemma ref_layout_ok: "layout_ok ref_sdk"
proof -
  have inj: "slot_map ref_sdk (slot_no n) k = slot_map ref_sdk (slot_no m) l \<longleftrightarrow> slot_no n = slot_no m \<and> k = l" for n m k l
    by (simp add: ref_sdk_def append_eq_append_conv)
  have "slot_no 2 \<noteq> slot_no 4" by (simp add: slot_no_inj)
  then have two_four: "slot_no n = slot_no m \<Longrightarrow> n = m" if "n \<in> {2, 4}" "m \<in> {2, 4}" for n m using that by auto
  have "length (slot_map ref_sdk (slot_no n) k) \<ge> 33" for n k by (simp add: ref_sdk_def)
  then have long: "slot_map ref_sdk (slot_no n) k \<noteq> y" if "length y \<le> 32" for n k y using that by (metis Suc_n_not_le_n eval_nat_numeral(3) le_trans)
  have short: "length (SLOT_IMPL ref_sdk) = 0" "length (guard_slot ref_sdk key) = 1" for key by (simp_all add: ref_sdk_def)
  have apart: "SLOT_IMPL ref_sdk \<noteq> slot_no m" "guard_slot ref_sdk key \<noteq> slot_no m" "guard_slot ref_sdk key \<noteq> SLOT_IMPL ref_sdk" for m key
    using short(1) short(2) [of key] length_slot_no [of m] by (auto simp del: length_slot_no)
  have "\<forall>n\<in>{2, 4}. \<forall>m\<in>{2, 4}. \<forall>k l. slot_map ref_sdk (slot_no n) k = slot_map ref_sdk (slot_no m) l \<longrightarrow> n = m \<and> k = l"
    using inj two_four by blast
  moreover have "slot_map ref_sdk (slot_no n) k \<noteq> slot_no m" "slot_map ref_sdk (slot_no n) k \<noteq> SLOT_IMPL ref_sdk"
    "slot_map ref_sdk (slot_no n) k \<noteq> guard_slot ref_sdk key" for n k m key
    by (rule long, simp add: short)+
  ultimately show ?thesis unfolding layout_ok_def using apart by blast
qed

lemma ref_guard_ok: "guard_ok ref_sdk"
  unfolding guard_ok_def
proof (intro allI)
  fix key m fr v fr'
  have "ref_guard key m fr = (Ok v, fr') \<longleftrightarrow> f_storage fr [7] = U_ZERO \<and>
      (\<exists>fr''. m (fr\<lparr>f_storage := (f_storage fr)([7] := U_ONE)\<rparr>) = (Ok v, fr'') \<and>
         fr' = fr''\<lparr>f_storage := (f_storage fr'')([7] := U_ZERO)\<rparr>)"
    by (cases "m (fr\<lparr>f_storage := (f_storage fr)([7] := U_ONE)\<rparr>)") (auto simp: ref_guard_def split: res.splits)
  then show "reentrancy_guard_const_keccak ref_sdk key m fr = (Ok v, fr') \<longleftrightarrow>
      (f_storage fr (guard_slot ref_sdk key) = U_ZERO \<and>
       (\<exists>fr''. m (fr\<lparr>f_storage := (f_storage fr)(guard_slot ref_sdk key := U_ONE)\<rparr>) = (Ok v, fr'') \<and>
          fr' = fr''\<lparr>f_storage := (f_storage fr'')(guard_slot ref_sdk key := U_ZERO)\<rparr>))"
    by (simp add: ref_sdk_def)
qed

lemma ref_calls_ok: "calls_ok ref_sdk"
proof -
  have "call_unit_err_vec ref_sdk = ref_call ExtCall (True, None)" "safe_call_bool_err_vec ref_sdk = ref_call ExtCall (True, None)"
    "safe_call_unit_err_vec ref_sdk = ref_call ExtCall (True, None)" "call_word_err_vec ref_sdk = ref_call ExtCall (Inr U_MAX)"
    "call_unit ref_sdk = ref_call ExtCall True" "static_call_bool ref_sdk = ref_call ExtStatic True"
    "create2_pre_unit ref_sdk = (\<lambda>code salt. ref_call (\<lambda>salt code. ExtCreate code salt) (Some (replicate 20 8)) salt code)"
    by (simp_all add: ref_sdk_def)
  note eqs = this
  show ?thesis unfolding calls_ok_def eqs
    by (intro allI conjI ref_call_one ref_call_one [where mk = "\<lambda>salt code. ExtCreate code salt"])
qed

lemma ref_sdk_ok: "sdk_ok ref_sdk"
proof -
  have f1: "storage_exchange ref_sdk k old new st = (if st k = old then (True, st(k := new)) else (False, st))" for k old new st
    by (simp add: ref_sdk_def)
  have f2: "flush_guard ref_sdk m = m" for m by (simp add: ref_sdk_def)
  have f3: "is_ok (revert_if_bad_call_unit_vec ref_sdk (ok, v)) \<longleftrightarrow> ok" for ok v by (simp add: ref_sdk_def)
  have f4: "revert_if_bad_call_slice_vec ref_sdk r = Ok u \<longleftrightarrow> r = Inr u" for r u by (simp add: ref_sdk_def split: sum.splits)
  have f5: "read_words4 ref_sdk (a @ b @ c @ d) = Some (a, b, c, d)"
    if "length a = 32 \<and> length b = 32 \<and> length c = 32 \<and> length d = 32" for a b c d
    using that by (simp add: ref_sdk_def)
  have f6: "U_from ref_sdk a = zeros 12 @ a" if "length a = 20" for a using that by (simp add: ref_sdk_def)
  have f7: "U_addr ref_sdk (zeros 12 @ a) = a" if "length a = 20" for a using that by (simp add: ref_sdk_def)
  have f8: "length (SEL_MIGRATE ref_sdk) = 4" by (simp add: ref_sdk_def)
  show ?thesis
    unfolding sdk_ok_def
    by (intro conjI allI impI ref_layout_ok ref_guard_ok ref_calls_ok; (rule f1 f2 f3 f4 f8 | erule f5 f6 f7))
qed

lemma ref_willing: "willing ref_sdk"
  by (simp add: willing_def ref_sdk_def ref_call_def Let_def)

lemma willingD:
  assumes "willing S"
  shows "\<exists>v. call_unit_err_vec S to cd fr = (Ok (True, v), fr\<lparr>f_calls := f_calls fr @ [ExtCall to cd]\<rparr>)"
    "\<exists>v. safe_call_bool_err_vec S to cd fr = (Ok (True, v), fr\<lparr>f_calls := f_calls fr @ [ExtCall to cd]\<rparr>)"
    "\<exists>v. safe_call_unit_err_vec S to cd fr = (Ok (True, v), fr\<lparr>f_calls := f_calls fr @ [ExtCall to cd]\<rparr>)"
    "call_word_err_vec S to cd fr = (Ok (Inr U_MAX), fr\<lparr>f_calls := f_calls fr @ [ExtCall to cd]\<rparr>)"
    "static_call_bool S to cd fr = (Ok True, fr\<lparr>f_calls := f_calls fr @ [ExtStatic to cd]\<rparr>)"
  using assms unfolding willing_def Let_def by blast+

end
