(* ===== verification/Account.thy ===== *)
theory Account
  imports AccountSdk
begin

text \<open>
  The account contract: the entry points of \<^verbatim>\<open>superposition_libaccounts\<close> and the contract
  \<^verbatim>\<open>contract/src/main.rs\<close> that dispatches to them. A panic is a revert (the texts
  of plain assertions are shortened to their first words), so
  \<^verbatim>\<open>user_entrypoint\<close> leaves the storage alone unless it returns. Below the definitions: what
  every entry point keeps of the storage, the exact calls of a solve, single use of the
  signed values, and the conditions under which an account acts at all.
\<close>

section \<open>Solves\<close>

text \<open>A call that fails reverts with what it returned.\<close>

definition revert_if_bad :: "sdk \<Rightarrow> (frame, bool \<times> bytes option) gm \<Rightarrow> (frame, unit) gm" where
  "revert_if_bad S m = bindM m (\<lambda>r. liftR (revert_if_bad_call_unit_vec S r))"

definition revert_if_bad_slice :: "sdk \<Rightarrow> (frame, bytes option + word32) gm \<Rightarrow> (frame, word32) gm" where
  "revert_if_bad_slice S m = bindM m (\<lambda>r. liftR (revert_if_bad_call_slice_vec S r))"

definition SEL_ALLOWED :: "sdk \<Rightarrow> bytes" where
  "SEL_ALLOWED S = const_keccak_sel S ''allowed(bytes32)''"

definition is_allowed :: "sdk \<Rightarrow> Address \<Rightarrow> word32 \<Rightarrow> (frame, bool) gm" where
  "is_allowed S auth hash = static_call_bool S auth (SEL_ALLOWED S @ hash)"

definition solve_permit :: "sdk \<Rightarrow> Network \<Rightarrow> Address \<Rightarrow> Permit \<Rightarrow> (frame, unit) gm" where
  "solve_permit S net permit_owner p =
     bindM (unwrapM (asset_addr S (permit_Asset p) net)) (\<lambda>token.
     revert_if_bad S (call_unit_err_vec S token (make_fn_permit S permit_owner (contract_address S) U_MAX
       (U_from_u64 S (permit_Deadline p)) (permit_V p) (permit_R p) (permit_S p))))"

definition solve_take :: "sdk \<Rightarrow> Network \<Rightarrow> Address \<Rightarrow> Address \<Rightarrow> FromArgs \<Rightarrow> (frame, unit) gm" where
  "solve_take S net transfer_owner target f =
     bindM (unwrapM (asset_addr S (from_Asset f) net)) (\<lambda>token.
     bindM (revert_if_bad S (safe_call_bool_err_vec S token
       (make_fn_transfer_from S transfer_owner (contract_address S) (from_ToTake f)))) (\<lambda>_.
     revert_if_bad S (call_unit_err_vec S token (make_fn_approve S target (from_ToTake f)))))"

definition solve_authority :: "sdk \<Rightarrow> Address \<Rightarrow> (frame, unit) gm" where
  "solve_authority S target =
     bindM (get_storage authority_get) (\<lambda>authority_addr.
     if is_some authority_addr then
       bindM (\<lambda>fr. (Ok (code_hash S (f_calls fr) target), fr)) (\<lambda>c.
       bindM (is_allowed S (U_addr S authority_addr) c) (\<lambda>ok. assertM ok (''not allowed: '' @ hex_encode c)))
     else retM ())"

definition solve_target :: "sdk \<Rightarrow> Address \<Rightarrow> bytes \<Rightarrow> (frame, unit) gm" where
  "solve_target S target cd =
     bindM (safe_call_unit_err_vec S target cd) (\<lambda>(ok, v).
       assertM ok (''error calling: '' @ hex_encode target @ '', cd: '' @ hex_encode cd @
         (case v of None \<Rightarrow> '', no res'' | Some r \<Rightarrow> '', res: '' @ hex_encode r)))"

definition solve_unspent :: "sdk \<Rightarrow> Network \<Rightarrow> FromArgs \<Rightarrow> (frame, unit) gm" where
  "solve_unspent S net f =
     bindM (unwrapM (asset_addr S (from_Asset f) net)) (\<lambda>token.
     bindM (revert_if_bad_slice S (call_word_err_vec S token (make_fn_balance_of S (contract_address S)))) (\<lambda>bal.
     assertM (U_le (from_MaxUnspent f) bal)
       (''max unspent exceeds: '' @ U_display S (from_MaxUnspent f) @ '', '' @ U_display S bal)))"

definition solve_one :: "sdk \<Rightarrow> Network \<Rightarrow> Address \<Rightarrow> Address \<Rightarrow> SolveArgs \<Rightarrow> (frame, unit) gm" where
  "solve_one S net permit_owner transfer_owner args =
     bindM (timestamps_exchange S (U_from S (sa_MsTs args))) (\<lambda>_.
     bindM (for_each (solve_permit S net permit_owner) (sa_Permit args)) (\<lambda>_.
     bindM (for_each (solve_take S net transfer_owner (sa_Target args)) (sa_From args)) (\<lambda>_.
     bindM (solve_authority S (sa_Target args)) (\<lambda>_.
     bindM (solve_target S (sa_Target args) (sa_Cd args)) (\<lambda>_.
     for_each (solve_unspent S net) (sa_From args))))))"

definition entry_solve :: "sdk \<Rightarrow> Imm \<Rightarrow> SolveArgs list \<Rightarrow> Address \<Rightarrow> Address \<Rightarrow> (frame, nat) gm" where
  "entry_solve S imm args permit_owner transfer_owner =
     bindM (for_each (solve_one S (imm_network imm) permit_owner transfer_owner) args) (\<lambda>_. retM 0)"

text \<open>The signature of the first key over the encoding of a value.\<close>

definition signed_by :: "sdk \<Rightarrow> word32 \<Rightarrow> wire \<Rightarrow> Sig \<Rightarrow> (frame, unit) gm" where
  "signed_by S ed_owner v sig =
     bindM (unwrapM (to_vec S v)) (\<lambda>b. assertM (edphverify_pre S b ed_owner sig) ''assertion failed'')"

definition entry_solve_v1 :: "sdk \<Rightarrow> Imm \<Rightarrow> SolveArgsSigArgs list \<Rightarrow> (frame, nat) gm" where
  "entry_solve_v1 S imm args =
     bindM (get_storage (ed25519_slot_get S U_ZERO)) (\<lambda>ed_owner.
     bindM (for_each (\<lambda>a. signed_by S ed_owner (WireSolveArgs (sas_Args a)) (sas_Sig a)) args) (\<lambda>_.
     bindM (get_storage ethereum_owner_get) (\<lambda>owner.
     let eth_owner = U_addr S owner in
     entry_solve S imm (map sas_Args args) eth_owner eth_owner)))"

definition entry_solve_v2 :: "sdk \<Rightarrow> Imm \<Rightarrow> SolveV2Args \<Rightarrow> Sig \<Rightarrow> (frame, nat) gm" where
  "entry_solve_v2 S imm args sig =
     bindM (get_storage (ed25519_slot_get S U_ZERO)) (\<lambda>ed_owner.
     bindM (signed_by S ed_owner (WireSolveV2Args args) sig) (\<lambda>_.
     entry_solve S imm (v2a_Args args) (v2a_PermitOwner args) (v2a_TransferOwner args)))"

definition entry_solve_v3 :: "sdk \<Rightarrow> Imm \<Rightarrow> SolveV3Args \<Rightarrow> Sig \<Rightarrow> (frame, nat) gm" where
  "entry_solve_v3 S imm args sig =
     bindM (get_storage (ed25519_slot_get S U_ZERO)) (\<lambda>ed_owner.
     bindM (signed_by S ed_owner (WireSolveV3Args args) sig) (\<lambda>_.
     bindM (get_storage ethereum_owner_get) (\<lambda>owner.
     let eth_owner = U_addr S owner in
     bindM (unwrapM (asset_addr S (v3a_GasToken args) (imm_network imm))) (\<lambda>gas_token_addr.
     bindM (case v3a_GasTokenPermit args of
         None \<Rightarrow> retM ()
       | Some p \<Rightarrow>
           bindM (assertM (v3a_GasToken args = permit_Asset p)
             (''gas token '' @ Asset_display S (v3a_GasToken args) @ '' different from '' @ Asset_display S (permit_Asset p))) (\<lambda>_.
           revert_if_bad S (call_unit_err_vec S gas_token_addr (make_fn_permit S eth_owner (contract_address S) U_MAX
             (U_from_u64 S (permit_Deadline p)) (permit_V p) (permit_R p) (permit_S p))))) (\<lambda>_.
     bindM (revert_if_bad S (safe_call_bool_err_vec S gas_token_addr
       (make_fn_transfer_from S eth_owner (imm_clearinghouse imm) (U_from_u64 S (v3a_GasTokenAmt args))))) (\<lambda>_.
     entry_solve S imm (v3a_Args args) eth_owner eth_owner))))))"

section \<open>Transfers and statements\<close>

definition transfer_one :: "sdk \<Rightarrow> Network \<Rightarrow> Transfer \<Rightarrow> (frame, unit) gm" where
  "transfer_one S net t =
     bindM (unwrapM (asset_addr S (tr_Asset t) net)) (\<lambda>token.
     bindM (case tr_Permit t of
         None \<Rightarrow> retM ()
       | Some p \<Rightarrow> revert_if_bad S (call_unit_err_vec S token (make_fn_permit S (tr_From t) (contract_address S) U_MAX
           (U_from_u64 S (tp_Deadline p)) (tp_V p) (tp_R p) (tp_S p)))) (\<lambda>_.
     revert_if_bad S (safe_call_bool_err_vec S token (make_fn_transfer_from S (tr_From t) (tr_Recipient t) (tr_Amt t)))))"

definition entry_transfer_only :: "sdk \<Rightarrow> Imm \<Rightarrow> TransferOnlyArgs \<Rightarrow> Sig \<Rightarrow> (frame, nat) gm" where
  "entry_transfer_only S imm args sig =
     bindM (get_storage (ed25519_slot_get S U_ZERO)) (\<lambda>ed_owner.
     bindM (signed_by S ed_owner (WireTransferOnlyArgs args) sig) (\<lambda>_.
     bindM (assertM (toa_Args args \<noteq> []) ''no arguments'') (\<lambda>_.
     bindM (timestamps_exchange S (U_from S (toa_MsTs args))) (\<lambda>_.
     bindM (for_each (transfer_one S (imm_network imm)) (toa_Args args)) (\<lambda>_. retM 0)))))"

definition statement_sha512 :: "sdk \<Rightarrow> bytes \<Rightarrow> bytes \<Rightarrow> Address \<Rightarrow> bytes option" where
  "statement_sha512 S msg ms_ts contract_addr =
     map_option (\<lambda>content. sdk_sha512 S
       (bytes_of_string (''Superposition Accounts statement for '' @ hex_encode contract_addr) @ content))
     (to_vec S (WireStatementArgs \<lparr>sta_Msg = msg, sta_MsTs = ms_ts\<rparr>))"

definition entry_statement :: "sdk \<Rightarrow> StatementArgs \<Rightarrow> Sig \<Rightarrow> (frame, nat) gm" where
  "entry_statement S args sig =
     bindM (unwrapM (statement_sha512 S (sta_Msg args) (sta_MsTs args) (contract_address S))) (\<lambda>hash.
     bindM (get_storage (ed25519_slot_get S U_ZERO)) (\<lambda>key.
     bindM (assertM (edphverify_post S hash key sig) ''assertion failed'') (\<lambda>_.
     bindM (timestamps_exchange S (U_from S (sta_MsTs args))) (\<lambda>_. retM 0))))"

section \<open>Creation and migration\<close>

text \<open>
  The text an owner signs to have an account created, and its digest: the text has to fill
  its 153 bytes exactly.
\<close>

definition PREIMAGE_TXT_SIZE :: nat where
  "PREIMAGE_TXT_SIZE = 28 + 63 + 22 + 40"

definition preimage_txt :: "word32 \<Rightarrow> Address \<Rightarrow> bytes" where
  "preimage_txt pub_key authority =
     bytes_of_string (''New Superposition account: '' @ hex_encode pub_key @ '', authority contract: '' @ hex_encode authority)"

definition make_preimage :: "sdk \<Rightarrow> word32 \<Rightarrow> Address \<Rightarrow> word32 option" where
  "make_preimage S pub_key authority =
     (let txt = preimage_txt pub_key authority in
      if length txt = PREIMAGE_TXT_SIZE
      then Some (sdk_keccak256 S (0x19 # bytes_of_string (''Ethereum Signed Message:'' @ [CHR 10] @ ''153'') @ txt))
      else None)"

definition entry_fresh_backwards :: "sdk \<Rightarrow> FreshBackwards \<Rightarrow> (frame, nat) gm" where
  "entry_fresh_backwards S f =
     bindM (assertM (is_some (fb_Key f)) ''assertion failed'') (\<lambda>_.
     bindM (assertM (fb_EoaAddr f \<noteq> zeros 20) ''assertion failed'') (\<lambda>_.
     let authority = (case fb_Authority f of None \<Rightarrow> zeros 20 | Some a \<Rightarrow> a) in
     bindM (unwrapM (make_preimage S (fb_Key f) authority)) (\<lambda>msg_digest.
     bindM (unwrapM (ecrecover_post S msg_digest (fb_V f) (fb_R f) (fb_S f))) (\<lambda>signer.
     bindM (assertM (fb_EoaAddr f = signer) ''assertion failed'') (\<lambda>_.
     bindM (get_storage (\<lambda>st. st (SLOT_IMPL S))) (\<lambda>impl_addr.
     bindM (assertM (is_some impl_addr) ''not proxy'') (\<lambda>_.
     bindM (bindM (create2_pre_unit S (make_metamorphic_evmfn_beacon_proxy S (contract_address S)) (fb_EoaAddr f)) unwrapM)
       (\<lambda>proxy.
     bindM (bindM (call_unit S proxy (SEL_MIGRATE S @ fb_Key f @ U_from S (fb_EoaAddr f) @ impl_addr @ U_from S authority))
       (\<lambda>ok. assertM ok ''bad migration'')) (\<lambda>_.
     bindM (if fb_SolveArgs f = [] then retM ()
            else bindM (unwrapM (to_vec S (WireRequest (SolveReq (fb_SolveArgs f))))) (\<lambda>cd.
              revert_if_bad S (call_unit_err_vec S proxy cd))) (\<lambda>_.
     bindM (write_word (U_from S proxy)) (\<lambda>_. retM 0)))))))))))"

definition entry_migrate :: "sdk \<Rightarrow> word32 \<Rightarrow> word32 \<Rightarrow> word32 \<Rightarrow> word32 \<Rightarrow> (frame, nat) gm" where
  "entry_migrate S ed_key evm_owner impl_addr authority_addr =
     bindM (assertM (is_some impl_addr) ''assertion failed'') (\<lambda>_.
     bindM (get_storage version_get) (\<lambda>migration_level.
     let is_first_time = (migration_level = U_ZERO) in
     bindM (if is_first_time then
         bindM (assertM (is_some ed_key) ''assertion failed'') (\<lambda>_.
         bindM (assertM (is_some evm_owner) ''assertion failed'') (\<lambda>_.
         bindM (set_storage (ed25519_slot_set S U_ZERO ed_key)) (\<lambda>_.
         bindM (set_storage (ed25519_count_set U_ONE)) (\<lambda>_.
         set_storage (ethereum_owner_set evm_owner)))))
       else retM ()) (\<lambda>_.
     bindM (if U_le migration_level U_ONE then
         bindM (assertM (is_some impl_addr) ''assertion failed'') (\<lambda>_. set_storage (authority_set authority_addr))
       else retM ()) (\<lambda>_.
     bindM (if is_first_time then retM ()
       else bindM (get_storage ethereum_owner_get) (\<lambda>owner. assertM (U_addr S owner = msg_sender S) ''bad migrator'')) (\<lambda>_.
     bindM (set_storage (\<lambda>st. st(SLOT_IMPL S := impl_addr))) (\<lambda>_.
     bindM (set_storage (version_set U_TWO)) (\<lambda>_. retM 0)))))))"

section \<open>Dispatch\<close>

definition entry_word :: "(storage \<Rightarrow> word32) \<Rightarrow> (frame, nat) gm" where
  "entry_word get = bindM (get_storage get) (\<lambda>u. bindM (write_word u) (\<lambda>_. retM 0))"

definition entry_version :: "(frame, nat) gm" where
  "entry_version = entry_word version_get"

definition entry_authority :: "(frame, nat) gm" where
  "entry_authority = entry_word authority_get"

definition entry_owner :: "(frame, nat) gm" where
  "entry_owner = entry_word ethereum_owner_get"

definition entry_ed25519_key :: "sdk \<Rightarrow> (frame, nat) gm" where
  "entry_ed25519_key S = entry_word (ed25519_slot_get S U_ZERO)"

definition entry_assets_version :: "(frame, nat) gm" where
  "entry_assets_version = liftR (Panic ''not yet implemented'')"

definition REENTRANCY_KEY :: string where
  "REENTRANCY_KEY = ''superposition.accounts''"

fun entry :: "sdk \<Rightarrow> Imm \<Rightarrow> request \<Rightarrow> (frame, nat) gm" where
  "entry S imm (FreshBackwardsReq f) = entry_fresh_backwards S f"
| "entry S imm (SolveReq args) = reentrancy_guard_const_keccak S REENTRANCY_KEY (entry_solve_v1 S imm args)"
| "entry S imm VersionReq = entry_version"
| "entry S imm AuthorityReq = entry_authority"
| "entry S imm (SolveV2Req args sig) = reentrancy_guard_const_keccak S REENTRANCY_KEY (entry_solve_v2 S imm args sig)"
| "entry S imm (TransferOnlyReq args sig) = reentrancy_guard_const_keccak S REENTRANCY_KEY (entry_transfer_only S imm args sig)"
| "entry S imm (StatementReq args sig) = entry_statement S args sig"
| "entry S imm OwnerReq = entry_owner"
| "entry S imm Ed25519KeyReq = entry_ed25519_key S"
| "entry S imm (SolveV3Req args sig) = entry_solve_v3 S imm args sig"
| "entry S imm AssetsVersionReq = entry_assets_version"

definition dispatch :: "sdk \<Rightarrow> Imm \<Rightarrow> bytes \<Rightarrow> (frame, nat) gm" where
  "dispatch S imm args =
     (if 4 < length args \<and> take 4 args = SEL_MIGRATE S then
        bindM (unwrapM (read_words4 S (drop 4 args))) (\<lambda>(ed_key, eoa_owner, impl_addr, authority_addr).
        entry_migrate S ed_key eoa_owner impl_addr authority_addr)
      else (case Args_deserialize S args of
          Inl e \<Rightarrow> liftR (Panic (''weird: '' @ hex_encode args @ '': err: '' @ e))
        | Inr req \<Rightarrow> entry S imm req))"

text \<open>The frame a call starts with.\<close>

definition start_frame :: "storage \<Rightarrow> frame" where
  "start_frame st = \<lparr>f_storage = st, f_calls = [], f_return = None\<rparr>"

text \<open>The contract is built for one network; the address of the clearinghouse is not filled in.\<close>

definition contract_imm :: "Network \<Rightarrow> Imm" where
  "contract_imm net = \<lparr>imm_network = net, imm_clearinghouse = zeros 20\<rparr>"

text \<open>A call of the contract: what it returns and the calls it made, or a revert without a trace.\<close>

definition user_entrypoint :: "sdk \<Rightarrow> Network \<Rightarrow> bytes \<Rightarrow> storage \<Rightarrow> (word32 option \<times> ext list) res \<times> storage" where
  "user_entrypoint S net args st =
     (if args = [] then (Ok (Some (st (SLOT_IMPL S)), []), st)
      else (case flush_guard S (dispatch S (contract_imm net) args) (start_frame st) of
          (Ok n, fr) \<Rightarrow> (Ok (f_return fr, f_calls fr), f_storage fr)
        | (Err e, fr) \<Rightarrow> (Err e, st)
        | (Panic e, fr) \<Rightarrow> (Panic e, st)
        | (Exit e, fr) \<Rightarrow> (Exit e, st)))"

section \<open>Specification\<close>

text \<open>The values a request uses up, and who has to have signed it.\<close>

fun nonces_of :: "sdk \<Rightarrow> request \<Rightarrow> word32 list" where
  "nonces_of S (SolveReq args) = map (\<lambda>a. U_from S (sa_MsTs (sas_Args a))) args"
| "nonces_of S (SolveV2Req args sig) = map (\<lambda>a. U_from S (sa_MsTs a)) (v2a_Args args)"
| "nonces_of S (SolveV3Req args sig) = map (\<lambda>a. U_from S (sa_MsTs a)) (v3a_Args args)"
| "nonces_of S (TransferOnlyReq args sig) = [U_from S (toa_MsTs args)]"
| "nonces_of S (StatementReq args sig) = [U_from S (sta_MsTs args)]"
| "nonces_of S req = []"

definition verified :: "sdk \<Rightarrow> word32 \<Rightarrow> wire \<Rightarrow> Sig \<Rightarrow> bool" where
  "verified S key v sig \<longleftrightarrow> (\<exists>b. to_vec S v = Some b \<and> edphverify_pre S b key sig)"

fun authorised :: "sdk \<Rightarrow> word32 \<Rightarrow> request \<Rightarrow> bool" where
  "authorised S key (SolveReq args) \<longleftrightarrow> list_all (\<lambda>a. verified S key (WireSolveArgs (sas_Args a)) (sas_Sig a)) args"
| "authorised S key (SolveV2Req args sig) \<longleftrightarrow> verified S key (WireSolveV2Args args) sig"
| "authorised S key (SolveV3Req args sig) \<longleftrightarrow> verified S key (WireSolveV3Args args) sig"
| "authorised S key (TransferOnlyReq args sig) \<longleftrightarrow> verified S key (WireTransferOnlyArgs args) sig \<and> toa_Args args \<noteq> []"
| "authorised S key (StatementReq args sig) \<longleftrightarrow>
     (\<exists>h. statement_sha512 S (sta_Msg args) (sta_MsTs args) (contract_address S) = Some h \<and> edphverify_post S h key sig)"
| "authorised S key (FreshBackwardsReq f) \<longleftrightarrow>
     (\<exists>h. make_preimage S (fb_Key f) (case fb_Authority f of None \<Rightarrow> zeros 20 | Some a \<Rightarrow> a) = Some h \<and>
        ecrecover_post S h (fb_V f) (fb_R f) (fb_S f) = Some (fb_EoaAddr f))"
| "authorised S key AssetsVersionReq \<longleftrightarrow> False"
| "authorised S key req \<longleftrightarrow> True"

text \<open>The calls of a solve, in their order; the hash is the one of the target's code at the time.\<close>

definition permit_call :: "sdk \<Rightarrow> Network \<Rightarrow> Address \<Rightarrow> Permit \<Rightarrow> ext" where
  "permit_call S net permit_owner p = ExtCall (the (asset_addr S (permit_Asset p) net))
     (make_fn_permit S permit_owner (contract_address S) U_MAX (U_from_u64 S (permit_Deadline p)) (permit_V p) (permit_R p)
       (permit_S p))"

definition take_calls :: "sdk \<Rightarrow> Network \<Rightarrow> Address \<Rightarrow> Address \<Rightarrow> FromArgs \<Rightarrow> ext list" where
  "take_calls S net transfer_owner target f = (let token = the (asset_addr S (from_Asset f) net) in
     [ExtCall token (make_fn_transfer_from S transfer_owner (contract_address S) (from_ToTake f)),
      ExtCall token (make_fn_approve S target (from_ToTake f))])"

definition authority_calls :: "sdk \<Rightarrow> word32 \<Rightarrow> word32 \<Rightarrow> ext list" where
  "authority_calls S auth hash = (if is_some auth then [ExtStatic (U_addr S auth) (SEL_ALLOWED S @ hash)] else [])"

definition unspent_call :: "sdk \<Rightarrow> Network \<Rightarrow> FromArgs \<Rightarrow> ext" where
  "unspent_call S net f = ExtCall (the (asset_addr S (from_Asset f) net)) (make_fn_balance_of S (contract_address S))"

definition solve_calls :: "sdk \<Rightarrow> Network \<Rightarrow> Address \<Rightarrow> Address \<Rightarrow> word32 \<Rightarrow> word32 \<Rightarrow> SolveArgs \<Rightarrow> ext list" where
  "solve_calls S net permit_owner transfer_owner auth hash args =
     map (permit_call S net permit_owner) (sa_Permit args) @
     concat (map (take_calls S net transfer_owner (sa_Target args)) (sa_From args)) @
     authority_calls S auth hash @ [ExtCall (sa_Target args) (sa_Cd args)] @
     map (unspent_call S net) (sa_From args)"

definition gas_calls :: "sdk \<Rightarrow> Imm \<Rightarrow> Address \<Rightarrow> SolveV3Args \<Rightarrow> ext list" where
  "gas_calls S imm owner args = (let token = the (asset_addr S (v3a_GasToken args) (imm_network imm)) in
     (case v3a_GasTokenPermit args of None \<Rightarrow> [] | Some p \<Rightarrow> [permit_call S (imm_network imm) owner p]) @
     [ExtCall token (make_fn_transfer_from S owner (imm_clearinghouse imm) (U_from_u64 S (v3a_GasTokenAmt args)))])"

definition transfer_calls :: "sdk \<Rightarrow> Network \<Rightarrow> Transfer \<Rightarrow> ext list" where
  "transfer_calls S net t = (let token = the (asset_addr S (tr_Asset t) net) in
     (case tr_Permit t of None \<Rightarrow> [] | Some p \<Rightarrow> [ExtCall token (make_fn_permit S (tr_From t) (contract_address S) U_MAX
        (U_from_u64 S (tp_Deadline p)) (tp_V p) (tp_R p) (tp_S p))]) @
     [ExtCall token (make_fn_transfer_from S (tr_From t) (tr_Recipient t) (tr_Amt t))])"

definition fresh_calls :: "sdk \<Rightarrow> storage \<Rightarrow> Address \<Rightarrow> FreshBackwards \<Rightarrow> ext list" where
  "fresh_calls S st proxy f =
     [ExtCreate (make_metamorphic_evmfn_beacon_proxy S (contract_address S)) (fb_EoaAddr f),
      ExtCall proxy (SEL_MIGRATE S @ fb_Key f @ U_from S (fb_EoaAddr f) @ st (SLOT_IMPL S) @
        U_from S (case fb_Authority f of None \<Rightarrow> zeros 20 | Some a \<Rightarrow> a))] @
     (if fb_SolveArgs f = [] then [] else [ExtCall proxy (the (to_vec S (WireRequest (SolveReq (fb_SolveArgs f)))))])"

text \<open>
  The calls a request makes and the word it returns, in a given storage. The hashes of the
  code of the targets and the address of a created account come from outside.
\<close>

fun calls_of :: "sdk \<Rightarrow> Imm \<Rightarrow> storage \<Rightarrow> word32 list \<Rightarrow> Address \<Rightarrow> request \<Rightarrow> ext list" where
  "calls_of S imm st hs proxy (SolveReq args) =
     (let owner = U_addr S (ethereum_owner_get st) in
      concat (map2 (solve_calls S (imm_network imm) owner owner (authority_get st)) hs (map sas_Args args)))"
| "calls_of S imm st hs proxy (SolveV2Req args sig) =
     concat (map2 (solve_calls S (imm_network imm) (v2a_PermitOwner args) (v2a_TransferOwner args) (authority_get st))
       hs (v2a_Args args))"
| "calls_of S imm st hs proxy (SolveV3Req args sig) =
     (let owner = U_addr S (ethereum_owner_get st) in
      gas_calls S imm owner args @
      concat (map2 (solve_calls S (imm_network imm) owner owner (authority_get st)) hs (v3a_Args args)))"
| "calls_of S imm st hs proxy (TransferOnlyReq args sig) = concat (map (transfer_calls S (imm_network imm)) (toa_Args args))"
| "calls_of S imm st hs proxy (FreshBackwardsReq f) = fresh_calls S st proxy f"
| "calls_of S imm st hs proxy req = []"

fun batch_size :: "request \<Rightarrow> nat" where
  "batch_size (SolveReq args) = length args"
| "batch_size (SolveV2Req args sig) = length (v2a_Args args)"
| "batch_size (SolveV3Req args sig) = length (v3a_Args args)"
| "batch_size req = 0"

fun answer_of :: "sdk \<Rightarrow> storage \<Rightarrow> Address \<Rightarrow> request \<Rightarrow> word32 option" where
  "answer_of S st proxy VersionReq = Some (version_get st)"
| "answer_of S st proxy AuthorityReq = Some (authority_get st)"
| "answer_of S st proxy OwnerReq = Some (ethereum_owner_get st)"
| "answer_of S st proxy Ed25519KeyReq = Some (ed25519_slot_get S U_ZERO st)"
| "answer_of S st proxy (FreshBackwardsReq f) = Some (U_from S proxy)"
| "answer_of S st proxy req = None"

text \<open>A part of a call that returned: the calls it made, and what it left of the storage.\<close>

definition made :: "sdk \<Rightarrow> ext list \<Rightarrow> frame \<Rightarrow> frame \<Rightarrow> bool" where
  "made S es fr fr' \<longleftrightarrow> f_calls fr' = f_calls fr @ es \<and> f_return fr' = f_return fr \<and> frame_later S fr fr'"

text \<open>Values that were free before and are taken after.\<close>

definition spent :: "sdk \<Rightarrow> word32 list \<Rightarrow> storage \<Rightarrow> storage \<Rightarrow> bool" where
  "spent S ns st st' \<longleftrightarrow> distinct ns \<and>
     list_all (\<lambda>n. timestamps_get S n st = U_ZERO \<and> timestamps_get S n st' \<noteq> U_ZERO) ns"

text \<open>A request that went through: it was signed, its values are used up, and the account did what it asks.\<close>

definition performed :: "sdk \<Rightarrow> Imm \<Rightarrow> request \<Rightarrow> storage \<Rightarrow> word32 option \<times> ext list \<Rightarrow> storage \<Rightarrow> bool" where
  "performed S imm req st out st' \<longleftrightarrow>
     authorised S (ed25519_slot_get S U_ZERO st) req \<and> spent S (nonces_of S req) st st' \<and>
     (version_get st = U_TWO \<longrightarrow> (\<exists>hs proxy. length hs = batch_size req \<and>
        out = (answer_of S st proxy req, calls_of S imm st hs proxy req)))"

text \<open>
  The calls an account gets over time, each with its context (the sender, the block and the
  other contracts at the time): the requests that went through, and the storage at the end.
\<close>

definition request_of :: "sdk \<Rightarrow> bytes \<Rightarrow> request option" where
  "request_of S args =
     (if args = [] \<or> 4 < length args \<and> take 4 args = SEL_MIGRATE S then None
      else case Args_deserialize S args of Inl e \<Rightarrow> None | Inr req \<Rightarrow> Some req)"

fun history :: "(sdk \<times> Network \<times> bytes) list \<Rightarrow> storage \<Rightarrow> (sdk \<times> request) list \<times> storage" where
  "history [] st = ([], st)"
| "history ((S, net, args) # cs) st =
     (case user_entrypoint S net args st of (r, st1) \<Rightarrow>
      case history cs st1 of (acc, st') \<Rightarrow>
        (case request_of S args of None \<Rightarrow> acc | Some req \<Rightarrow> if is_ok r then (S, req) # acc else acc, st'))"

text \<open>Contexts of one account: they agree on where it keeps its storage.\<close>

definition same_account :: "sdk \<Rightarrow> sdk \<Rightarrow> bool" where
  "same_account S S' \<longleftrightarrow> slot_map S' = slot_map S \<and> guard_slot S' = guard_slot S"

text \<open>The assets of a solve have an address on the network.\<close>

definition known_assets :: "sdk \<Rightarrow> Network \<Rightarrow> SolveArgs \<Rightarrow> bool" where
  "known_assets S net a \<longleftrightarrow>
     list_all (\<lambda>p. asset_addr S (permit_Asset p) net \<noteq> None) (sa_Permit a) \<and>
     list_all (\<lambda>f. asset_addr S (from_Asset f) net \<noteq> None \<and> length (from_MaxUnspent f) = 32) (sa_From a)"

definition quiet_ok :: "(frame, unit) gm \<Rightarrow> bool" where
  "quiet_ok m \<longleftrightarrow> (\<forall>fr. \<exists>cs. m fr = (Ok (), fr\<lparr>f_calls := f_calls fr @ cs\<rparr>))"

section \<open>Lemmas\<close>

subsection \<open>What the entry points keep\<close>

lemma revert_later:
  "one_call S e m \<Longrightarrow> keeps (frame_later S) (revert_if_bad S m)"
  "one_call S e k \<Longrightarrow> keeps (frame_later S) (revert_if_bad_slice S k)"
  unfolding revert_if_bad_def revert_if_bad_slice_def
  by (erule one_call_later [THEN frame_fp.keeps_bindM], rule frame_fp.keeps_liftR)+

lemma calls_later:
  assumes "calls_ok S"
  shows "keeps (frame_later S) (revert_if_bad S (call_unit_err_vec S to cd))"
    "keeps (frame_later S) (revert_if_bad S (safe_call_bool_err_vec S to cd))"
    "keeps (frame_later S) (revert_if_bad_slice S (call_word_err_vec S to cd))"
    "keeps (frame_later S) (safe_call_unit_err_vec S to cd)" "keeps (frame_later S) (call_unit S to cd)"
    "keeps (frame_later S) (static_call_bool S to cd)" "keeps (frame_later S) (create2_pre_unit S cd to)"
  by (rule revert_later, rule calls_okD [OF assms] | rule one_call_later, rule calls_okD [OF assms])+

lemma keeps_read_frame: "keeps (frame_later S) (\<lambda>fr. (r fr, fr))"
  by (simp add: keeps_def frame_later_def later_refl)

lemmas later_intros = frame_fp.keeps_bindM frame_fp.keeps_retM frame_fp.keeps_liftR keeps_frame_simps keeps_for_each keeps_if
  keeps_option keeps_prod keeps_read_frame

lemma solve_parts_later:
  assumes "calls_ok S"
  shows "keeps (frame_later S) (solve_permit S net o1 p)" "keeps (frame_later S) (solve_take S net o2 target f)"
    "keeps (frame_later S) (solve_authority S target)" "keeps (frame_later S) (solve_target S target cd)"
    "keeps (frame_later S) (solve_unspent S net f)"
  unfolding solve_permit_def solve_take_def solve_authority_def solve_target_def solve_unspent_def is_allowed_def
  by (intro later_intros calls_later [OF assms])+

lemma solve_one_later:
  assumes "sdk_ok S" shows "keeps (frame_later S) (solve_one S net o1 o2 args)"
  unfolding solve_one_def
  by (intro later_intros exchange_later [OF assms] solve_parts_later [OF sdk_okD(3) [OF assms]])

lemma entry_solve_later:
  assumes "sdk_ok S" shows "keeps (frame_later S) (entry_solve S imm args o1 o2)"
  unfolding entry_solve_def by (intro later_intros solve_one_later [OF assms])

lemma entries_later:
  assumes "sdk_ok S"
  shows "keeps (frame_later S) (entry_solve_v1 S imm xs)" "keeps (frame_later S) (entry_solve_v2 S imm v2 sig)"
    "keeps (frame_later S) (entry_solve_v3 S imm v3 sig)" "keeps (frame_later S) (entry_transfer_only S imm t sig)"
    "keeps (frame_later S) (entry_statement S a sig)" "keeps (frame_later S) (entry_fresh_backwards S f)"
    "keeps (frame_later S) (entry_word get)"
  unfolding entry_solve_v1_def entry_solve_v2_def entry_solve_v3_def entry_transfer_only_def entry_statement_def
    entry_fresh_backwards_def entry_word_def signed_by_def transfer_one_def Let_def
  by (intro later_intros calls_later [OF sdk_okD(3) [OF assms]] exchange_later [OF assms] entry_solve_later [OF assms])+

lemma guard_later:
  assumes "sdk_ok S" and "keeps (frame_later S) m" and "reentrancy_guard_const_keccak S key m fr = (Ok v, fr')"
  shows "frame_later S fr fr'"
proof -
  obtain fr'' where g: "f_storage fr (guard_slot S key) = U_ZERO"
      "m (fr\<lparr>f_storage := (f_storage fr)(guard_slot S key := U_ONE)\<rparr>) = (Ok v, fr'')"
      "fr' = fr''\<lparr>f_storage := (f_storage fr'')(guard_slot S key := U_ZERO)\<rparr>"
    using assms(1,3) by (rule guard_OkD)
  note apart = slots_apart [OF sdk_okD(1) [OF assms(1)]]
  have "later S ((f_storage fr)(guard_slot S key := U_ONE)) (f_storage fr'')"
    using frame_fp.keepsD [OF assms(2) g(2)] by (simp add: frame_later_def)
  then show ?thesis
    using g(1,3) by (auto simp: frame_later_def later_def apart split: if_splits)
qed

lemma migrate_later:
  assumes "sdk_ok S" and "entry_migrate S ed_key evm_owner impl auth fr = (Ok n, fr')"
  shows "frame_later S fr fr'"
proof -
  note apart = slots_apart [OF sdk_okD(1) [OF assms(1)]] layoutD(7) [OF sdk_okD(1) [OF assms(1)]]
  have "version_get (f_storage fr) = U_TWO \<Longrightarrow> ?thesis"
    using assms(2)
    by (auto simp: entry_migrate_def bindM_Ok_iff Let_def words_distinct U_two_above set_storage_def modifyM_def
        frame_later_def later_def apart)
  moreover have "version_get (f_storage fr) \<noteq> U_TWO \<Longrightarrow> ?thesis"
    using assms(2)
    by (auto simp: entry_migrate_def bindM_Ok_iff Let_def set_storage_def modifyM_def
        frame_later_def later_def apart split: if_splits)
  ultimately show ?thesis by blast
qed

lemma dispatch_later:
  assumes "sdk_ok S" and "dispatch S imm args fr = (Ok n, fr')"
  shows "frame_later S fr fr'"
proof (cases "4 < length args \<and> take 4 args = SEL_MIGRATE S")
  case True
  then show ?thesis using assms(2) migrate_later [OF assms(1)] by (auto simp: dispatch_def bindM_Ok_iff)
next
  case False
  then obtain req where "entry S imm req fr = (Ok n, fr')"
    using assms(2) by (auto simp: dispatch_def split: sum.splits)
  then show ?thesis
    by (cases req) (auto intro: guard_later [OF assms(1) entries_later(1) [OF assms(1)]]
        guard_later [OF assms(1) entries_later(2) [OF assms(1)]] guard_later [OF assms(1) entries_later(4) [OF assms(1)]]
        frame_fp.keepsD [OF entries_later(3) [OF assms(1)]] frame_fp.keepsD [OF entries_later(5) [OF assms(1)]]
        frame_fp.keepsD [OF entries_later(6) [OF assms(1)]] frame_fp.keepsD [OF entries_later(7) [OF assms(1)]]
        simp: entry_version_def entry_authority_def entry_owner_def entry_ed25519_key_def entry_assets_version_def)
qed

subsection \<open>The calls of a solve\<close>

lemma made_refl: "made S [] fr fr"
  by (simp add: made_def frame_fp.refl)

lemma made_trans: "made S es fr fr1 \<Longrightarrow> made S es' fr1 fr2 \<Longrightarrow> made S (es @ es') fr fr2"
  unfolding made_def by (auto intro: frame_fp.trans)

lemma made_call: "one_call S e m \<Longrightarrow> m fr = (r, fr') \<Longrightarrow> made S [e] fr fr'"
  using one_call_Ok [of S e m fr r fr'] by (simp add: made_def)

lemma made_for_each:
  assumes "\<And>x fr u fr'. x \<in> set xs \<Longrightarrow> body x fr = (Ok u, fr') \<Longrightarrow> made S (c x) fr fr'" and "for_each body xs fr = (Ok u, fr')"
  shows "made S (concat (map c xs)) fr fr'"
  using assms
proof (induction xs arbitrary: fr)
  case (Cons x xs)
  then obtain fr1 where "body x fr = (Ok (), fr1)" "for_each body xs fr1 = (Ok u, fr')" by (auto simp: bindM_Ok_iff)
  with Cons.IH [of fr1] Cons.prems(1) [of x fr "()" fr1] Cons.prems(1) show ?case using made_trans [of S "c x" fr fr1] by simp
qed (simp add: made_refl)

lemma revert_made:
  "one_call S e m \<Longrightarrow> revert_if_bad S m fr = (Ok u, fr') \<Longrightarrow> made S [e] fr fr'"
  "one_call S e k \<Longrightarrow> revert_if_bad_slice S k fr = (Ok v, fr') \<Longrightarrow> made S [e] fr fr'"
  by (auto simp: revert_if_bad_def revert_if_bad_slice_def bindM_Ok_iff dest: made_call)

lemma exchange_made:
  assumes "sdk_ok S" and "timestamps_exchange S ms fr = (Ok u, fr')"
  shows "made S [] fr fr'" "timestamps_get S ms (f_storage fr) = U_ZERO" "timestamps_get S ms (f_storage fr') \<noteq> U_ZERO"
  using assms(2) frame_fp.keepsD [OF exchange_later [OF assms(1)] assms(2)]
  by (auto simp: exchange_eq [OF assms(1)] made_def slots_apart [OF sdk_okD(1) [OF assms(1)]] words_distinct split: if_splits)

lemma solve_parts_made:
  assumes "calls_ok S"
  shows "solve_permit S net o1 p fr = (Ok u, fr') \<Longrightarrow> made S [permit_call S net o1 p] fr fr'"
    "solve_take S net o2 target f fr = (Ok u, fr') \<Longrightarrow> made S (take_calls S net o2 target f) fr fr'"
    "solve_target S target cd fr = (Ok u, fr') \<Longrightarrow> made S [ExtCall target cd] fr fr'"
    "solve_unspent S net f fr = (Ok u, fr') \<Longrightarrow> made S [unspent_call S net f] fr fr'"
proof -
  note call = calls_okD [OF assms]
  show "solve_permit S net o1 p fr = (Ok u, fr') \<Longrightarrow> made S [permit_call S net o1 p] fr fr'"
    by (auto simp: solve_permit_def bindM_Ok_iff permit_call_def dest: revert_made(1) [OF call(1)])
  show "made S (take_calls S net o2 target f) fr fr'" if take: "solve_take S net o2 target f fr = (Ok u, fr')"
  proof -
    obtain token fr1 where "asset_addr S (from_Asset f) net = Some token"
        "revert_if_bad S (safe_call_bool_err_vec S token (make_fn_transfer_from S o2 (contract_address S) (from_ToTake f))) fr = (Ok (), fr1)"
        "revert_if_bad S (call_unit_err_vec S token (make_fn_approve S target (from_ToTake f))) fr1 = (Ok u, fr')"
      using take by (auto simp: solve_take_def bindM_Ok_iff)
    then show ?thesis
      using made_trans [OF revert_made(1) [OF call(2)] revert_made(1) [OF call(1)]] by (simp add: take_calls_def)
  qed
  show "solve_target S target cd fr = (Ok u, fr') \<Longrightarrow> made S [ExtCall target cd] fr fr'"
    by (auto simp: solve_target_def bindM_Ok_iff dest: made_call [OF call(3)] split: prod.splits)
  show "solve_unspent S net f fr = (Ok u, fr') \<Longrightarrow> made S [unspent_call S net f] fr fr'"
    by (auto simp: solve_unspent_def bindM_Ok_iff unspent_call_def dest: revert_made(2) [OF call(4)])
qed

lemma solve_authority_made:
  assumes "calls_ok S" and "solve_authority S target fr = (Ok u, fr')"
  shows "\<exists>h. made S (authority_calls S (authority_get (f_storage fr)) h) fr fr'"
proof (cases "is_some (authority_get (f_storage fr))")
  case True
  then obtain ok where "static_call_bool S (U_addr S (authority_get (f_storage fr)))
      (SEL_ALLOWED S @ code_hash S (f_calls fr) target) fr = (Ok ok, fr')"
    using assms(2) by (auto simp: solve_authority_def is_allowed_def bindM_Ok_iff)
  then have "made S [ExtStatic (U_addr S (authority_get (f_storage fr))) (SEL_ALLOWED S @ code_hash S (f_calls fr) target)] fr fr'"
    by (rule made_call [OF calls_okD(6) [OF assms(1)]])
  with True show ?thesis unfolding authority_calls_def by auto
next
  case False
  with assms(2) have "fr' = fr" by (auto simp: solve_authority_def bindM_Ok_iff)
  with False show ?thesis by (simp add: authority_calls_def made_refl)
qed

lemma solve_one_made:
  assumes "sdk_ok S" and "version_get (f_storage fr) = U_TWO" and "solve_one S net o1 o2 args fr = (Ok u, fr')"
  shows "\<exists>h. made S (solve_calls S net o1 o2 (authority_get (f_storage fr)) h args) fr fr'"
proof -
  note call = sdk_okD(3) [OF assms(1)]
  obtain fr1 fr2 fr3 fr4 fr5 where
    ex: "timestamps_exchange S (U_from S (sa_MsTs args)) fr = (Ok (), fr1)"
    and pe: "for_each (solve_permit S net o1) (sa_Permit args) fr1 = (Ok (), fr2)"
    and ta: "for_each (solve_take S net o2 (sa_Target args)) (sa_From args) fr2 = (Ok (), fr3)"
    and au: "solve_authority S (sa_Target args) fr3 = (Ok (), fr4)"
    and tg: "solve_target S (sa_Target args) (sa_Cd args) fr4 = (Ok (), fr5)"
    and un: "for_each (solve_unspent S net) (sa_From args) fr5 = (Ok u, fr')"
    using assms(3) by (auto simp: solve_one_def bindM_Ok_iff)
  note ex = exchange_made [OF assms(1) ex]
  have pe: "made S (map (permit_call S net o1) (sa_Permit args)) fr1 fr2"
    using made_for_each [OF solve_parts_made(1) [OF call] pe] by simp
  note ta = made_for_each [OF solve_parts_made(2) [OF call] ta]
  note tg = solve_parts_made(3) [OF call tg]
  have un: "made S (map (unspent_call S net) (sa_From args)) fr5 fr'"
    using made_for_each [OF solve_parts_made(4) [OF call] un] by simp
  have up3: "made S (map (permit_call S net o1) (sa_Permit args) @
      concat (map (take_calls S net o2 (sa_Target args)) (sa_From args))) fr fr3"
    using made_trans [OF ex(1) made_trans [OF pe ta]] by simp
  then have "authority_get (f_storage fr3) = authority_get (f_storage fr)"
    using assms(2) by (simp add: made_def frame_later_def later_def)
  with solve_authority_made [OF call au] obtain h where
    au: "made S (authority_calls S (authority_get (f_storage fr)) h) fr3 fr4" by auto
  show "\<exists>h. made S (solve_calls S net o1 o2 (authority_get (f_storage fr)) h args) fr fr'"
    using made_trans [OF up3 made_trans [OF au made_trans [OF tg un]]] by (auto simp: solve_calls_def)
qed

lemma solves_made:
  assumes "sdk_ok S" and "version_get (f_storage fr) = U_TWO" and "for_each (solve_one S net o1 o2) args fr = (Ok u, fr')"
  shows "\<exists>hs. length hs = length args \<and>
    made S (concat (map2 (solve_calls S net o1 o2 (authority_get (f_storage fr))) hs args)) fr fr'"
  using assms(2,3)
proof (induction args arbitrary: fr)
  case (Cons a args)
  obtain fr1 where one: "solve_one S net o1 o2 a fr = (Ok (), fr1)" and rest: "for_each (solve_one S net o1 o2) args fr1 = (Ok u, fr')"
    using Cons.prems(2) by (auto simp: bindM_Ok_iff)
  obtain h where h: "made S (solve_calls S net o1 o2 (authority_get (f_storage fr)) h a) fr fr1"
    using solve_one_made [OF assms(1) Cons.prems(1) one] by blast
  then have same: "version_get (f_storage fr1) = U_TWO" "authority_get (f_storage fr1) = authority_get (f_storage fr)"
    using Cons.prems(1) by (simp_all add: made_def frame_later_def later_def)
  obtain hs where "length hs = length args"
      "made S (concat (map2 (solve_calls S net o1 o2 (authority_get (f_storage fr))) hs args)) fr1 fr'"
    using Cons.IH [OF same(1) rest] same(2) by auto
  then show ?case using made_trans [OF h] by (intro exI [of _ "h # hs"]) simp
qed (simp add: made_refl)

subsection \<open>Single use\<close>

lemma spent_Nil: "spent S [] st st'"
  by (simp add: spent_def)

lemma spent_append:
  assumes "spent S ns st st1" and "spent S ms st1 st2" and "later S st st1" and "later S st1 st2"
  shows "spent S (ns @ ms) st st2"
  using assms unfolding spent_def later_def list_all_iff by auto

lemma spent_later:
  assumes "spent S ns st st1"
  shows "later S st1 st2 \<Longrightarrow> spent S ns st st2" "later S st0 st \<Longrightarrow> spent S ns st0 st1"
  using assms unfolding spent_def later_def list_all_iff by auto

lemma exchange_spent:
  assumes "sdk_ok S" and "timestamps_exchange S ms fr = (Ok u, fr')"
  shows "spent S [ms] (f_storage fr) (f_storage fr')"
  using exchange_made(2,3) [OF assms] by (simp add: spent_def)

lemma solve_one_spent:
  assumes "sdk_ok S" and "solve_one S net o1 o2 args fr = (Ok u, fr')"
  shows "spent S [U_from S (sa_MsTs args)] (f_storage fr) (f_storage fr')"
proof -
  obtain fr1 where ex: "timestamps_exchange S (U_from S (sa_MsTs args)) fr = (Ok (), fr1)"
    and rest: "bindM (for_each (solve_permit S net o1) (sa_Permit args)) (\<lambda>_.
      bindM (for_each (solve_take S net o2 (sa_Target args)) (sa_From args)) (\<lambda>_.
      bindM (solve_authority S (sa_Target args)) (\<lambda>_.
      bindM (solve_target S (sa_Target args) (sa_Cd args)) (\<lambda>_.
      for_each (solve_unspent S net) (sa_From args))))) fr1 = (Ok u, fr')" (is "?m fr1 = _")
    using assms(2) unfolding solve_one_def bindM_Ok_iff [of "timestamps_exchange _ _"] by auto
  have "keeps (frame_later S) ?m"
    by (intro later_intros solve_parts_later [OF sdk_okD(3) [OF assms(1)]])
  from frame_fp.keepsD [OF this rest] show ?thesis
    using spent_later(1) [OF exchange_spent [OF assms(1) ex]] by (simp add: frame_later_def)
qed

lemma solves_spent:
  assumes "sdk_ok S" and "for_each (solve_one S net o1 o2) args fr = (Ok u, fr')"
  shows "spent S (map (\<lambda>a. U_from S (sa_MsTs a)) args) (f_storage fr) (f_storage fr')"
  using assms(2)
proof (induction args arbitrary: fr)
  case (Cons a args)
  obtain fr1 where one: "solve_one S net o1 o2 a fr = (Ok (), fr1)" and rest: "for_each (solve_one S net o1 o2) args fr1 = (Ok u, fr')"
    using Cons.prems by (auto simp: bindM_Ok_iff)
  have "later S (f_storage fr) (f_storage fr1)" "later S (f_storage fr1) (f_storage fr')"
    using frame_fp.keepsD [OF solve_one_later [OF assms(1)] one]
      frame_fp.keepsD [OF keeps_for_each [OF solve_one_later [OF assms(1)]] rest]
    by (simp_all add: frame_later_def)
  with spent_append [OF solve_one_spent [OF assms(1) one] Cons.IH [OF rest]] show ?case by simp
qed (simp add: spent_Nil)

subsection \<open>Requests that go through\<close>

lemma start_frame_simps [simp]:
  "f_storage (start_frame st) = st" "f_calls (start_frame st) = []" "f_return (start_frame st) = None"
  by (simp_all add: start_frame_def)

lemma signed_by_Ok [simp]: "signed_by S key v sig fr = (Ok u, fr') \<longleftrightarrow> verified S key v sig \<and> fr' = fr"
  by (auto simp: signed_by_def verified_def bindM_Ok_iff)

lemma for_each_pure:
  "(\<And>x fr fr'. body x fr = (Ok (), fr') \<longleftrightarrow> P x \<and> fr' = fr) \<Longrightarrow>
   for_each body xs fr = (Ok u, fr') \<longleftrightarrow> list_all P xs \<and> fr' = fr"
  by (induction xs arbitrary: fr) (auto simp: bindM_Ok_iff)

lemma entry_solve_Ok: "entry_solve S imm args o1 o2 fr = (Ok n, fr') \<longleftrightarrow>
    n = 0 \<and> for_each (solve_one S (imm_network imm) o1 o2) args fr = (Ok (), fr')"
  by (auto simp: entry_solve_def bindM_Ok_iff)

lemma entry_solve_v1_performed:
  assumes "sdk_ok S" and "entry_solve_v1 S imm args (start_frame st) = (Ok n, fr')"
  shows "performed S imm (SolveReq args) st (f_return fr', f_calls fr') (f_storage fr')"
proof -
  let ?o = "U_addr S (ethereum_owner_get st)"
  have "list_all (\<lambda>a. verified S (ed25519_slot_get S U_ZERO st) (WireSolveArgs (sas_Args a)) (sas_Sig a)) args"
      and run: "for_each (solve_one S (imm_network imm) ?o ?o) (map sas_Args args) (start_frame st) = (Ok (), fr')"
    using assms(2) by (auto simp: entry_solve_v1_def entry_solve_Ok bindM_Ok_iff Let_def for_each_pure)
  moreover have "spent S (map (\<lambda>a. U_from S (sa_MsTs (sas_Args a))) args) st (f_storage fr')"
    using solves_spent [OF assms(1) run] by (simp add: comp_def)
  moreover have "version_get st = U_TWO \<Longrightarrow> \<exists>hs. length hs = length args \<and> f_return fr' = None \<and>
      f_calls fr' = concat (map2 (solve_calls S (imm_network imm) ?o ?o (authority_get st)) hs (map sas_Args args))"
    using solves_made [OF assms(1) _ run] by (auto simp: made_def)
  ultimately show ?thesis by (auto simp: performed_def Let_def)
qed

lemma entry_solve_v2_performed:
  assumes "sdk_ok S" and "entry_solve_v2 S imm args sig (start_frame st) = (Ok n, fr')"
  shows "performed S imm (SolveV2Req args sig) st (f_return fr', f_calls fr') (f_storage fr')"
proof -
  have ver: "verified S (ed25519_slot_get S U_ZERO st) (WireSolveV2Args args) sig"
    and run: "for_each (solve_one S (imm_network imm) (v2a_PermitOwner args) (v2a_TransferOwner args)) (v2a_Args args)
      (start_frame st) = (Ok (), fr')"
    using assms(2) by (auto simp: entry_solve_v2_def entry_solve_Ok bindM_Ok_iff)
  have "version_get st = U_TWO \<Longrightarrow> \<exists>hs. length hs = length (v2a_Args args) \<and> f_return fr' = None \<and>
      f_calls fr' = concat (map2 (solve_calls S (imm_network imm) (v2a_PermitOwner args) (v2a_TransferOwner args)
        (authority_get st)) hs (v2a_Args args))"
    using solves_made [OF assms(1) _ run] by (auto simp: made_def)
  with ver solves_spent [OF assms(1) run] show ?thesis by (auto simp: performed_def)
qed

lemma transfer_one_made:
  assumes "calls_ok S" and "transfer_one S net t fr = (Ok u, fr')"
  shows "made S (transfer_calls S net t) fr fr'"
proof -
  note call = calls_okD [OF assms(1)]
  show ?thesis
    using assms(2)
    by (auto simp: transfer_one_def transfer_calls_def bindM_Ok_iff Let_def dest!: revert_made(1) [OF call(1)] revert_made(1) [OF call(2)]
        intro: made_trans [where es = "[_]" and es' = "[_]", simplified] split: option.splits)
qed

lemma entry_transfer_only_performed:
  assumes "sdk_ok S" and "entry_transfer_only S imm args sig (start_frame st) = (Ok n, fr')"
  shows "performed S imm (TransferOnlyReq args sig) st (f_return fr', f_calls fr') (f_storage fr')"
proof -
  obtain fr1 where ver: "verified S (ed25519_slot_get S U_ZERO st) (WireTransferOnlyArgs args) sig" "toa_Args args \<noteq> []"
    and ex: "timestamps_exchange S (U_from S (toa_MsTs args)) (start_frame st) = (Ok (), fr1)"
    and run: "for_each (transfer_one S (imm_network imm)) (toa_Args args) fr1 = (Ok (), fr')"
    using assms(2) by (auto simp: entry_transfer_only_def bindM_Ok_iff)
  note moved = made_for_each [OF transfer_one_made [OF sdk_okD(3) [OF assms(1)]] run]
  have "made S (concat (map (transfer_calls S (imm_network imm)) (toa_Args args))) (start_frame st) fr'"
    using made_trans [OF exchange_made(1) [OF assms(1) ex] moved] by simp
  moreover have "spent S [U_from S (toa_MsTs args)] st (f_storage fr')"
    using spent_later(1) [OF exchange_spent [OF assms(1) ex]] moved by (simp add: made_def frame_later_def)
  ultimately show ?thesis using ver by (auto simp: performed_def made_def)
qed

lemma gas_made:
  assumes "calls_ok S" and "asset_addr S (v3a_GasToken args) (imm_network imm) = Some token"
    and "(case v3a_GasTokenPermit args of
         None \<Rightarrow> retM ()
       | Some p \<Rightarrow>
           bindM (assertM (v3a_GasToken args = permit_Asset p)
             (''gas token '' @ Asset_display S (v3a_GasToken args) @ '' different from '' @ Asset_display S (permit_Asset p))) (\<lambda>_.
           revert_if_bad S (call_unit_err_vec S token (make_fn_permit S eth_owner (contract_address S) U_MAX
             (U_from_u64 S (permit_Deadline p)) (permit_V p) (permit_R p) (permit_S p))))) fr = (Ok (), fr1)"
    and "revert_if_bad S (safe_call_bool_err_vec S token
       (make_fn_transfer_from S eth_owner (imm_clearinghouse imm) (U_from_u64 S (v3a_GasTokenAmt args)))) fr1 = (Ok (), fr2)"
  shows "made S (gas_calls S imm eth_owner args) fr fr2"
proof -
  note call = calls_okD [OF assms(1)]
  have "made S (case v3a_GasTokenPermit args of None \<Rightarrow> [] | Some p \<Rightarrow> [permit_call S (imm_network imm) eth_owner p]) fr fr1"
    using assms(2,3) by (auto simp: permit_call_def bindM_Ok_iff made_refl dest!: revert_made(1) [OF call(1)] split: option.splits)
  from made_trans [OF this revert_made(1) [OF call(2) assms(4)]] show ?thesis
    using assms(2) by (simp add: gas_calls_def)
qed

lemma entry_solve_v3_performed:
  assumes "sdk_ok S" and "entry_solve_v3 S imm args sig (start_frame st) = (Ok n, fr')"
  shows "performed S imm (SolveV3Req args sig) st (f_return fr', f_calls fr') (f_storage fr')"
proof -
  let ?o = "U_addr S (ethereum_owner_get st)"
  note call = sdk_okD(3) [OF assms(1)]
  obtain fr2 where ver: "verified S (ed25519_slot_get S U_ZERO st) (WireSolveV3Args args) sig"
    and gas: "made S (gas_calls S imm ?o args) (start_frame st) fr2"
    and run: "for_each (solve_one S (imm_network imm) ?o ?o) (v3a_Args args) fr2 = (Ok (), fr')"
    using assms(2) unfolding entry_solve_v3_def Let_def bindM_Ok_iff get_storage_Ok signed_by_Ok unwrapM_Ok entry_solve_Ok
    by (auto dest: gas_made [OF call])
  have "later S st (f_storage fr2)" using gas by (simp add: made_def frame_later_def)
  moreover from this have "version_get st = U_TWO \<Longrightarrow> \<exists>hs. length hs = length (v3a_Args args) \<and>
      made S (gas_calls S imm ?o args @
        concat (map2 (solve_calls S (imm_network imm) ?o ?o (authority_get st)) hs (v3a_Args args))) (start_frame st) fr'"
    using solves_made [OF assms(1) _ run] made_trans [OF gas] unfolding later_def by metis
  ultimately show ?thesis using ver spent_later(2) [OF solves_spent [OF assms(1) run]]
    by (auto simp: performed_def made_def Let_def)
qed

lemma entry_statement_performed:
  assumes "sdk_ok S" and "entry_statement S args sig (start_frame st) = (Ok n, fr')"
  shows "performed S imm (StatementReq args sig) st (f_return fr', f_calls fr') (f_storage fr')"
  using assms(2) exchange_made(1) [OF assms(1), of "U_from S (sta_MsTs args)" "start_frame st" "()" fr']
    exchange_spent [OF assms(1), of "U_from S (sta_MsTs args)" "start_frame st" "()" fr']
  by (auto simp: entry_statement_def performed_def bindM_Ok_iff made_def)

lemma entry_fresh_performed:
  assumes "sdk_ok S" and "entry_fresh_backwards S f (start_frame st) = (Ok n, fr')"
  shows "performed S imm (FreshBackwardsReq f) st (f_return fr', f_calls fr') (f_storage fr')"
proof -
  note call = calls_okD [OF sdk_okD(3) [OF assms(1)]]
  let ?auth = "case fb_Authority f of None \<Rightarrow> zeros 20 | Some a \<Rightarrow> a"
  obtain proxy fr1 fr2 fr3 h where sig: "make_preimage S (fb_Key f) ?auth = Some h"
      "ecrecover_post S h (fb_V f) (fb_R f) (fb_S f) = Some (fb_EoaAddr f)"
    and create: "create2_pre_unit S (make_metamorphic_evmfn_beacon_proxy S (contract_address S)) (fb_EoaAddr f) (start_frame st) =
      (Ok (Some proxy), fr1)"
    and migrate: "call_unit S proxy (SEL_MIGRATE S @ fb_Key f @ U_from S (fb_EoaAddr f) @ st (SLOT_IMPL S) @ U_from S ?auth) fr1 =
      (Ok True, fr2)"
    and solve: "(if fb_SolveArgs f = [] then retM ()
        else bindM (unwrapM (to_vec S (WireRequest (SolveReq (fb_SolveArgs f))))) (\<lambda>cd.
          revert_if_bad S (call_unit_err_vec S proxy cd))) fr2 = (Ok (), fr3)"
    and wrote: "fr' = fr3\<lparr>f_return := Some (U_from S proxy)\<rparr>"
    using assms(2) unfolding entry_fresh_backwards_def Let_def bindM_Ok_iff assertM_Ok unwrapM_Ok get_storage_Ok write_word_def
    by (auto simp: modifyM_def)
  note made2 = made_trans [OF made_call [OF call(7) create] made_call [OF call(5) migrate]]
  have "made S (if fb_SolveArgs f = [] then [] else [ExtCall proxy (the (to_vec S (WireRequest (SolveReq (fb_SolveArgs f)))))]) fr2 fr3"
    using solve by (auto simp: bindM_Ok_iff made_refl dest!: revert_made(1) [OF call(1)] split: if_splits)
  from made_trans [OF made2 this] have "made S (fresh_calls S st proxy f) (start_frame st) fr3"
    by (simp add: fresh_calls_def)
  with sig wrote show ?thesis by (auto simp: performed_def made_def spent_Nil)
qed

lemma performed_guarded:
  assumes "layout_ok S" and "performed S imm req (st(guard_slot S key := x)) out st'"
  shows "performed S imm req st out (st'(guard_slot S key := y))"
proof -
  have gets: "ethereum_owner_get (st(guard_slot S key := x)) = ethereum_owner_get st" "authority_get (st(guard_slot S key := x)) = authority_get st"
    "version_get (st(guard_slot S key := x)) = version_get st"
    "ed25519_slot_get S U_ZERO (st(guard_slot S key := x)) = ed25519_slot_get S U_ZERO st"
    "(st(guard_slot S key := x)) (SLOT_IMPL S) = st (SLOT_IMPL S)"
    using layoutD(7) [OF assms(1), of key] by (simp_all add: slots_apart(6,7) [OF assms(1)])
  have eqs: "\<And>hs proxy. calls_of S imm (st(guard_slot S key := x)) hs proxy req = calls_of S imm st hs proxy req"
    "\<And>proxy. answer_of S (st(guard_slot S key := x)) proxy req = answer_of S st proxy req"
    by (cases req; simp only: calls_of.simps answer_of.simps fresh_calls_def gets)+
  show ?thesis using assms(2) unfolding performed_def spent_def eqs by (simp add: gets slots_apart [OF assms(1)])
qed

lemma guard_performed:
  assumes "sdk_ok S" and "reentrancy_guard_const_keccak S key m (start_frame st) = (Ok n, fr')"
    and "\<And>st fr'. m (start_frame st) = (Ok n, fr') \<Longrightarrow> performed S imm req st (f_return fr', f_calls fr') (f_storage fr')"
  shows "performed S imm req st (f_return fr', f_calls fr') (f_storage fr')"
proof -
  obtain fr'' where "m (start_frame (st(guard_slot S key := U_ONE))) = (Ok n, fr'')"
      "fr' = fr''\<lparr>f_storage := (f_storage fr'')(guard_slot S key := U_ZERO)\<rparr>"
    using guard_OkD [OF assms(1,2)] by (auto simp: start_frame_def)
  with performed_guarded [OF sdk_okD(1) [OF assms(1)] assms(3)] show ?thesis by simp
qed

lemma entry_performed:
  assumes "sdk_ok S" and "entry S imm req (start_frame st) = (Ok n, fr')"
  shows "performed S imm req st (f_return fr', f_calls fr') (f_storage fr')"
proof -
  note perf = entry_solve_v1_performed [OF assms(1)] entry_solve_v2_performed [OF assms(1)] entry_transfer_only_performed [OF assms(1)]
  note words = entry_version_def entry_authority_def entry_owner_def entry_ed25519_key_def entry_assets_version_def entry_word_def
    write_word_def modifyM_def
  show ?thesis
    using assms(2) guard_performed [OF assms(1) _ perf(1)] guard_performed [OF assms(1) _ perf(2)] guard_performed [OF assms(1) _ perf(3)]
      entry_solve_v3_performed [OF assms(1)] entry_statement_performed [OF assms(1)] entry_fresh_performed [OF assms(1)]
    by (cases req) (auto simp: words performed_def [of _ _ VersionReq] performed_def [of _ _ AuthorityReq]
        performed_def [of _ _ OwnerReq] performed_def [of _ _ Ed25519KeyReq] bindM_Ok_iff spent_Nil)
qed

subsection \<open>Calls of the contract\<close>

lemma user_entrypoint_cases:
  assumes "sdk_ok S" and "user_entrypoint S net args st = (r, st')"
  obtains (empty) "args = []" "r = Ok (Some (st (SLOT_IMPL S)), [])" "st' = st"
  | (ok) n fr' where "args \<noteq> []" "dispatch S (contract_imm net) args (start_frame st) = (Ok n, fr')"
      "r = Ok (f_return fr', f_calls fr')" "st' = f_storage fr'"
  | (fail) "\<not> is_ok r" "st' = st"
proof (cases "args = []")
  case True
  then show thesis using assms(2) by (intro empty) (auto simp: user_entrypoint_def)
next
  case False
  obtain d fr' where d: "dispatch S (contract_imm net) args (start_frame st) = (d, fr')" by fastforce
  have r: "(r, st') = (case d of Ok n \<Rightarrow> (Ok (f_return fr', f_calls fr'), f_storage fr') | Err e \<Rightarrow> (Err e, st)
      | Panic e \<Rightarrow> (Panic e, st) | Exit e \<Rightarrow> (Exit e, st))"
    using assms(2) False by (simp add: user_entrypoint_def sdk_okD(5) [OF assms(1)] d)
  show thesis
  proof (cases d)
    case (Ok n)
    then show thesis using ok False d r by simp
  qed (use fail r in simp_all)
qed

lemma user_entrypoint_later:
  assumes "sdk_ok S" and "user_entrypoint S net args st = (r, st')"
  shows "later S st st'"
  using assms
proof (cases rule: user_entrypoint_cases)
  case (ok n fr')
  then show ?thesis using dispatch_later [OF assms(1) ok(2)] by (simp add: frame_later_def)
qed (simp_all add: later_refl)

lemma request_dispatch:
  assumes "request_of S args = Some req"
  shows "dispatch S imm args = entry S imm req" "args \<noteq> []"
  using assms by (auto simp: request_of_def dispatch_def split: if_splits sum.splits)

lemma user_entrypoint_performed:
  assumes "sdk_ok S" and "request_of S args = Some req" and "user_entrypoint S net args st = (Ok out, st')"
  shows "performed S (contract_imm net) req st out st'"
  using assms(1,3)
proof (cases rule: user_entrypoint_cases)
  case (ok n fr')
  then show ?thesis
    using entry_performed [OF assms(1)] request_dispatch(1) [OF assms(2), of "contract_imm net"] by simp
qed (use request_dispatch(2) [OF assms(2)] in simp_all)

lemma same_account_eqs:
  assumes "same_account S S'"
  shows "later S' = later S" "spent S' = spent S" "ed25519_slot_get S' = ed25519_slot_get S"
  using assms by (intro ext; simp add: same_account_def later_def spent_def map_get_def)+

lemma history_spent:
  assumes "\<forall>(S, net, args) \<in> set cs. sdk_ok S \<and> same_account S0 S" and "version_get st = U_TWO" and "history cs st = (acc, st')"
  shows "later S0 st st' \<and> list_all (\<lambda>(S, req). authorised S (ed25519_slot_get S0 U_ZERO st) req) acc \<and>
    spent S0 (concat (map (\<lambda>(S, req). nonces_of S req) acc)) st st'"
  using assms
proof (induction cs arbitrary: st acc)
  case (Cons c cs)
  obtain S net args where c: "c = (S, net, args)" by (cases c) auto
  obtain r st1 acc1 where one: "user_entrypoint S net args st = (r, st1)" and rest: "history cs st1 = (acc1, st')"
    using Cons.prems(3) by (auto simp: c split: prod.splits)
  have S: "sdk_ok S" "same_account S0 S" using Cons.prems(1) by (auto simp: c)
  note eqs = same_account_eqs [OF S(2)]
  have now: "later S0 st st1" using user_entrypoint_later [OF S(1) one] by (simp add: eqs)
  then have key: "version_get st1 = U_TWO" "ed25519_slot_get S0 U_ZERO st1 = ed25519_slot_get S0 U_ZERO st"
    using Cons.prems(2) by (simp_all add: later_def)
  have IH: "later S0 st1 st'" "list_all (\<lambda>(S, req). authorised S (ed25519_slot_get S0 U_ZERO st) req) acc1"
      "spent S0 (concat (map (\<lambda>(S, req). nonces_of S req) acc1)) st1 st'"
    using Cons.IH [OF _ key(1) rest] Cons.prems(1) by (simp_all add: key(2))
  show ?case
  proof (cases "acc = acc1")
    case True
    then show ?thesis using now IH spent_later(2) [OF IH(3) now] later_trans by blast
  next
    case False
    then obtain req out where req: "request_of S args = Some req" "r = Ok out" "acc = (S, req) # acc1"
      using Cons.prems(3) one rest by (cases r) (auto simp: c split: option.splits if_splits)
    have "performed S (contract_imm net) req st out st1" using user_entrypoint_performed [OF S(1) req(1)] one req(2) by simp
    then show ?thesis using now IH req(3) spent_append [OF _ IH(3) now IH(1)] later_trans
      by (auto simp: performed_def eqs)
  qed
qed (simp add: later_refl spent_Nil)

subsection \<open>Requests that have to go through\<close>

lemma quiet_okE: "quiet_ok m \<Longrightarrow> (\<And>cs. m fr = (Ok (), fr\<lparr>f_calls := f_calls fr @ cs\<rparr>) \<Longrightarrow> thesis) \<Longrightarrow> thesis"
  unfolding quiet_ok_def by blast

lemma quiet_ok_retM: "quiet_ok (retM ())"
  unfolding quiet_ok_def by (auto intro: exI [of _ "[]"])

lemma quiet_ok_bindM:
  assumes "quiet_ok m" and "quiet_ok n" shows "quiet_ok (bindM m (\<lambda>_. n))"
  unfolding quiet_ok_def
proof
  fix fr :: frame
  obtain cs where "m fr = (Ok (), fr\<lparr>f_calls := f_calls fr @ cs\<rparr>)" using assms(1) by (rule quiet_okE)
  moreover obtain ds where "n (fr\<lparr>f_calls := f_calls fr @ cs\<rparr>) = (Ok (), fr\<lparr>f_calls := f_calls fr @ cs @ ds\<rparr>)"
    using assms(2) by (rule quiet_okE [where fr = "fr\<lparr>f_calls := f_calls fr @ cs\<rparr>"]) simp
  ultimately show "\<exists>cs. bindM m (\<lambda>_. n) fr = (Ok (), fr\<lparr>f_calls := f_calls fr @ cs\<rparr>)"
    by (auto simp: bindM_def)
qed

lemma quiet_ok_for_each: "(\<And>x. x \<in> set xs \<Longrightarrow> quiet_ok (body x)) \<Longrightarrow> quiet_ok (for_each body xs)"
  by (induction xs) (simp_all add: quiet_ok_retM quiet_ok_bindM)

lemma be_value_ones: "be_value (replicate n 255) + 1 = 256 ^ n"
proof (induction n)
  case (Suc n)
  have "replicate (Suc n) (255 :: u8) = replicate n 255 @ [255]" by (simp add: replicate_append_same)
  then show ?case using Suc by simp
qed simp

lemma U_le_max: "length u = 32 \<Longrightarrow> U_le u U_MAX"
proof -
  assume "length u = 32"
  then have "be_value u < 256 ^ 32" using be_value_lt [of u] by simp
  moreover have "be_value U_MAX + 1 = 256 ^ 32" unfolding U_MAX_def by (rule be_value_ones)
  ultimately show ?thesis unfolding U_le_def by linarith
qed

lemma revert_quietI:
  assumes "sdk_ok S" and "\<And>fr. \<exists>v. m fr = (Ok (True, v), fr\<lparr>f_calls := f_calls fr @ [e]\<rparr>)"
  shows "quiet_ok (revert_if_bad S m)"
  unfolding quiet_ok_def
proof
  fix fr :: frame
  obtain v where v: "m fr = (Ok (True, v), fr\<lparr>f_calls := f_calls fr @ [e]\<rparr>)" using assms(2) by blast
  obtain u where "revert_if_bad_call_unit_vec S (True, v) = Ok u"
    using sdk_okD(6) [OF assms(1), of True v] by (auto simp: is_ok_iff)
  with v show "\<exists>cs. revert_if_bad S m fr = (Ok (), fr\<lparr>f_calls := f_calls fr @ cs\<rparr>)"
    by (auto simp: revert_if_bad_def bindM_def)
qed

lemma revert_quiet:
  assumes "sdk_ok S" and "willing S"
  shows "quiet_ok (revert_if_bad S (call_unit_err_vec S to cd))" "quiet_ok (revert_if_bad S (safe_call_bool_err_vec S to cd))"
  by (rule revert_quietI [OF assms(1)], rule willingD [OF assms(2)])+

lemma solve_parts_quiet:
  assumes "sdk_ok S" and "willing S"
  shows "asset_addr S (permit_Asset p) net \<noteq> None \<Longrightarrow> quiet_ok (solve_permit S net o1 p)"
    "asset_addr S (from_Asset f) net \<noteq> None \<Longrightarrow> quiet_ok (solve_take S net o2 target f)"
    "quiet_ok (solve_target S target cd)" "quiet_ok (solve_authority S target)"
    "asset_addr S (from_Asset f) net \<noteq> None \<Longrightarrow> length (from_MaxUnspent f) = 32 \<Longrightarrow> quiet_ok (solve_unspent S net f)"
proof -
  have unwrap: "bindM (unwrapM (Some x)) k = k x" for x :: 'a and k :: "'a \<Rightarrow> (frame, unit) gm"
    by (rule ext) (simp add: bindM_def unwrapM_def)
  show "asset_addr S (permit_Asset p) net \<noteq> None \<Longrightarrow> quiet_ok (solve_permit S net o1 p)"
    by (auto simp: solve_permit_def unwrap revert_quiet [OF assms])
  show "asset_addr S (from_Asset f) net \<noteq> None \<Longrightarrow> quiet_ok (solve_take S net o2 target f)"
    by (auto simp: solve_take_def unwrap intro!: quiet_ok_bindM revert_quiet [OF assms])
  show "quiet_ok (solve_target S target cd)"
    unfolding quiet_ok_def
  proof
    fix fr :: frame
    obtain v where "safe_call_unit_err_vec S target cd fr = (Ok (True, v), fr\<lparr>f_calls := f_calls fr @ [ExtCall target cd]\<rparr>)"
      using willingD(3) [OF assms(2)] by blast
    then show "\<exists>cs. solve_target S target cd fr = (Ok (), fr\<lparr>f_calls := f_calls fr @ cs\<rparr>)"
      by (auto simp: solve_target_def bindM_def assertM_def)
  qed
  show "quiet_ok (solve_authority S target)"
    unfolding quiet_ok_def solve_authority_def is_allowed_def
    by (auto simp: bindM_def get_storage_def assertM_def willingD(5) [OF assms(2)] intro: exI [of _ "[]"])
  show "quiet_ok (solve_unspent S net f)" if "asset_addr S (from_Asset f) net \<noteq> None" "length (from_MaxUnspent f) = 32"
  proof -
    have "revert_if_bad_call_slice_vec S (Inr U_MAX) = Ok U_MAX" using sdk_okD(7) [OF assms(1)] by blast
    then show ?thesis using that
      by (auto simp: solve_unspent_def unwrapM_def quiet_ok_def revert_if_bad_slice_def bindM_def assertM_def
          willingD(4) [OF assms(2)] U_le_max)
  qed
qed

lemma solve_one_runs:
  assumes "sdk_ok S" and "willing S" and "known_assets S net a" and "timestamps_get S (U_from S (sa_MsTs a)) (f_storage fr) = U_ZERO"
  shows "\<exists>cs. solve_one S net o1 o2 a fr = (Ok (), fr\<lparr>
    f_storage := (f_storage fr)(slot_map S (slot_no 4) (U_from S (sa_MsTs a)) := U_ONE), f_calls := f_calls fr @ cs\<rparr>)"
proof -
  have "quiet_ok (bindM (for_each (solve_permit S net o1) (sa_Permit a)) (\<lambda>_.
      bindM (for_each (solve_take S net o2 (sa_Target a)) (sa_From a)) (\<lambda>_.
      bindM (solve_authority S (sa_Target a)) (\<lambda>_.
      bindM (solve_target S (sa_Target a) (sa_Cd a)) (\<lambda>_.
      for_each (solve_unspent S net) (sa_From a))))))" (is "quiet_ok ?m")
    using assms(3) unfolding known_assets_def list_all_iff
    by (intro quiet_ok_bindM quiet_ok_for_each solve_parts_quiet [OF assms(1,2)]) blast+
  then obtain cs where "?m (fr\<lparr>f_storage := (f_storage fr)(slot_map S (slot_no 4) (U_from S (sa_MsTs a)) := U_ONE)\<rparr>) =
      (Ok (), fr\<lparr>f_storage := (f_storage fr)(slot_map S (slot_no 4) (U_from S (sa_MsTs a)) := U_ONE), f_calls := f_calls fr @ cs\<rparr>)"
    by (rule quiet_okE [where fr = "fr\<lparr>f_storage := (f_storage fr)(slot_map S (slot_no 4) (U_from S (sa_MsTs a)) := U_ONE)\<rparr>"]) simp
  then show ?thesis
    unfolding solve_one_def bindM_def [of "timestamps_exchange _ _"] exchange_eq [OF assms(1)] using assms(4) by auto
qed

lemma solves_run:
  assumes "sdk_ok S" and "willing S" and "list_all (known_assets S net) as"
    and "distinct (map (\<lambda>a. U_from S (sa_MsTs a)) as)"
    and "list_all (\<lambda>a. timestamps_get S (U_from S (sa_MsTs a)) (f_storage fr) = U_ZERO) as"
  shows "\<exists>fr'. for_each (solve_one S net o1 o2) as fr = (Ok (), fr')"
  using assms(3-)
proof (induction as arbitrary: fr)
  case (Cons a as)
  define st where "st = (f_storage fr)(slot_map S (slot_no 4) (U_from S (sa_MsTs a)) := U_ONE)"
  obtain cs where one: "solve_one S net o1 o2 a fr = (Ok (), fr\<lparr>f_storage := st, f_calls := f_calls fr @ cs\<rparr>)"
    using solve_one_runs [OF assms(1,2), of net a fr o1 o2] Cons.prems unfolding st_def by auto
  have "list_all (\<lambda>b. timestamps_get S (U_from S (sa_MsTs b)) st = U_ZERO) as"
    using Cons.prems(2,3) by (auto simp: st_def slots_apart(1) [OF sdk_okD(1) [OF assms(1)]] list_all_iff image_iff dest: sym)
  then obtain fr' where "for_each (solve_one S net o1 o2) as (fr\<lparr>f_storage := st, f_calls := f_calls fr @ cs\<rparr>) = (Ok (), fr')"
    using Cons.IH [of "fr\<lparr>f_storage := st, f_calls := f_calls fr @ cs\<rparr>"] Cons.prems by auto
  with one show ?case by (auto simp: bindM_def)
qed simp

lemma guard_OkI:
  assumes "sdk_ok S" and "f_storage fr (guard_slot S key) = U_ZERO"
    and "m (fr\<lparr>f_storage := (f_storage fr)(guard_slot S key := U_ONE)\<rparr>) = (Ok v, fr'')"
  shows "reentrancy_guard_const_keccak S key m fr = (Ok v, fr''\<lparr>f_storage := (f_storage fr'')(guard_slot S key := U_ZERO)\<rparr>)"
  using assms(2,3) sdk_okD(2) [OF assms(1)] unfolding guard_ok_def by blast

lemma user_entrypoint_OkI:
  assumes "sdk_ok S" and "request_of S args = Some req" and "entry S (contract_imm net) req (start_frame st) = (Ok n, fr')"
  shows "user_entrypoint S net args st = (Ok (f_return fr', f_calls fr'), f_storage fr')"
  using request_dispatch(1) [OF assms(2), of "contract_imm net"] request_dispatch(2) [OF assms(2)] assms(3)
  by (simp add: user_entrypoint_def sdk_okD(5) [OF assms(1)])

lemma solve_v2_runs:
  assumes "sdk_ok S" and "willing S" and "unlocked S st" and "list_all (known_assets S net) (v2a_Args args)"
    and "verified S (ed25519_slot_get S U_ZERO st) (WireSolveV2Args args) sig"
    and "distinct (nonces_of S (SolveV2Req args sig))"
    and "list_all (\<lambda>n. timestamps_get S n st = U_ZERO) (nonces_of S (SolveV2Req args sig))"
  shows "\<exists>fr'. entry S (contract_imm net) (SolveV2Req args sig) (start_frame st) = (Ok 0, fr')"
proof -
  note apart = slots_apart(5,6) [OF sdk_okD(1) [OF assms(1)]]
  define fr where "fr = (start_frame st)\<lparr>f_storage := st(guard_slot S REENTRANCY_KEY := U_ONE)\<rparr>"
  have "list_all (\<lambda>a. timestamps_get S (U_from S (sa_MsTs a)) (f_storage fr) = U_ZERO) (v2a_Args args)"
    using assms(7) by (simp add: fr_def apart list_all_iff)
  then obtain fr'' where "for_each (solve_one S net (v2a_PermitOwner args) (v2a_TransferOwner args)) (v2a_Args args) fr = (Ok (), fr'')"
    using solves_run [OF assms(1,2,4) assms(6) [unfolded nonces_of.simps]] by blast
  then have "entry_solve_v2 S (contract_imm net) args sig fr = (Ok 0, fr'')"
    using assms(5) by (auto simp: entry_solve_v2_def bindM_Ok_iff entry_solve_Ok fr_def apart contract_imm_def)
  then show ?thesis
    using guard_OkI [OF assms(1), of "start_frame st" REENTRANCY_KEY] assms(3) by (auto simp: fr_def unlocked_def)
qed

end
