(* ===== verification/AccountLife.thy ===== *)
theory AccountLife
  imports Account
begin

text \<open>
  The life of an account, over the theory \<^verbatim>\<open>Account\<close>: the text its owner signs, its creation
  and first migration, later upgrades, and what holds of every sequence of calls it gets.
\<close>

section \<open>An account and a solve\<close>

definition ref_solve :: SolveArgs where
  "ref_solve = \<lparr>sa_Permit = [], sa_From = [\<lparr>from_Asset = 0, from_ToTake = be_fixed 32 5, from_MaxUnspent = zeros 32\<rparr>],
     sa_Target = replicate 20 1, sa_Cd = [1, 2, 3, 4], sa_MsTs = replicate 16 1\<rparr>"

definition ref_v2 :: SolveV2Args where
  "ref_v2 = \<lparr>v2a_Args = [ref_solve], v2a_PermitOwner = replicate 20 6, v2a_TransferOwner = replicate 20 6\<rparr>"

definition ref_v2_data :: bytes where
  "ref_v2_data = enc_Args (solve_v2_args \<lparr>v2_Args = ref_v2, v2_Sig = replicate 64 97\<rparr>)"

definition ref_fresh :: FreshBackwards where
  "ref_fresh = \<lparr>fb_Key = replicate 32 4, fb_EoaAddr = replicate 20 6, fb_V = 28, fb_R = replicate 32 1,
     fb_S = replicate 32 2, fb_SolveArgs = [], fb_Authority = None\<rparr>"

text \<open>The storage of an account that has been set up, for the owner and the key of the instance.\<close>

definition live_storage :: storage where
  "live_storage = (\<lambda>k.
     if k = slot_no 5 then U_TWO
     else if k = slot_map ref_sdk (slot_no 2) U_ZERO then replicate 32 4
     else if k = slot_no 3 then zeros 12 @ replicate 20 6
     else if k = SLOT_IMPL ref_sdk then zeros 12 @ replicate 20 7
     else U_ZERO)"

text \<open>The arguments of a migration, as the contract reads them.\<close>

definition migrate_cd :: "sdk \<Rightarrow> word32 \<Rightarrow> word32 \<Rightarrow> word32 \<Rightarrow> word32 \<Rightarrow> bytes" where
  "migrate_cd S ed_key evm_owner impl_addr authority_addr = SEL_MIGRATE S @ ed_key @ evm_owner @ impl_addr @ authority_addr"

section \<open>Lemmas\<close>

subsection \<open>Migration\<close>

lemma user_entrypoint_migrate:
  assumes "sdk_ok S" and "length k = 32" "length w = 32" "length i = 32" "length a = 32"
  shows "user_entrypoint S net (migrate_cd S k w i a) st =
    (case entry_migrate S k w i a (start_frame st) of
        (Ok n, fr) \<Rightarrow> (Ok (f_return fr, f_calls fr), f_storage fr)
      | (Err e, fr) \<Rightarrow> (Err e, st) | (Panic e, fr) \<Rightarrow> (Panic e, st) | (Exit e, fr) \<Rightarrow> (Exit e, st))"
proof -
  have cd: "migrate_cd S k w i a \<noteq> []" "4 < length (migrate_cd S k w i a)" "take 4 (migrate_cd S k w i a) = SEL_MIGRATE S"
    "drop 4 (migrate_cd S k w i a) = k @ w @ i @ a"
    using sdk_okD(11) [OF assms(1)] assms(2-) by (auto simp: migrate_cd_def)
  then have "dispatch S (contract_imm net) (migrate_cd S k w i a) = entry_migrate S k w i a"
    by (rule_tac ext) (simp add: dispatch_def sdk_okD(8) [OF assms] bindM_def unwrapM_def)
  then show ?thesis using cd(1) by (simp add: user_entrypoint_def sdk_okD(5) [OF assms(1)])
qed

lemma first_migration:
  assumes "version_get st = U_ZERO" and "is_some k" "is_some w" "is_some i"
  shows "entry_migrate S k w i a (start_frame st) = (Ok 0, start_frame
    (version_set U_TWO ((authority_set a (ethereum_owner_set w (ed25519_count_set U_ONE (ed25519_slot_set S U_ZERO k st))))
      (SLOT_IMPL S := i))))"
proof -
  have "U_le U_ZERO U_ONE" by (simp add: U_le_def U_ZERO_def)
  then show ?thesis
    using assms by (simp add: entry_migrate_def bindM_def assertM_def get_storage_def set_storage_def modifyM_def start_frame_def)
qed

lemma later_migration:
  assumes "version_get st = U_TWO"
  shows "entry_migrate S k w i a (start_frame st) =
    (if is_some i then
       if U_addr S (ethereum_owner_get st) = msg_sender S then (Ok 0, start_frame (version_set U_TWO (st(SLOT_IMPL S := i))))
       else (Panic ''bad migrator'', start_frame st)
     else (Panic ''assertion failed'', start_frame st))"
  using assms by (simp add: entry_migrate_def bindM_def assertM_def get_storage_def set_storage_def modifyM_def start_frame_def
      words_distinct U_two_above)

lemma set_same: "version_get st = U_TWO \<Longrightarrow> layout_ok S \<Longrightarrow> version_set U_TWO (st(SLOT_IMPL S := i)) = st(SLOT_IMPL S := i)"
  using layoutD(5) [of S 5] by (intro ext) (simp add: plain_set_def plain_get_def)

subsection \<open>Creation\<close>

lemma entry_fresh_checked:
  assumes "entry_fresh_backwards S f (start_frame st) = (Ok n, fr')"
  shows "is_some (fb_Key f)" "fb_EoaAddr f \<noteq> zeros 20" "is_some (st (SLOT_IMPL S))"
  using assms by (auto simp: entry_fresh_backwards_def bindM_Ok_iff Let_def)

lemma length_preimage_txt: "length k = 32 \<Longrightarrow> length a = 20 \<Longrightarrow> length (preimage_txt k a) = PREIMAGE_TXT_SIZE"
  by (simp add: preimage_txt_def PREIMAGE_TXT_SIZE_def bytes_of_string_def)

lemma preimage_txt_inj:
  assumes "length k = 32" "length l = 32" and "preimage_txt k a = preimage_txt l b"
  shows "k = l \<and> a = b"
proof -
  have "hex_encode k @ '', authority contract: '' @ hex_encode a = hex_encode l @ '', authority contract: '' @ hex_encode b"
    using assms(3) by (simp add: preimage_txt_def bytes_of_string_inj)
  then show ?thesis using assms(1,2) by (simp add: append_eq_append_conv hex_encode_inj)
qed

lemma make_preimage_Some:
  "length k = 32 \<Longrightarrow> length a = 20 \<Longrightarrow> make_preimage S k a =
     Some (sdk_keccak256 S (0x19 # bytes_of_string (''Ethereum Signed Message:'' @ [CHR 10] @ ''153'') @ preimage_txt k a))"
  using length_preimage_txt [of k a] by (simp add: make_preimage_def Let_def)

lemma U_ZERO_append: "zeros 12 @ a = U_ZERO \<longleftrightarrow> a = zeros 20"
proof -
  have "U_ZERO = zeros 12 @ zeros 20" by (simp add: U_ZERO_def zeros_def flip: replicate_add)
  then show ?thesis by (metis same_append_eq)
qed

text \<open>
  A new account belongs to who signed for it: the owner's signature over the key and the
  authority was recovered to the owner's address, and the migration the factory calls the
  created account with, run on the empty storage of that account, installs that key, owner
  and authority and the factory's implementation, at the current version, without a call.
\<close>

lemma fresh_installs:
  assumes "sdk_ok S" and "request_of S args = Some (FreshBackwardsReq f)" and "version_get st = U_TWO"
    and "user_entrypoint S net args st = (Ok (ret, calls), st')"
    and "length (fb_Key f) = 32" and "length (fb_EoaAddr f) = 20" and "length (st (SLOT_IMPL S)) = 32"
    and "auth = (case fb_Authority f of None \<Rightarrow> zeros 20 | Some a \<Rightarrow> a)" and "length auth = 20"
    and "sdk_ok S'" and "SEL_MIGRATE S' = SEL_MIGRATE S"
  shows "(\<exists>h. make_preimage S (fb_Key f) auth = Some h \<and>
      ecrecover_post S h (fb_V f) (fb_R f) (fb_S f) = Some (fb_EoaAddr f)) \<and>
    (\<exists>proxy code cd st1. ret = Some (U_from S proxy) \<and>
      calls = [ExtCreate code (fb_EoaAddr f), ExtCall proxy cd] @
        (if fb_SolveArgs f = [] then [] else [ExtCall proxy (the (to_vec S (WireRequest (SolveReq (fb_SolveArgs f)))))]) \<and>
      user_entrypoint S' net cd (\<lambda>_. U_ZERO) = (Ok (None, []), st1) \<and>
      version_get st1 = U_TWO \<and> ed25519_slot_get S' U_ZERO st1 = fb_Key f \<and>
      ethereum_owner_get st1 = zeros 12 @ fb_EoaAddr f \<and> authority_get st1 = zeros 12 @ auth \<and>
      st1 (SLOT_IMPL S') = st (SLOT_IMPL S))"
proof -
  obtain n fr' where run: "entry_fresh_backwards S f (start_frame st) = (Ok n, fr')"
    using assms(1,4) by (cases rule: user_entrypoint_cases) (use request_dispatch [OF assms(2)] in auto)
  note some = entry_fresh_checked [OF run]
  have perf: "performed S (contract_imm net) (FreshBackwardsReq f) st (ret, calls) st'"
    by (rule user_entrypoint_performed [OF assms(1,2,4)])
  then obtain proxy where out: "ret = Some (U_from S proxy)" "calls = fresh_calls S st proxy f"
    using assms(3) by (auto simp: performed_def)
  define cd where "cd = migrate_cd S' (fb_Key f) (zeros 12 @ fb_EoaAddr f) (st (SLOT_IMPL S)) (zeros 12 @ auth)"
  define st1 where "st1 = version_set U_TWO ((authority_set (zeros 12 @ auth) (ethereum_owner_set (zeros 12 @ fb_EoaAddr f)
    (ed25519_count_set U_ONE (ed25519_slot_set S' U_ZERO (fb_Key f) (\<lambda>_. U_ZERO))))) (SLOT_IMPL S' := st (SLOT_IMPL S)))"
  have "is_some (zeros 12 @ fb_EoaAddr f)" using some(2) by (simp add: is_some_def U_ZERO_append)
  then have mig: "entry_migrate S' (fb_Key f) (zeros 12 @ fb_EoaAddr f) (st (SLOT_IMPL S)) (zeros 12 @ auth) (start_frame (\<lambda>_. U_ZERO)) =
      (Ok 0, start_frame st1)"
    using some unfolding st1_def by (intro first_migration) (simp_all add: plain_get_def)
  have "user_entrypoint S' net cd (\<lambda>_. U_ZERO) = (Ok (None, []), st1)"
    unfolding cd_def using user_entrypoint_migrate [OF assms(10)] mig assms(5,6,7,9) by simp
  moreover have "calls = [ExtCreate (make_metamorphic_evmfn_beacon_proxy S (contract_address S)) (fb_EoaAddr f), ExtCall proxy cd] @
      (if fb_SolveArgs f = [] then [] else [ExtCall proxy (the (to_vec S (WireRequest (SolveReq (fb_SolveArgs f)))))])"
    using sdk_okD(9) [OF assms(1) assms(6)] sdk_okD(9) [OF assms(1) assms(9)] assms(8,11)
    by (simp add: out(2) fresh_calls_def cd_def migrate_cd_def)
  moreover have "version_get st1 = U_TWO" "ed25519_slot_get S' U_ZERO st1 = fb_Key f"
      "ethereum_owner_get st1 = zeros 12 @ fb_EoaAddr f" "authority_get st1 = zeros 12 @ auth"
    unfolding st1_def by (simp_all add: slots_apart [OF sdk_okD(1) [OF assms(10)]])
  moreover have "st1 (SLOT_IMPL S') = st (SLOT_IMPL S)"
    unfolding st1_def plain_set_def using layoutD(5) [OF sdk_okD(1) [OF assms(10)], of 5] by simp
  moreover have "\<exists>h. make_preimage S (fb_Key f) auth = Some h \<and> ecrecover_post S h (fb_V f) (fb_R f) (fb_S f) = Some (fb_EoaAddr f)"
    using perf assms(8) by (simp add: performed_def)
  ultimately show ?thesis using out(1) by blast
qed

subsection \<open>The instance\<close>

lemma ref_decode_v2:
  assumes "bw_SolveV2Args (v2_Args s)" and "length (v2_Sig s) = 64"
  shows "request_of ref_sdk (enc_Args (solve_v2_args s)) = Some (SolveV2Req (v2_Args s) (v2_Sig s))"
proof -
  let ?b = "enc_Args (solve_v2_args s)"
  have dec: "dec_Args ?b = Some (solve_v2_args s, [])"
    using bw_solve_v2_args [OF assms] by (rule args_c.dec_enc_end)
  obtain r where b: "?b = 4 # r" by (simp add: enc_Args_def args_enum_defs)
  have "Args_deserialize ref_sdk ?b = Inr (SolveV2Req (v2_Args s) (v2_Sig s))"
    using dec by (simp add: ref_sdk_def ref_decode_def b args_enum_defs)
  moreover have "hd (take 4 ?b) \<noteq> hd (SEL_MIGRATE ref_sdk)" by (simp add: b ref_sdk_def)
  then have "take 4 ?b \<noteq> SEL_MIGRATE ref_sdk" by (rule contrapos_nn) (rule arg_cong)
  ultimately show ?thesis by (simp add: request_of_def b)
qed

lemma ref_v2_request: "request_of ref_sdk ref_v2_data = Some (SolveV2Req ref_v2 (replicate 64 97))"
  using ref_decode_v2 [of "\<lparr>v2_Args = ref_v2, v2_Sig = replicate 64 97\<rparr>"]
  by (simp add: ref_v2_data_def ref_v2_def ref_solve_def bw_SolveV2Args_def bw_SolveArgs_def wf_defs small_def)

lemma live_gets:
  "version_get live_storage = U_TWO" "ed25519_slot_get ref_sdk U_ZERO live_storage = replicate 32 4"
  "timestamps_get ref_sdk k live_storage = U_ZERO" "unlocked ref_sdk live_storage"
  "ethereum_owner_get live_storage = zeros 12 @ replicate 20 6" "live_storage (SLOT_IMPL ref_sdk) = zeros 12 @ replicate 20 7"
proof -
  note lay = layoutD [OF ref_layout_ok]
  show "version_get live_storage = U_TWO" by (simp add: plain_get_def live_storage_def)
  show "ed25519_slot_get ref_sdk U_ZERO live_storage = replicate 32 4"
    using lay(2) [of 2 5 U_ZERO] by (simp add: map_get_def live_storage_def)
  show "timestamps_get ref_sdk k live_storage = U_ZERO"
    using lay(1) [of 4 2 k U_ZERO] lay(2) [of 4 5 k] lay(2) [of 4 3 k] lay(3) [of 4 k] by (simp add: map_get_def live_storage_def)
  show "unlocked ref_sdk live_storage"
    unfolding unlocked_def
  proof
    fix key
    show "live_storage (guard_slot ref_sdk key) = U_ZERO"
      using lay(4) [of 2 U_ZERO key] lay(6) [of 5 key] lay(6) [of 3 key] lay(7) [of key] by (auto simp: live_storage_def)
  qed
  show "ethereum_owner_get live_storage = zeros 12 @ replicate 20 6"
    using lay(2) [of 2 3 U_ZERO] slot_no_inj [of 3 5] by (auto simp: plain_get_def live_storage_def)
  show "live_storage (SLOT_IMPL ref_sdk) = zeros 12 @ replicate 20 7"
    using lay(3) [of 2 U_ZERO] lay(5) [of 5] lay(5) [of 3] by (auto simp: live_storage_def)
qed

lemma ref_v2_verified: "verified ref_sdk (replicate 32 4) (WireSolveV2Args ref_v2) (replicate 64 97)"
  by (simp add: verified_def ref_sdk_def)

lemma ref_v2_known: "list_all (known_assets ref_sdk net) (v2a_Args ref_v2)"
  by (simp add: known_assets_def ref_v2_def ref_solve_def ref_sdk_def)

lemma ref_v2_runs: "\<exists>out st'. user_entrypoint ref_sdk Arbitrum ref_v2_data live_storage = (Ok out, st')"
proof -
  have "list_all (\<lambda>n. timestamps_get ref_sdk n live_storage = U_ZERO) ns" for ns
    by (simp add: live_gets list_all_iff)
  then obtain fr' where "entry ref_sdk (contract_imm Arbitrum) (SolveV2Req ref_v2 (replicate 64 97)) (start_frame live_storage) = (Ok 0, fr')"
    using solve_v2_runs [OF ref_sdk_ok ref_willing live_gets(4) ref_v2_known, of "replicate 64 97"] ref_v2_verified
    by (auto simp: live_gets ref_v2_def)
  from user_entrypoint_OkI [OF ref_sdk_ok ref_v2_request this] show ?thesis by blast
qed

lemma ref_decode_fresh:
  assumes "bw_FreshBackwards f"
  shows "request_of ref_sdk (enc_Args (fresh_args f)) = Some (FreshBackwardsReq f)"
proof -
  let ?b = "enc_Args (fresh_args f)"
  have dec: "dec_Args ?b = Some (fresh_args f, [])"
    using assms by (intro args_c.dec_enc_end) (simp add: bw_fresh_args)
  obtain r where b: "?b = 0 # r" by (simp add: enc_Args_def args_enum_defs)
  have "Args_deserialize ref_sdk ?b = Inr (FreshBackwardsReq f)"
    using dec by (simp add: ref_sdk_def ref_decode_def b args_enum_defs)
  moreover have "hd (take 4 ?b) \<noteq> hd (SEL_MIGRATE ref_sdk)" by (simp add: b ref_sdk_def)
  then have "take 4 ?b \<noteq> SEL_MIGRATE ref_sdk" by (rule contrapos_nn) (rule arg_cong)
  ultimately show ?thesis by (simp add: request_of_def b)
qed

lemma ref_fresh_request: "request_of ref_sdk (enc_Args (fresh_args ref_fresh)) = Some (FreshBackwardsReq ref_fresh)"
  by (rule ref_decode_fresh) (simp add: bw_FreshBackwards_def ref_fresh_def wf_defs small_def)

lemma ref_fresh_runs:
  "\<exists>ret calls st'. user_entrypoint ref_sdk Arbitrum (enc_Args (fresh_args ref_fresh)) live_storage = (Ok (ret, calls), st')"
proof -
  have "make_preimage ref_sdk (replicate 32 4) (zeros 20) \<noteq> None" by (simp add: make_preimage_Some)
  moreover have "replicate n x \<noteq> zeros n" if "0 < n" "x \<noteq> 0" for n and x :: u8
    using that by (simp add: zeros_def replicate_eq_replicate)
  then have "is_some (replicate 32 4)" "replicate 20 (6 :: u8) \<noteq> zeros 20" "is_some (zeros 12 @ replicate 20 7)"
    by (simp_all add: is_some_def U_ZERO_append) (simp add: U_ZERO_def)
  moreover have "ecrecover_post ref_sdk = (\<lambda>h v r s. Some (replicate 20 6))"
    "create2_pre_unit ref_sdk = (\<lambda>code salt. ref_call (\<lambda>salt code. ExtCreate code salt) (Some (replicate 20 8)) salt code)"
    "call_unit ref_sdk = ref_call ExtCall True" by (simp_all add: ref_sdk_def)
  ultimately have "\<exists>fr'. entry_fresh_backwards ref_sdk ref_fresh (start_frame live_storage) = (Ok 0, fr')"
    by (auto simp: entry_fresh_backwards_def ref_fresh_def bindM_def assertM_def unwrapM_def get_storage_def write_word_def
        modifyM_def ref_call_def live_gets)
  then show ?thesis using user_entrypoint_OkI [OF ref_sdk_ok ref_fresh_request] by fastforce
qed

section \<open>Properties\<close>



text \<open>
  C4. What a call of an account does: a request that goes through was signed by its key (or,
  for a new account, by the new owner), used up its distinct and so far unused values, and made
  exactly the calls, and returned exactly the word, that the request asks for, in their order:
  for each solve the permits, then each transfer in with its approval, the check with the
  authority where there is one, the call itself, and the balances. A call that fails leaves the
  storage as it was.
\<close>

theorem account_request_exact:
  assumes "sdk_ok S" and "request_of S args = Some req" and "user_entrypoint S net args st = (r, st')"
  shows "(\<forall>out. r = Ok out \<longrightarrow>
      authorised S (ed25519_slot_get S U_ZERO st) req \<and> spent S (nonces_of S req) st st' \<and>
      (version_get st = U_TWO \<longrightarrow> (\<exists>hs proxy. length hs = batch_size req \<and>
         out = (answer_of S st proxy req, calls_of S (contract_imm net) st hs proxy req)))) \<and>
    (\<not> is_ok r \<longrightarrow> st' = st)"
proof -
  have "\<not> is_ok r \<longrightarrow> st' = st" using assms(1,3) by (cases rule: user_entrypoint_cases) simp_all
  moreover have "performed S (contract_imm net) req st out st'" if "r = Ok out" for out
    using user_entrypoint_performed [OF assms(1,2)] assms(3) that by blast
  ultimately show ?thesis unfolding performed_def by blast
qed

theorem account_request_exact_witness:
  "\<exists>h st'. user_entrypoint ref_sdk Arbitrum ref_v2_data live_storage =
     (Ok (None, solve_calls ref_sdk Arbitrum (replicate 20 6) (replicate 20 6) U_ZERO h ref_solve), st')"
proof -
  obtain out st' where r: "user_entrypoint ref_sdk Arbitrum ref_v2_data live_storage = (Ok out, st')" using ref_v2_runs by blast
  have auth: "authority_get live_storage = U_ZERO"
    using layoutD(2) [OF ref_layout_ok, of 2 6 U_ZERO] layoutD(5) [OF ref_layout_ok, of 6] slot_no_inj [of 6 5] slot_no_inj [of 6 3]
    by (auto simp: plain_get_def live_storage_def)
  obtain hs proxy where "length hs = 1"
      "out = (None, calls_of ref_sdk (contract_imm Arbitrum) live_storage hs proxy (SolveV2Req ref_v2 (replicate 64 97)))"
    using account_request_exact [OF ref_sdk_ok ref_v2_request r] by (auto simp: live_gets ref_v2_def)
  then have "out = (None, solve_calls ref_sdk Arbitrum (replicate 20 6) (replicate 20 6) U_ZERO (hd hs) ref_solve)"
    by (cases hs) (simp_all add: ref_v2_def contract_imm_def auth)
  with r show ?thesis by blast
qed



text \<open>
  C18. Upgrades: a set-up account accepts a migration exactly from its owner and to an
  implementation that is given, and then changes nothing but the implementation, whatever
  key, owner and authority the migration names; any other migration leaves it as it was.
\<close>

theorem upgrade_only_by_owner:
  assumes "sdk_ok S" and "version_get st = U_TWO"
    and "length k = 32" "length w = 32" "length i = 32" "length a = 32"
  shows "user_entrypoint S net (migrate_cd S k w i a) st =
    (if i = U_ZERO then (Panic ''assertion failed'', st)
     else if U_addr S (ethereum_owner_get st) = msg_sender S then (Ok (None, []), st(SLOT_IMPL S := i))
     else (Panic ''bad migrator'', st))"
  using set_same [OF assms(2) sdk_okD(1) [OF assms(1)]]
  by (simp add: user_entrypoint_migrate [OF assms(1,3-)] later_migration [OF assms(2)] is_some_def)

theorem upgrade_only_by_owner_witness:
  "user_entrypoint ref_sdk Arbitrum (migrate_cd ref_sdk U_ONE U_ONE U_TWO U_ONE) live_storage =
     (Ok (None, []), live_storage(SLOT_IMPL ref_sdk := U_TWO))"
proof -
  have "U_addr ref_sdk (ethereum_owner_get live_storage) = msg_sender ref_sdk" by (simp add: live_gets ref_sdk_def)
  moreover have "length U_ONE = 32" "length U_TWO = 32" by (simp_all add: U_ONE_def U_TWO_def)
  ultimately show ?thesis
    using upgrade_only_by_owner [OF ref_sdk_ok live_gets(1), of U_ONE U_ONE U_TWO U_ONE Arbitrum] by (simp add: words_distinct)
qed

text \<open>
  The text an owner signs: for every key and authority it fills its 153 bytes exactly, so
  computing its digest never fails, and the text determines both, so a signature for one
  account is a signature for no other.
\<close>

theorem fresh_preimage:
  assumes "length k = 32" and "length a = 20"
  shows "length (preimage_txt k a) = 153 \<and>
    make_preimage S k a =
      Some (sdk_keccak256 S (0x19 # bytes_of_string (''Ethereum Signed Message:'' @ [CHR 10] @ ''153'') @ preimage_txt k a)) \<and>
    (\<forall>l b. length l = 32 \<longrightarrow> preimage_txt l b = preimage_txt k a \<longrightarrow> l = k \<and> b = a)"
  using make_preimage_Some [OF assms] length_preimage_txt [OF assms] preimage_txt_inj [OF _ assms(1)]
  by (simp add: PREIMAGE_TXT_SIZE_def)

theorem fresh_preimage_witness:
  "length (preimage_txt (replicate 32 4) (zeros 20)) = 153 \<and> preimage_txt (replicate 32 5) (zeros 20) \<noteq> preimage_txt (replicate 32 4) (zeros 20)"
proof -
  have "replicate 32 5 \<noteq> replicate 32 (4 :: u8)" by (simp add: replicate_eq_replicate)
  moreover have "length (replicate 32 (4 :: u8)) = 32" "length (zeros 20) = 20" "length (replicate 32 (5 :: u8)) = 32" by simp_all
  ultimately show ?thesis using fresh_preimage [of "replicate 32 4" "zeros 20" ref_sdk] by blast
qed

end
