(* ===== verification/Evm.thy ===== *)
theory Evm
  imports Types
begin

text \<open>
  The machine the Huff contracts of \<^verbatim>\<open>sol\<close> are written for, as far as they use it: words modulo
  \<^verbatim>\<open>2 ^ 256\<close> on a stack, a byte memory, calldata, return data, storage, and calls. Huff is an
  assembly language, so a contract is its list of instructions: a literal is a push of as many
  bytes as it needs, a label followed by \<^verbatim>\<open>jumpi\<close> is one conditional jump, and \<^verbatim>\<open>assemble\<close> gives the
  bytes. A program runs with fuel; \<^verbatim>\<open>None\<close> is a run that has used it up. Gas is modelled only
  where a contract relies on it: touching memory beyond \<^verbatim>\<open>2 ^ 64\<close> bytes runs out of it.
\<close>

section \<open>Instructions\<close>

datatype opcode =
    PUSH nat nat
  | DUP nat
  | SUB | EQ | ISZERO | SHR | SHA3 | ADDRESS | CALLER
  | CALLDATALOAD | CALLDATASIZE | CALLDATACOPY | CODECOPY | RETURNDATASIZE | RETURNDATACOPY | EXTCODEHASH
  | MSTORE | SLOAD | SSTORE | GAS | CALL | STATICCALL | RETURN | REVERT
  | JUMPI string
  | JUMPDEST string

subsection \<open>Assembly\<close>

fun op_size :: "opcode \<Rightarrow> nat" where
  "op_size (PUSH n v) = Suc n"
| "op_size (JUMPI l) = 4"
| "op_size i = 1"

fun label_offset :: "opcode list \<Rightarrow> string \<Rightarrow> nat" where
  "label_offset [] l = 0"
| "label_offset (i # is) l = (if i = JUMPDEST l then 0 else op_size i + label_offset is l)"

fun op_bytes :: "opcode list \<Rightarrow> opcode \<Rightarrow> bytes" where
  "op_bytes prog (PUSH n v) = of_nat (0x5f + n) # be_fixed n v"
| "op_bytes prog (DUP n) = [of_nat (0x7f + n)]"
| "op_bytes prog SUB = [0x03]"
| "op_bytes prog EQ = [0x14]"
| "op_bytes prog ISZERO = [0x15]"
| "op_bytes prog SHR = [0x1c]"
| "op_bytes prog SHA3 = [0x20]"
| "op_bytes prog ADDRESS = [0x30]"
| "op_bytes prog CALLER = [0x33]"
| "op_bytes prog CALLDATALOAD = [0x35]"
| "op_bytes prog CALLDATASIZE = [0x36]"
| "op_bytes prog CALLDATACOPY = [0x37]"
| "op_bytes prog CODECOPY = [0x39]"
| "op_bytes prog RETURNDATASIZE = [0x3d]"
| "op_bytes prog RETURNDATACOPY = [0x3e]"
| "op_bytes prog EXTCODEHASH = [0x3f]"
| "op_bytes prog MSTORE = [0x52]"
| "op_bytes prog SLOAD = [0x54]"
| "op_bytes prog SSTORE = [0x55]"
| "op_bytes prog GAS = [0x5a]"
| "op_bytes prog CALL = [0xf1]"
| "op_bytes prog STATICCALL = [0xfa]"
| "op_bytes prog RETURN = [0xf3]"
| "op_bytes prog REVERT = [0xfd]"
| "op_bytes prog (JUMPI l) = [0x61] @ be_fixed 2 (label_offset prog l) @ [0x57]"
| "op_bytes prog (JUMPDEST l) = [0x5b]"

definition assemble :: "opcode list \<Rightarrow> bytes" where
  "assemble prog = concat (map (op_bytes prog) prog)"

section \<open>The machine\<close>

datatype evm_result = EvmReturn bytes | EvmRevert bytes | EvmOutOfGas | EvmInvalid

type_synonym evm_storage = "nat \<Rightarrow> nat"

text \<open>
  Where a call runs: its sender, its own address, its calldata, the bytes of its code, the hashes of other contracts'
  code, the hash function, and what other contracts do when called; a call that is not static
  may come back and change the storage.
\<close>

record evm_env =
  env_caller :: nat
  env_address :: nat
  env_calldata :: bytes
  env_code :: bytes
  env_codehash :: "nat \<Rightarrow> nat"
  env_sha3 :: "bytes \<Rightarrow> nat"
  env_call :: "nat \<Rightarrow> nat \<Rightarrow> bytes \<Rightarrow> evm_storage \<Rightarrow> bool \<times> bytes \<times> evm_storage"
  env_static :: "nat \<Rightarrow> bytes \<Rightarrow> bool \<times> bytes"

record vm =
  vm_code :: "opcode list"
  vm_stack :: "nat list"
  vm_mem :: bytes
  vm_ret :: bytes
  vm_stor :: evm_storage
  vm_calls :: "(nat \<times> nat \<times> bytes) list"

definition word_size :: nat where
  "word_size = 2 ^ 256"

definition wsub :: "nat \<Rightarrow> nat \<Rightarrow> nat" where
  "wsub a b = (a + (word_size - b)) mod word_size"

definition addr_of :: "nat \<Rightarrow> nat" where
  "addr_of w = w mod 2 ^ 160"

text \<open>A slice of bytes that are followed by zeros for ever, and writing one.\<close>

definition slice :: "nat \<Rightarrow> nat \<Rightarrow> bytes \<Rightarrow> bytes" where
  "slice off n bs = take n (drop off bs @ zeros n)"

definition splice :: "nat \<Rightarrow> bytes \<Rightarrow> bytes \<Rightarrow> bytes" where
  "splice off new mem = take off (mem @ zeros off) @ new @ drop (off + length new) mem"

definition mem_ok :: "nat \<Rightarrow> nat \<Rightarrow> bool" where
  "mem_ok off n \<longleftrightarrow> n = 0 \<or> off + n < 2 ^ 64"

definition jump_to :: "opcode list \<Rightarrow> string \<Rightarrow> opcode list" where
  "jump_to prog l = dropWhile (\<lambda>i. i \<noteq> JUMPDEST l) prog"

text \<open>One instruction: the state after it, or how the run ends.\<close>

definition push_next :: "nat \<Rightarrow> nat list \<Rightarrow> vm \<Rightarrow> evm_result + vm" where
  "push_next v st s = Inr (s\<lparr>vm_code := tl (vm_code s), vm_stack := v # st\<rparr>)"

definition go_next :: "nat list \<Rightarrow> vm \<Rightarrow> evm_result + vm" where
  "go_next st s = Inr (s\<lparr>vm_code := tl (vm_code s), vm_stack := st\<rparr>)"

definition copy_next :: "nat \<Rightarrow> nat \<Rightarrow> bytes \<Rightarrow> nat list \<Rightarrow> vm \<Rightarrow> evm_result + vm" where
  "copy_next dest n bs st s =
     (if mem_ok dest n then Inr (s\<lparr>vm_code := tl (vm_code s), vm_stack := st, vm_mem := splice dest bs (vm_mem s)\<rparr>)
      else Inl EvmOutOfGas)"

text \<open>Taking words off the stack, which has to have them.\<close>

definition pop1 :: "nat list \<Rightarrow> (nat \<Rightarrow> nat list \<Rightarrow> evm_result + vm) \<Rightarrow> evm_result + vm" where
  "pop1 st k = (case st of a # r \<Rightarrow> k a r | _ \<Rightarrow> Inl EvmInvalid)"

definition pop2 :: "nat list \<Rightarrow> (nat \<Rightarrow> nat \<Rightarrow> nat list \<Rightarrow> evm_result + vm) \<Rightarrow> evm_result + vm" where
  "pop2 st k = (case st of a # b # r \<Rightarrow> k a b r | _ \<Rightarrow> Inl EvmInvalid)"

definition pop3 :: "nat list \<Rightarrow> (nat \<Rightarrow> nat \<Rightarrow> nat \<Rightarrow> nat list \<Rightarrow> evm_result + vm) \<Rightarrow> evm_result + vm" where
  "pop3 st k = (case st of a # b # c # r \<Rightarrow> k a b c r | _ \<Rightarrow> Inl EvmInvalid)"

definition pop6 :: "nat list \<Rightarrow> (nat \<Rightarrow> nat \<Rightarrow> nat \<Rightarrow> nat \<Rightarrow> nat \<Rightarrow> nat \<Rightarrow> nat list \<Rightarrow> evm_result + vm) \<Rightarrow> evm_result + vm" where
  "pop6 st k = (case st of a # b # c # d # e # f # r \<Rightarrow> k a b c d e f r | _ \<Rightarrow> Inl EvmInvalid)"

definition pop7 :: "nat list \<Rightarrow> (nat \<Rightarrow> nat \<Rightarrow> nat \<Rightarrow> nat \<Rightarrow> nat \<Rightarrow> nat \<Rightarrow> nat \<Rightarrow> nat list \<Rightarrow> evm_result + vm) \<Rightarrow> evm_result + vm" where
  "pop7 st k = (case st of a # b # c # d # e # f # g # r \<Rightarrow> k a b c d e f g r | _ \<Rightarrow> Inl EvmInvalid)"

fun exec_op :: "opcode list \<Rightarrow> evm_env \<Rightarrow> opcode \<Rightarrow> nat list \<Rightarrow> vm \<Rightarrow> evm_result + vm" where
  "exec_op prog E (PUSH n v) st s = push_next v st s"
| "exec_op prog E (DUP n) st s = (if n \<le> length st \<and> 0 < n then push_next (st ! (n - 1)) st s else Inl EvmInvalid)"
| "exec_op prog E SUB st s = pop2 st (\<lambda>a b st. push_next (wsub a b) st s)"
| "exec_op prog E EQ st s = pop2 st (\<lambda>a b st. push_next (if a = b then 1 else 0) st s)"
| "exec_op prog E ISZERO st s = pop1 st (\<lambda>a st. push_next (if a = 0 then 1 else 0) st s)"
| "exec_op prog E SHR st s = pop2 st (\<lambda>n w st. push_next (w div 2 ^ n) st s)"
| "exec_op prog E SHA3 st s = pop2 st (\<lambda>off n st.
     (if mem_ok off n then push_next (env_sha3 E (slice off n (vm_mem s))) st s else Inl EvmOutOfGas))"
| "exec_op prog E ADDRESS st s = push_next (env_address E) st s"
| "exec_op prog E CALLER st s = push_next (env_caller E) st s"
| "exec_op prog E CALLDATALOAD st s = pop1 st (\<lambda>i st. push_next (be_value (slice i 32 (env_calldata E))) st s)"
| "exec_op prog E CALLDATASIZE st s = push_next (length (env_calldata E)) st s"
| "exec_op prog E CALLDATACOPY st s = pop3 st (\<lambda>dest off n st.
     copy_next dest n (slice off n (env_calldata E)) st s)"
| "exec_op prog E CODECOPY st s = pop3 st (\<lambda>dest off n st.
     copy_next dest n (slice off n (env_code E)) st s)"
| "exec_op prog E RETURNDATASIZE st s = push_next (length (vm_ret s)) st s"
| "exec_op prog E RETURNDATACOPY st s = pop3 st (\<lambda>dest off n st.
     (if off + n \<le> length (vm_ret s) then copy_next dest n (slice off n (vm_ret s)) st s else Inl EvmInvalid))"
| "exec_op prog E EXTCODEHASH st s = pop1 st (\<lambda>a st. push_next (env_codehash E (addr_of a)) st s)"
| "exec_op prog E MSTORE st s = pop2 st (\<lambda>off v st.
     copy_next off 32 (be_fixed 32 v) st s)"
| "exec_op prog E SLOAD st s = pop1 st (\<lambda>k st. push_next (vm_stor s k) st s)"
| "exec_op prog E SSTORE st s = pop2 st (\<lambda>k v st.
     Inr (s\<lparr>vm_code := tl (vm_code s), vm_stack := st, vm_stor := (vm_stor s)(k := v)\<rparr>))"
| "exec_op prog E GAS st s = push_next 0 st s"
| "exec_op prog E CALL st s = pop7 st (\<lambda>gas a v off n roff rn st.
     (if mem_ok off n then
        case env_call E (addr_of a) v (slice off n (vm_mem s)) (vm_stor s) of (ok, rd, stor) \<Rightarrow>
          Inr (s\<lparr>vm_code := tl (vm_code s), vm_stack := (if ok then 1 else 0) # st, vm_ret := rd, vm_stor := stor,
            vm_mem := splice roff (take rn rd) (vm_mem s), vm_calls := vm_calls s @ [(addr_of a, v, slice off n (vm_mem s))]\<rparr>)
      else Inl EvmOutOfGas))"
| "exec_op prog E STATICCALL st s = pop6 st (\<lambda>gas a off n roff rn st.
     (if mem_ok off n then
        case env_static E (addr_of a) (slice off n (vm_mem s)) of (ok, rd) \<Rightarrow>
          Inr (s\<lparr>vm_code := tl (vm_code s), vm_stack := (if ok then 1 else 0) # st, vm_ret := rd,
            vm_mem := splice roff (take rn rd) (vm_mem s)\<rparr>)
      else Inl EvmOutOfGas))"
| "exec_op prog E RETURN st s = pop2 st (\<lambda>off n st.
     Inl (if mem_ok off n then EvmReturn (slice off n (vm_mem s)) else EvmOutOfGas))"
| "exec_op prog E REVERT st s = pop2 st (\<lambda>off n st.
     Inl (if mem_ok off n then EvmRevert (slice off n (vm_mem s)) else EvmOutOfGas))"
| "exec_op prog E (JUMPI l) st s = pop1 st (\<lambda>c st.
     Inr (s\<lparr>vm_code := (if c \<noteq> 0 then jump_to prog l else tl (vm_code s)), vm_stack := st\<rparr>))"
| "exec_op prog E (JUMPDEST l) st s = go_next st s"

text \<open>A run: a program that runs off its end stops without data.\<close>

fun run_vm :: "nat \<Rightarrow> opcode list \<Rightarrow> evm_env \<Rightarrow> vm \<Rightarrow> (evm_result \<times> vm) option" where
  "run_vm 0 prog E s = None"
| "run_vm (Suc n) prog E s =
     (case vm_code s of
        [] \<Rightarrow> Some (EvmReturn [], s)
      | i # is \<Rightarrow> (case exec_op prog E i (vm_stack s) s of
            Inl r \<Rightarrow> Some (r, s)
          | Inr s' \<Rightarrow> run_vm n prog E s'))"

text \<open>A call of a contract: how it ends, the storage (as it was when it fails) and the calls it made.\<close>

definition start_vm :: "opcode list \<Rightarrow> evm_storage \<Rightarrow> vm" where
  "start_vm prog stor = \<lparr>vm_code = prog, vm_stack = [], vm_mem = [], vm_ret = [], vm_stor = stor, vm_calls = []\<rparr>"

definition evm_call :: "nat \<Rightarrow> opcode list \<Rightarrow> evm_env \<Rightarrow> evm_storage \<Rightarrow> (evm_result \<times> evm_storage \<times> (nat \<times> nat \<times> bytes) list) option" where
  "evm_call fuel prog E stor = map_option (\<lambda>(r, s).
     case r of EvmReturn d \<Rightarrow> (r, vm_stor s, vm_calls s) | _ \<Rightarrow> (r, stor, [])) (run_vm fuel prog E (start_vm prog stor))"

section \<open>Lemmas\<close>

lemmas next_defs = push_next_def go_next_def copy_next_def

lemma pop_simps [simp]:
  "pop1 (a # st) f1 = f1 a st" "pop2 (a # b # st) f2 = f2 a b st" "pop3 (a # b # c # st) f3 = f3 a b c st"
  "pop6 (a # b # c # d # e # f # st) f6 = f6 a b c d e f st"
  "pop7 (a # b # c # d # e # f # g # st) f7 = f7 a b c d e f g st"
  by (simp_all add: pop1_def pop2_def pop3_def pop6_def pop7_def)

lemma run_vm_more: "run_vm n prog E s = Some r \<Longrightarrow> n \<le> m \<Longrightarrow> run_vm m prog E s = Some r"
proof (induction n arbitrary: m s)
  case (Suc n)
  then show ?case by (cases m) (auto split: list.splits sum.splits)
qed simp

lemma run_step:
  assumes "vm_code s = i # is" and "exec_op prog E i (vm_stack s) s = Inr s'" and "0 < n"
  shows "run_vm n prog E s = run_vm (n - 1) prog E s'"
  using assms by (cases n) simp_all

lemma run_end:
  assumes "vm_code s = i # is" and "exec_op prog E i (vm_stack s) s = Inl r" and "0 < n"
  shows "run_vm n prog E s = Some (r, s)"
  using assms by (cases n) simp_all

lemma wsub_less [simp]: "b \<le> a \<Longrightarrow> a < 2 ^ 64 \<Longrightarrow> wsub a b = a - b"
proof -
  assume "b \<le> a" "a < 2 ^ 64"
  moreover from this have "a < word_size" by (simp add: word_size_def)
  ultimately have "a + (word_size - b) = word_size + (a - b)" "a - b < word_size" by simp_all
  then show ?thesis by (simp add: wsub_def)
qed

lemma wsub_wraps: "a < b \<Longrightarrow> b < 2 ^ 64 \<Longrightarrow> 2 ^ 64 \<le> wsub a b"
proof -
  assume "a < b" "b < 2 ^ 64"
  then have "a + (word_size - b) = word_size - (b - a)" "b - a < 2 ^ 64" "0 < b - a" by (simp_all add: word_size_def)
  then show ?thesis by (simp add: wsub_def word_size_def)
qed

lemma length_slice [simp]: "length (slice off n bs) = n"
  by (simp add: slice_def)

lemma slice_within: "off + n \<le> length bs \<Longrightarrow> slice off n bs = take n (drop off bs)"
  by (simp add: slice_def)

lemma slice_all [simp]: "slice 0 (length bs) bs = bs"
  by (simp add: slice_def)

lemma slice_none [simp]: "slice off 0 bs = []"
  by (simp add: slice_def)

lemma slice_prefix [simp]: "slice 0 (length bs) (bs @ r) = bs"
  by (simp add: slice_def)

lemma evm_callI:
  assumes "run_vm fuel prog E (start_vm prog stor) = Some (fst R, s')"
    and "\<And>d. fst R = EvmReturn d \<Longrightarrow> (vm_stor s', vm_calls s') = snd R" and "(\<forall>d. fst R \<noteq> EvmReturn d) \<Longrightarrow> snd R = (stor, [])"
  shows "evm_call fuel prog E stor = Some R"
  using assms by (cases R) (auto simp: evm_call_def split: evm_result.splits)

lemma slice_splice [simp]: "slice 0 (length new) (splice 0 new mem) = new"
  by (simp add: splice_def slice_def)

lemma splice_front: "splice 0 new mem = new @ drop (length new) mem"
  by (simp add: splice_def)

end
