(* ===== verification/Huff.thy ===== *)
theory Huff
  imports Evm
begin

text \<open>
  The Huff contracts, instruction by instruction: the safety router (\<^verbatim>\<open>sol/SafetyRouter.huff\<close>) and the
  light account (\<^verbatim>\<open>sol/LiteAccount.huff\<close>), with the factory that carries the bytes of the latter
  (\<^verbatim>\<open>sol/LiteFactory.sol\<close>). The lemmas run them on the machine of the theory \<^verbatim>\<open>Evm\<close>.
\<close>

section \<open>The safety router\<close>

definition ROUTER_CODEHASH :: nat where
  "ROUTER_CODEHASH = 0xc93405af7d5432a1465160ee7d0201b7f335f44af433e3ed36615e6d956022bc"

definition SafetyRouter_MAIN :: "opcode list" where
  "SafetyRouter_MAIN =
     [PUSH 0 0, CALLDATALOAD,
      DUP 1, EXTCODEHASH, PUSH 32 ROUTER_CODEHASH,
      EQ, ISZERO, JUMPI ''FAIL'',
      PUSH 1 0x20, CALLDATASIZE, SUB, PUSH 1 0x20, PUSH 0 0, CALLDATACOPY,
      PUSH 0 0, PUSH 0 0, PUSH 1 0x20, CALLDATASIZE, SUB, PUSH 0 0, PUSH 0 0, DUP 6, GAS, CALL,
      RETURNDATASIZE, PUSH 0 0, PUSH 0 0, RETURNDATACOPY,
      RETURNDATASIZE, PUSH 0 0, DUP 3, JUMPI ''SUCCESS'', REVERT,
      JUMPDEST ''SUCCESS'',
      RETURN,
      JUMPDEST ''FAIL'',
      PUSH 4 0x27e63c44, PUSH 0 0, MSTORE, PUSH 1 0x04, PUSH 1 0x1c, REVERT]"

section \<open>The light account\<close>

definition STORAGE_ENABLED :: nat where "STORAGE_ENABLED = 0"
definition STORAGE_NONCE :: nat where "STORAGE_NONCE = 1"
definition ADDR_SHA512 :: nat where "ADDR_SHA512 = 0x2f6bc5ac6b08bf93bc6fc9be156449b676bf8bb2"
definition ADDR_EDVERIFY :: nat where "ADDR_EDVERIFY = 0xc3e443be2cfa4f41a5f5e4978d012847d355b419"

definition EDVERIFY :: "opcode list" where
  "EDVERIFY = [PUSH 0 0, PUSH 0 0, PUSH 1 0xa0, PUSH 0 0, PUSH 20 ADDR_EDVERIFY, GAS, STATICCALL]"

text \<open>The last part, from a verified request on.\<close>

definition lite_tail :: "opcode list" where
  "lite_tail = [DUP 4, DUP 6, PUSH 0 0, CALLDATACOPY,
     PUSH 0 0, PUSH 0 0, DUP 6, PUSH 0 0, PUSH 0 0, PUSH 1 0x50, CALLDATALOAD, DUP 12, SHR, GAS, CALL,
     RETURNDATASIZE, PUSH 0 0, PUSH 0 0, RETURNDATACOPY,
     RETURNDATASIZE, PUSH 0 0, DUP 3, JUMPI ''SUCCESS'', REVERT,
     JUMPDEST ''SUCCESS'',
     RETURN]"

text \<open>The two words that stand for the owner and the operator in the source are arguments here.\<close>

definition LiteAccount_MAIN :: "nat \<Rightarrow> nat \<Rightarrow> opcode list" where
  "LiteAccount_MAIN own operator =
     [PUSH 20 own, CALLER, EQ, JUMPI ''PRIVILEGED'',
      PUSH 0 STORAGE_ENABLED, SLOAD, JUMPI ''FALLBACK'',
      JUMPDEST ''INTERNAL_ERR'',
      PUSH 4 0xfe835e35,
      JUMPDEST ''REVERT'',
      PUSH 0 0, MSTORE, PUSH 1 0x04, PUSH 1 0x1c, REVERT,
      JUMPDEST ''PRIVILEGED'',
      PUSH 0 0, CALLDATALOAD, PUSH 0 STORAGE_ENABLED, SSTORE,
      PUSH 0 0, PUSH 0 0, RETURN,
      JUMPDEST ''FALLBACK'',
      PUSH 1 0x40, PUSH 1 0x60, PUSH 1 0x64, DUP 1, CALLDATASIZE, SUB,
      DUP 4, CALLDATASIZE, SUB, DUP 5, PUSH 1 0x20, CALLDATACOPY,
      PUSH 1 0x01, PUSH 1 STORAGE_NONCE, PUSH 0 0, MSTORE, PUSH 1 0x11, PUSH 1 0x1f, SHA3, DUP 1, SLOAD, JUMPI ''INTERNAL_ERR'',
      SSTORE,
      ADDRESS, PUSH 0 0, MSTORE,
      PUSH 0 0, PUSH 0 0, PUSH 1 0x2c, CALLDATASIZE, SUB, PUSH 1 0x0c, PUSH 20 ADDR_SHA512, GAS, STATICCALL,
      RETURNDATASIZE, PUSH 0 0, PUSH 0 0, RETURNDATACOPY,
      PUSH 32 operator, DUP 6, MSTORE,
      DUP 5, PUSH 0 0, DUP 6, CALLDATACOPY] @
     EDVERIFY @
     [PUSH 4 0xcba605a3, DUP 2, ISZERO, JUMPI ''REVERT''] @
     lite_tail"

definition LiteAccount_CONSTRUCTOR :: "opcode list" where
  "LiteAccount_CONSTRUCTOR = [PUSH 1 0x01, PUSH 0 STORAGE_ENABLED, SSTORE]"

text \<open>What Huff puts behind the constructor: copy the rest of the code and return it.\<close>

definition deploy_stub :: "nat \<Rightarrow> nat \<Rightarrow> opcode list" where
  "deploy_stub n off = [PUSH 1 n, DUP 1, PUSH 1 off, RETURNDATASIZE, CODECOPY, RETURNDATASIZE, RETURN]"

section \<open>The factory of light accounts\<close>

text \<open>The creation code \<^verbatim>\<open>create\<close> packs around the owner and the operator.\<close>

definition lite_hex1 :: string where
  "lite_hex1 = ''60015f5560ec80600d3d393df373''"

definition lite_hex2 :: string where
  "lite_hex2 = ''331461002f575f54610037575b63fe835e355b5f526004601cfd5b5f355f555f5ff35b60406060606480360383360384602037600160015f526011601f2080546100215755305f525f5f602c3603600c732f6bc5ac6b08bf93bc6fc9be156449b676bf8bb25afa3d5f5f3e7f''"

definition lite_hex3 :: string where
  "lite_hex3 = ''8552845f85375f5f60a05f73c3e443be2cfa4f41a5f5e4978d012847d355b4195afa63cba605a381156100275783855f375f5f855f5f6050358b1c5af13d5f5f3e3d5f826100ea57fd5bf3''"

definition from_hex :: "string \<Rightarrow> bytes" where
  "from_hex s = (case hex_decode_string s of Ok b \<Rightarrow> b | _ \<Rightarrow> [])"

definition create_code :: "Address \<Rightarrow> bytes \<Rightarrow> bytes" where
  "create_code own operator = from_hex lite_hex1 @ own @ from_hex lite_hex2 @ operator @ from_hex lite_hex3"

section \<open>Specification\<close>

text \<open>Calldata and return data have a length that fits a machine word, as gas makes sure.\<close>

definition env_ok :: "evm_env \<Rightarrow> bool" where
  "env_ok E \<longleftrightarrow> length (env_calldata E) < 2 ^ 64 \<and> env_address E < 2 ^ 160 \<and>
     (\<forall>a v d stor. length (fst (snd (env_call E a v d stor))) < 2 ^ 64) \<and>
     (\<forall>d. length (snd (env_static E ADDR_SHA512 d)) = 64)"

definition finish_call :: "bool \<times> bytes \<times> evm_storage \<Rightarrow> evm_storage \<Rightarrow> nat \<times> nat \<times> bytes \<Rightarrow> evm_result \<times> evm_storage \<times> (nat \<times> nat \<times> bytes) list" where
  "finish_call res stor c = (case res of (ok, rd, stor') \<Rightarrow> if ok then (EvmReturn rd, stor', [c]) else (EvmRevert rd, stor, []))"

definition router_spec :: "evm_env \<Rightarrow> evm_storage \<Rightarrow> evm_result \<times> evm_storage \<times> (nat \<times> nat \<times> bytes) list" where
  "router_spec E stor =
     (let cd = env_calldata E; a = addr_of (be_value (slice 0 32 cd)) in
      if env_codehash E a \<noteq> ROUTER_CODEHASH then (EvmRevert [0x27, 0xe6, 0x3c, 0x44], stor, [])
      else if length cd < 32 then (EvmOutOfGas, stor, [])
      else finish_call (env_call E a 0 (drop 32 cd) stor) stor (a, 0, drop 32 cd))"

text \<open>
  What a light account does. The owner sets whether it is enabled. Anyone else has to bring a
  nonce of 16 bytes that has not been used and the operator's signature over the digest of the
  account's address, the nonce, the target and the data; then the nonce is used up and the
  target called with the data.
\<close>

definition internal_error :: bytes where "internal_error = [0xfe, 0x83, 0x5e, 0x35]"
definition unverified_error :: bytes where "unverified_error = [0xcb, 0xa6, 0x05, 0xa3]"

definition lite_slot :: "evm_env \<Rightarrow> nat" where
  "lite_slot E = env_sha3 E (1 # slice 64 16 (env_calldata E))"

definition lite_signed :: "nat \<Rightarrow> evm_env \<Rightarrow> bool" where
  "lite_signed operator E = fst (env_static E ADDR_EDVERIFY
     (snd (env_static E ADDR_SHA512 (be_fixed 20 (env_address E) @ drop 64 (env_calldata E))) @
      be_fixed 32 operator @ take 64 (env_calldata E)))"

definition lite_spec :: "nat \<Rightarrow> nat \<Rightarrow> evm_env \<Rightarrow> evm_storage \<Rightarrow> evm_result \<times> evm_storage \<times> (nat \<times> nat \<times> bytes) list" where
  "lite_spec own operator E stor =
     (let cd = env_calldata E in
      if env_caller E = own then (EvmReturn [], stor(STORAGE_ENABLED := be_value (slice 0 32 cd)), [])
      else if stor STORAGE_ENABLED = 0 then (EvmRevert internal_error, stor, [])
      else if length cd < 64 then (EvmOutOfGas, stor, [])
      else if stor (lite_slot E) \<noteq> 0 then (EvmRevert internal_error, stor, [])
      else if \<not> lite_signed operator E then (EvmRevert unverified_error, stor, [])
      else if length cd < 100 then (EvmOutOfGas, stor, [])
      else let target = be_value (take 20 (drop 80 cd)) in
        finish_call (env_call E target 0 (drop 100 cd) (stor(lite_slot E := 1))) stor (target, 0, drop 100 cd))"

text \<open>A machine on which every call succeeds without data.\<close>

definition ref_machine :: "bytes \<Rightarrow> evm_env" where
  "ref_machine cd = \<lparr>env_caller = 0, env_address = 1, env_calldata = cd, env_code = [], env_codehash = (\<lambda>_. ROUTER_CODEHASH),
     env_sha3 = (\<lambda>d. 2 + be_value d), env_call = (\<lambda>a v d stor. (True, [], stor)), env_static = (\<lambda>a d. (True, zeros 64))\<rparr>"

section \<open>Lemmas\<close>

lemma run_vm_numeral:
  "vm_code s = i # is \<Longrightarrow> run_vm (numeral k) prog E s =
     (case exec_op prog E i (vm_stack s) s of Inl r \<Rightarrow> Some (r, s) | Inr s' \<Rightarrow> run_vm (pred_numeral k) prog E s')"
  by (simp add: numeral_eq_Suc)

lemma be_fixed_numeral: "be_fixed (numeral k) n = be_fixed (pred_numeral k) (n div 256) @ [of_nat (n mod 256)]"
  unfolding numeral_eq_Suc [of k] by (rule be_fixed.simps)

lemmas vm_simps = run_vm_numeral next_defs mem_ok_def

lemma ref_machine_ok: "length cd < 2 ^ 64 \<Longrightarrow> env_ok (ref_machine cd)"
  by (simp add: env_ok_def ref_machine_def)

subsection \<open>The router\<close>

lemma router_jumps:
  "jump_to SafetyRouter_MAIN ''FAIL'' =
     [JUMPDEST ''FAIL'', PUSH 4 0x27e63c44, PUSH 0 0, MSTORE, PUSH 1 0x04, PUSH 1 0x1c, REVERT]"
  "jump_to SafetyRouter_MAIN ''SUCCESS'' =
     [JUMPDEST ''SUCCESS'', RETURN, JUMPDEST ''FAIL'', PUSH 4 0x27e63c44, PUSH 0 0, MSTORE, PUSH 1 0x04, PUSH 1 0x1c, REVERT]"
  by (simp_all add: jump_to_def SafetyRouter_MAIN_def)

lemma router_runs:
  assumes "env_ok E"
  shows "evm_call 50 SafetyRouter_MAIN E stor = Some (router_spec E stor)"
proof -
  define a where "a = addr_of (be_value (slice 0 32 (env_calldata E)))"
  define P where "P = SafetyRouter_MAIN"
  define s where "s = start_vm P stor"
  have s: "vm_code s = SafetyRouter_MAIN" "vm_stack s = []" "vm_mem s = []" "vm_stor s = stor" "vm_calls s = []"
    by (simp_all add: s_def P_def start_vm_def)
  note code = s(1) [unfolded SafetyRouter_MAIN_def] and jumps = router_jumps [folded P_def]
  have err: "slice 28 4 (be_fixed 32 0x27e63c44) = [0x27, 0xe6, 0x3c, 0x44]" by (simp add: be_fixed_numeral slice_def)
  have len: "length (env_calldata E) < 2 ^ 64" using assms by (simp add: env_ok_def)
  consider (bad) "env_codehash E a \<noteq> ROUTER_CODEHASH"
    | (short) "env_codehash E a = ROUTER_CODEHASH" "length (env_calldata E) < 32"
    | (fwd) "env_codehash E a = ROUTER_CODEHASH" "32 \<le> length (env_calldata E)" by linarith
  then have "\<exists>s'. run_vm 50 P E s = Some (fst (router_spec E stor), s') \<and>
      (\<forall>d. fst (router_spec E stor) = EvmReturn d \<longrightarrow> (vm_stor s', vm_calls s') = snd (router_spec E stor))"
  proof cases
    case bad
    then show ?thesis
      by (simp add: router_spec_def Let_def a_def [symmetric] code s(2-) vm_simps jumps err splice_front)
  next
    case short
    have "2 ^ 64 \<le> wsub (length (env_calldata E)) 32" using short(2) by (rule wsub_wraps) simp
    with short show ?thesis
      by (simp add: router_spec_def Let_def a_def [symmetric] code s(2-) vm_simps jumps)
  next
    case fwd
    obtain ok rd stor' where r: "env_call E a 0 (drop 32 (env_calldata E)) stor = (ok, rd, stor')" by (metis prod_cases3)
    have "length rd < 2 ^ 64" using assms r unfolding env_ok_def by (metis fst_conv snd_conv)
    moreover have "slice 32 (length (env_calldata E) - 32) (env_calldata E) = drop 32 (env_calldata E)"
      using fwd(2) by (simp add: slice_within)
    moreover have "slice 0 (length (env_calldata E) - 32) (drop 32 (env_calldata E)) = drop 32 (env_calldata E)"
      using slice_all [of "drop 32 (env_calldata E)"] by simp
    moreover have "length (env_calldata E) - 32 < 2 ^ 64" using len by simp
    ultimately show ?thesis using fwd len r
      by (simp add: router_spec_def Let_def a_def [symmetric] code s(2-) vm_simps jumps splice_front finish_call_def)
  qed
  then obtain s' where "run_vm 50 P E s = Some (fst (router_spec E stor), s')"
      "\<And>d. fst (router_spec E stor) = EvmReturn d \<Longrightarrow> (vm_stor s', vm_calls s') = snd (router_spec E stor)" by blast
  then show ?thesis
    unfolding P_def s_def
    by (rule evm_callI) (auto simp: router_spec_def Let_def finish_call_def split: prod.splits if_splits)
qed

subsection \<open>The light account\<close>

lemma lite_jumps:
  "jump_to (LiteAccount_MAIN own operator) ''INTERNAL_ERR'' = drop 7 (LiteAccount_MAIN own operator)"
  "jump_to (LiteAccount_MAIN own operator) ''REVERT'' = drop 9 (LiteAccount_MAIN own operator)"
  "jump_to (LiteAccount_MAIN own operator) ''PRIVILEGED'' = drop 15 (LiteAccount_MAIN own operator)"
  "jump_to (LiteAccount_MAIN own operator) ''FALLBACK'' = drop 23 (LiteAccount_MAIN own operator)"
  "jump_to (LiteAccount_MAIN own operator) ''SUCCESS'' = [JUMPDEST ''SUCCESS'', RETURN]"
  by (simp_all add: jump_to_def LiteAccount_MAIN_def EDVERIFY_def lite_tail_def)

lemma lite_addresses: "addr_of ADDR_SHA512 = ADDR_SHA512" "addr_of ADDR_EDVERIFY = ADDR_EDVERIFY"
  by (simp_all add: addr_of_def ADDR_SHA512_def ADDR_EDVERIFY_def)

lemma error_words:
  "slice 28 4 (be_fixed 32 0xfe835e35 @ r) = internal_error" "slice 28 4 (be_fixed 32 0xcba605a3 @ r) = unverified_error"
  by (simp_all add: be_fixed_numeral slice_def internal_error_def unverified_error_def)

lemma be_fixed_address: "a < 2 ^ 160 \<Longrightarrow> be_fixed 32 a = zeros 12 @ be_fixed 20 a"
proof -
  assume a: "a < 2 ^ 160"
  have "be_value (zeros 12 @ be_fixed 20 a) = a" using a by (simp add: be_value_append)
  moreover have "be_value (be_fixed 32 a) = a" using a by simp
  ultimately show ?thesis using be_value_inj [of "be_fixed 32 a" "zeros 12 @ be_fixed 20 a"] by simp
qed

lemma nonce_memory: "slice 31 17 (be_fixed 32 STORAGE_NONCE @ drop 64 cd) = 1 # slice 64 16 cd"
  by (simp add: STORAGE_NONCE_def slice_def be_fixed_numeral zeros_def min_def)

lemma splice_empty: "splice off new [] = zeros off @ new"
  by (simp add: splice_def)

lemma splice_at: "length h = off \<Longrightarrow> splice off new (h @ r) = h @ new @ drop (length new) r"
  by (simp add: splice_def)

lemma digest_memory:
  assumes "env_address E < 2 ^ 160" and "64 \<le> length cd"
  shows "slice 12 (length cd - 44) (be_fixed 32 (env_address E) @ drop 64 cd) = be_fixed 20 (env_address E) @ drop 64 cd"
  using assms(2) by (simp add: slice_within be_fixed_address [OF assms(1)])

lemma target_word:
  assumes "100 \<le> length cd"
  shows "be_value (slice 80 32 cd) div 2 ^ 96 = be_value (take 20 (drop 80 cd))"
    "addr_of (be_value (take 20 (drop 80 cd))) = be_value (take 20 (drop 80 cd))"
proof -
  have "slice 80 32 cd = take 20 (drop 80 cd) @ slice 100 12 cd"
    using assms by (simp add: slice_def take_add [of 20 12, simplified] zeros_def min_def)
  moreover have "be_value (slice 100 12 cd) < 2 ^ 96" using be_value_lt [of "slice 100 12 cd"] by simp
  ultimately show "be_value (slice 80 32 cd) div 2 ^ 96 = be_value (take 20 (drop 80 cd))"
    by (simp add: be_value_append)
  have "length (take 20 (drop 80 cd)) = 20" using assms by simp
  then have "be_value (take 20 (drop 80 cd)) < 2 ^ 160" using be_value_lt [of "take 20 (drop 80 cd)"] by simp
  then show "addr_of (be_value (take 20 (drop 80 cd))) = be_value (take 20 (drop 80 cd))" by (simp add: addr_of_def)
qed

lemma lite_tail_runs:
  assumes "env_ok E" and "vm_code s = lite_tail" and "vm_stack s = [a, b, c, length (env_calldata E) - 100, 100, 96, 64]"
    and "jump_to P ''SUCCESS'' = [JUMPDEST ''SUCCESS'', RETURN]" and "100 \<le> length (env_calldata E)"
    and "t = be_value (take 20 (drop 80 (env_calldata E)))" and "env_call E t 0 (drop 100 (env_calldata E)) (vm_stor s) = (ok, rd, stor')"
  shows "\<exists>s'. run_vm 40 P E s = Some (if ok then EvmReturn rd else EvmRevert rd, s') \<and> vm_stor s' = stor' \<and>
    vm_calls s' = vm_calls s @ [(t, 0, drop 100 (env_calldata E))]"
proof -
  define cd where "cd = env_calldata E"
  have len: "length cd < 2 ^ 64" using assms(1) by (simp add: env_ok_def cd_def)
  then have bound: "length cd - 100 < 2 ^ 64" by simp
  have "length rd < 2 ^ 64" using assms(1,7) unfolding env_ok_def by (metis fst_conv snd_conv)
  moreover have "slice 100 (length cd - 100) cd = drop 100 cd" using assms(5) by (simp add: slice_within cd_def)
  moreover have "slice 0 (length cd - 100) (splice 0 (drop 100 cd) m) = drop 100 cd" for m
    using slice_splice [of "drop 100 cd" m] by simp
  moreover have "splice 0 [] m = m" for m by (simp add: splice_front)
  ultimately show ?thesis
    using assms(5) assms(7) [unfolded assms(6)] target_word [OF assms(5)] len bound
    by (simp add: assms(2) [unfolded lite_tail_def] assms(3,4) assms(6) cd_def [symmetric] vm_simps)
qed

lemma lite_runs:
  assumes "env_ok E"
  shows "evm_call 130 (LiteAccount_MAIN own operator) E stor = Some (lite_spec own operator E stor)"
proof -
  define P where "P = LiteAccount_MAIN own operator"
  define s where "s = start_vm P stor"
  define cd where "cd = env_calldata E"
  define h where "h = snd (env_static E ADDR_SHA512 (be_fixed 20 (env_address E) @ drop 64 cd))"
  have s: "vm_code s = LiteAccount_MAIN own operator" "vm_stack s = []" "vm_mem s = []" "vm_ret s = []" "vm_stor s = stor" "vm_calls s = []"
    by (simp_all add: s_def P_def start_vm_def)
  note code = s(1) [unfolded LiteAccount_MAIN_def EDVERIFY_def lite_tail_def append.simps]
  have jumps: "jump_to P ''INTERNAL_ERR'' = drop 7 (LiteAccount_MAIN own operator)"
    "jump_to P ''REVERT'' = drop 9 (LiteAccount_MAIN own operator)" "jump_to P ''PRIVILEGED'' = drop 15 (LiteAccount_MAIN own operator)"
    "jump_to P ''FALLBACK'' = drop 23 (LiteAccount_MAIN own operator)" "jump_to P ''SUCCESS'' = [JUMPDEST ''SUCCESS'', RETURN]"
    by (simp_all add: P_def lite_jumps)
  note jumps = jumps [unfolded LiteAccount_MAIN_def EDVERIFY_def lite_tail_def append.simps, simplified]
  have len: "length cd < 2 ^ 64" and addr: "env_address E < 2 ^ 160" and h: "length h = 64"
    using assms by (simp_all add: env_ok_def cd_def h_def)
  note sym = cd_def [symmetric] h_def [symmetric]
  have errs: "slice 28 4 (be_fixed 32 0xfe835e35) = internal_error"
    using error_words(1) [of "[]"] by simp
  let ?R = "lite_spec own operator E stor"
  consider (own) "env_caller E = own" | (off) "env_caller E \<noteq> own" "stor STORAGE_ENABLED = 0"
    | (short) "env_caller E \<noteq> own" "stor STORAGE_ENABLED \<noteq> 0" "length cd < 64"
    | (run) "env_caller E \<noteq> own" "stor STORAGE_ENABLED \<noteq> 0" "64 \<le> length cd" by linarith
  then have "\<exists>s'. run_vm 130 P E s = Some (fst ?R, s') \<and> (\<forall>d. fst ?R = EvmReturn d \<longrightarrow> (vm_stor s', vm_calls s') = snd ?R)"
  proof cases
    case own
    then show ?thesis by (simp add: lite_spec_def Let_def code s(2-) vm_simps jumps)
  next
    case off
    then show ?thesis by (simp add: lite_spec_def Let_def code s(2-) vm_simps jumps errs splice_front)
  next
    case short
    have "2 ^ 64 \<le> wsub (length cd) 64" using short(3) by (rule wsub_wraps) simp
    with short show ?thesis by (simp add: lite_spec_def Let_def code s(2-) vm_simps jumps sym)
  next
    case run
    have mem: "slice 64 (length cd - 64) cd = drop 64 cd" "slice 0 64 cd = take 64 cd" using run(3) by (simp_all add: slice_within)
    have bounds: "length cd - 64 < 2 ^ 64 - 32" "length cd - 44 < 2 ^ 64 - 12" "length cd - 100 < 2 ^ 64" using run(3) len by linarith+
    obtain ok1 where ok1: "env_static E ADDR_SHA512 (be_fixed 20 (env_address E) @ drop 64 cd) = (ok1, h)"
      by (metis h_def prod.collapse)
    obtain rd2 where ok2: "env_static E ADDR_EDVERIFY (h @ be_fixed 32 operator @ take 64 cd) = (lite_signed operator E, rd2)"
      by (cases "env_static E ADDR_EDVERIFY (h @ be_fixed 32 operator @ take 64 cd)") (simp add: h_def cd_def lite_signed_def)
    have slot: "lite_slot E = env_sha3 E (1 # slice 64 16 cd)" by (simp add: lite_slot_def cd_def)
    note digest = digest_memory [OF addr run(3)]
    have mem2: "splice 64 (be_fixed 32 operator) (h @ r) = h @ be_fixed 32 operator @ drop 32 r"
      "splice 96 (take 64 cd) (h @ be_fixed 32 operator @ r) = h @ be_fixed 32 operator @ take 64 cd @ drop 64 r"
      "slice 0 160 (h @ be_fixed 32 operator @ take 64 cd @ r) = h @ be_fixed 32 operator @ take 64 cd" for r
      using h run(3) splice_at [of h 64] splice_at [of "h @ be_fixed 32 operator" 96] by (simp_all add: slice_def)
    have mem3: "slice 0 64 h = h" using h slice_all [of h] by simp
    note shared = s(2-) vm_simps sym mem splice_empty nonce_memory slot [symmetric] error_words
      digest ok1 h splice_front mem2 mem2 [of "[]", simplified] mem3 ok2 lite_addresses
    note simps = lite_spec_def Let_def code jumps shared
    consider (used) "stor (lite_slot E) \<noteq> 0" | (unsigned) "stor (lite_slot E) = 0" "\<not> lite_signed operator E"
      | (cut) "stor (lite_slot E) = 0" "lite_signed operator E" "length cd < 100"
      | (call) "stor (lite_slot E) = 0" "lite_signed operator E" "100 \<le> length cd" by linarith
    then show ?thesis
    proof cases
      case used
      with run len bounds show ?thesis by (simp add: simps)
    next
      case unsigned
      with run len bounds show ?thesis by (simp add: simps)
    next
      case cut
      have "2 ^ 64 \<le> wsub (length cd) 100" using cut(3) by (rule wsub_wraps) simp
      with cut run len bounds show ?thesis by (simp add: simps)
    next
      case call
      define t where "t = be_value (take 20 (drop 80 cd))"
      obtain ok rd stor' where r: "env_call E t 0 (drop 100 cd) (stor(lite_slot E := 1)) = (ok, rd, stor')" by (metis prod_cases3)
      have spec: "?R = finish_call (ok, rd, stor') stor (t, 0, drop 100 cd)"
        using call run r by (simp add: lite_spec_def Let_def cd_def t_def)
      define ends where "ends x = (\<exists>s'. x = Some (fst ?R, s') \<and> (\<forall>d. fst ?R = EvmReturn d \<longrightarrow> (vm_stor s', vm_calls s') = snd ?R))" for x :: "(evm_result \<times> vm) option"
      have tail: "ends (run_vm n P E s2)" if "vm_code s2 = lite_tail" "vm_stack s2 = [a, b, c, length cd - 100, 100, 96, 64]"
        "vm_stor s2 = stor(lite_slot E := 1)" "vm_calls s2 = []" "40 \<le> n" for n s2 a b c
      proof -
        note at = that
        obtain s' where "run_vm 40 P E s2 = Some (if ok then EvmReturn rd else EvmRevert rd, s')" "vm_stor s' = stor'" "vm_calls s' = [(t, 0, drop 100 cd)]"
          using lite_tail_runs [OF assms at(1), of a b c P t ok rd stor'] at jumps(5) call(3) r by (auto simp: cd_def t_def)
        then show ?thesis using run_vm_more [OF _ at(5)] by (auto simp: ends_def spec finish_call_def)
      qed
      have "ends (run_vm 130 P E s)"
        using call run len bounds
        by (simp add: code [folded lite_tail_def] jumps [folded lite_tail_def [simplified]] shared) (intro conjI impI; rule tail; simp add: s(6))
      then show ?thesis by (simp add: ends_def)
    qed
  qed
  then obtain s' where "run_vm 130 P E s = Some (fst ?R, s')" "\<And>d. fst ?R = EvmReturn d \<Longrightarrow> (vm_stor s', vm_calls s') = snd ?R" by blast
  then show ?thesis
    unfolding P_def s_def
    by (rule evm_callI) (auto simp: lite_spec_def Let_def finish_call_def split: prod.splits if_splits)
qed

end
