(* ===== verification/Router.thy ===== *)
theory Router
  imports AccountLife Handlers Huff
begin

text \<open>
  The way of a request from the server to the account: through the safety router
  (\<^verbatim>\<open>sol/SafetyRouter.huff\<close>, run instruction by instruction), and what the account at the end of
  it does with a mint of the server, or the factory with a request for a new account.
\<close>

section \<open>What the two sides agree on\<close>

text \<open>
  Both sides implement Borsh: what the server serialises, the contract reads back as the same
  request, and what the server signs is what the contract serialises to check the signature.
  The first byte of a request is its variant, which no selector of a migration starts with.
\<close>

definition wire_ok :: "libs \<Rightarrow> sdk \<Rightarrow> bool" where
  "wire_ok L S \<longleftrightarrow>
     (\<forall>s b. bw_SolveV2Args (v2_Args s) \<longrightarrow> length (v2_Sig s) = 64 \<longrightarrow> borsh_Serialize L (VArgs (solve_v2_args s)) = Inr b \<longrightarrow>
        request_of S b = Some (SolveV2Req (v2_Args s) (v2_Sig s))) \<and>
     (\<forall>f b. bw_FreshBackwards f \<longrightarrow> borsh_Serialize L (VArgs (fresh_args f)) = Inr b \<longrightarrow>
        request_of S b = Some (FreshBackwardsReq f)) \<and>
     (\<forall>a b. bw_SolveV2Args a \<longrightarrow> borsh_Serialize L (VSolveV2Args a) = Inr b \<longrightarrow> to_vec S (WireSolveV2Args a) = Some b)"

text \<open>The signing program signs the digest it is given with the key whose public half is \<^verbatim>\<open>key\<close>.\<close>

definition signer_ok :: "libs \<Rightarrow> sdk \<Rightarrow> string \<Rightarrow> word32 \<Rightarrow> bool" where
  "signer_ok L S prog key \<longleftrightarrow> (\<forall>e out. exec_Output L prog (hex_encode (sha512 e)) = (out, None) \<longrightarrow>
     length out = 64 \<and> edphverify_pre S e key out)"

section \<open>Lemmas\<close>

lemma router_forwards:
  assumes "env_ok V" and "env_calldata V = zeros 12 @ to @ b" and "length to = 20" and "env_codehash V (be_value to) = ROUTER_CODEHASH"
  shows "evm_call 50 SafetyRouter_MAIN V stor =
    Some (finish_call (env_call V (be_value to) 0 b stor) stor (be_value to, 0, b))"
proof -
  have "be_value to < 2 ^ 160" using be_value_lt [of to] assms(3) by simp
  moreover have "slice 0 32 (zeros 12 @ to @ b) = zeros 12 @ to" using assms(3) by (simp add: slice_def)
  ultimately have "addr_of (be_value (slice 0 32 (env_calldata V))) = be_value to"
    by (simp add: assms(2) addr_of_def be_value_append)
  then show ?thesis using router_runs [OF assms(1), of stor] assms by (simp add: router_spec_def Let_def)
qed

lemma wire_okD:
  assumes "wire_ok L S"
  shows "bw_SolveV2Args (v2_Args s) \<Longrightarrow> length (v2_Sig s) = 64 \<Longrightarrow> borsh_Serialize L (VArgs (solve_v2_args s)) = Inr b \<Longrightarrow>
      request_of S b = Some (SolveV2Req (v2_Args s) (v2_Sig s))"
    "bw_FreshBackwards f \<Longrightarrow> borsh_Serialize L (VArgs (fresh_args f)) = Inr d \<Longrightarrow> request_of S d = Some (FreshBackwardsReq f)"
    "bw_SolveV2Args a \<Longrightarrow> borsh_Serialize L (VSolveV2Args a) = Inr e \<Longrightarrow> to_vec S (WireSolveV2Args a) = Some e"
  using assms unfolding wire_ok_def by blast+

lemma ref_wire_ok: "wire_ok ref_libs ref_sdk"
  unfolding wire_ok_def using ref_decode_v2 ref_decode_fresh by (simp add: ref_libs_def ref_sdk_def [THEN arg_cong [where f = to_vec]])

lemma ref_signer_ok: "signer_ok ref_libs ref_sdk prog (replicate 32 4)"
  by (simp add: signer_ok_def ref_libs_def ref_sdk_def)

text \<open>A solve the server signs is one the contract reads back and takes as signed.\<close>

lemma CreateSolveV2_verified:
  assumes "wire_ok L S" and "signer_ok L S prog key" and "bw_SolveV2Args \<lparr>v2a_Args = args, v2a_PermitOwner = p, v2a_TransferOwner = t\<rparr>"
    and "CreateSolveV2 L prog args p t = Ok v2" and "borsh_Serialize L (VArgs v2) = Inr b"
  shows "\<exists>sig. request_of S b = Some (SolveV2Req \<lparr>v2a_Args = args, v2a_PermitOwner = p, v2a_TransferOwner = t\<rparr> sig) \<and>
    verified S key (WireSolveV2Args \<lparr>v2a_Args = args, v2a_PermitOwner = p, v2a_TransferOwner = t\<rparr>) sig"
proof -
  let ?a = "\<lparr>v2a_Args = args, v2a_PermitOwner = p, v2a_TransferOwner = t\<rparr>"
  obtain e out where e: "borsh_Serialize L (VSolveV2Args ?a) = Inr e" "exec_Output L prog (hex_encode (sha512 e)) = (out, None)"
      and v2: "v2 = solve_v2_args \<lparr>v2_Args = ?a, v2_Sig = go_copy (zeros 64) out\<rparr>"
    using v2b.build_Ok_iff [of L prog "(args, p, t)" v2] assms(4) by auto
  have out: "length out = 64" "edphverify_pre S e key out" using assms(2) e(2) unfolding signer_ok_def by blast+
  then have copy: "go_copy (zeros 64) out = out" by (simp add: go_copy_def)
  have "request_of S b = Some (SolveV2Req ?a out)"
    using wire_okD(1) [OF assms(1), of "\<lparr>v2_Args = ?a, v2_Sig = out\<rparr>" b] assms(3,5) out(1) by (simp add: v2 copy)
  moreover have "verified S key (WireSolveV2Args ?a) out"
    using wire_okD(3) [OF assms(1,3) e(1)] out(2) by (simp add: verified_def)
  ultimately show ?thesis by blast
qed

lemma one_solve_calls:
  assumes "length hs = 1"
  shows "concat (map2 (solve_calls S net p t auth) hs [m]) = solve_calls S net p t auth (hd hs) m"
  using assms by (cases hs) simp_all

lemma mint_bw:
  assumes "abi_ok L" and "length eoa = 20"
    and "CreateSolveArgsSigArgsMintGraph L prog asset market outcome amount referrer eoa permit msTs = Ok f"
  shows "bw_SolveV2Args \<lparr>v2a_Args = [sas_Args f], v2a_PermitOwner = eoa, v2a_TransferOwner = eoa\<rparr>"
  using mint_graph_bw [OF assms] assms(2) by (simp add: bw_SolveV2Args_def wf_SolveV2Args_def small_def bw_SolveArgs_def)

lemma ref_create_data:
  assumes "CreateAccountExec ref_env ref_resolver anon_ctx ref_create_args None None ref_world = (Ok x, w')"
  shows "\<exists>tx sig. w_sent w' = [\<lparr>stx_Tx = tx, stx_Sig = sig\<rparr>] \<and> dft_Data tx = enc_Args (fresh_args ref_fresh)"
proof -
  have E: "e_libs ref_env = ref_libs" "w_sent ref_world = []" "\<not> isDryrun None" "r_AccPubKey ref_resolver = replicate 32 4"
      "r_AccountsFactoryAddr ref_resolver = replicate 20 1"
    by (simp_all add: ref_env_def ref_world_def isDryrun_def ref_resolver_def)
  obtain f key sender hash gas where
    f: "CreateAccountToFreshBackwardsGraph (replicate 32 4) ref_create_args = Ok f"
    and s: "SendArguments ref_libs (e_rpc ref_env) (r_SafetyRouterAddr ref_resolver) False (r_ChainId ref_resolver) key sender
       (replicate 20 1) (fresh_args f) False [] = (Ok (hash, gas), w_sent w')"
    using CreateAccountExec_OkD [OF assms] E by auto
  have "CreateAccountToFreshBackwardsGraph (replicate 32 4) ref_create_args = Ok ref_fresh"
    by (simp add: CreateAccountToFreshBackwardsGraph_Ok_iff ref_create_args_def strToAddr_addr_hex strToBytes32_hex ref_fresh_def)
  with f have "f = ref_fresh" by simp
  moreover have "length (replicate 20 (1 :: u8)) = 20" by simp
  ultimately show ?thesis using SendArguments_sent [OF ref_geth_ok _ s] by (auto simp: ref_libs_def)
qed

text \<open>What a request for one solve takes in bytes.\<close>

lemma length_concat_map: "(\<And>x. x \<in> set xs \<Longrightarrow> length (f x) = k) \<Longrightarrow> length (concat (map f xs)) = k * length xs"
  by (induction xs) auto

lemma length_enc_SolveArgs:
  assumes "bw_SolveArgs m"
  shows "length (enc_SolveArgs m) < 2 ^ 40"
proof -
  have "length (concat (map enc_Permit (sa_Permit m))) = 74 * length (sa_Permit m)"
    "length (concat (map enc_FromArgs (sa_From m))) = 65 * length (sa_From m)"
    using assms by (auto intro!: length_concat_map
      simp: bw_SolveArgs_def wf_SolveArgs_def enc_Permit_def enc_FromArgs_def enc_u8_def enc_u64_def wf_Permit_def wf_FromArgs_def list_all_iff)
  moreover have "length (concat (map enc_u8 (sa_Cd m))) = 1 * length (sa_Cd m)"
    by (rule length_concat_map) (simp add: enc_u8_def)
  ultimately show ?thesis
    using assms by (simp add: enc_SolveArgs_def enc_vec_def enc_len_def bw_SolveArgs_def wf_SolveArgs_def small_def)
qed

lemma ref_mint_data:
  assumes "NinelivesMint ref_env ref_resolver owner_ctx ref_mint_args None ref_world = (Ok h, w')"
  shows "length (dft_Data (stx_Tx (hd (w_sent w')))) < 2 ^ 64"
proof -
  have E: "e_libs ref_env = ref_libs" "w_sent ref_world = []" "\<not> isDryrun None" "ctx_eoa owner_ctx = Some (replicate 20 6)"
    by (simp_all add: ref_env_def ref_world_def isDryrun_def owner_ctx_def)
  let ?account = "GetClientAddr ref_libs (r_AccountsFactoryAddr ref_resolver) (replicate 20 6)"
  obtain pkey sender f v2 hash gas where
    f: "CreateSolveArgsSigArgsMintGraph ref_libs ProgDalek (e_AssetUsdc ref_env) (mint_Market ref_mint_args) (mint_Outcome ref_mint_args)
       (mint_Amount ref_mint_args) (mint_Referrer ref_mint_args) (replicate 20 6) (mint_Permit ref_mint_args) (mint_MsTs ref_mint_args) = Ok f"
    and v2: "CreateSolveV2 ref_libs ProgDalek [sas_Args f] (replicate 20 6) (replicate 20 6) = Ok v2"
    and s: "SendArguments ref_libs (e_rpc ref_env) (r_SafetyRouterAddr ref_resolver) True (r_ChainId ref_resolver) pkey sender
       ?account v2 False [] = (Ok (hash, gas), w_sent w')"
    using NinelivesMint_OkD [OF assms] E by auto
  have "length ?account = 20" by (rule length_GetClientAddr [OF ref_geth_ok])
  then obtain b tx sig where "borsh_Serialize ref_libs (VArgs v2) = Inr b" "w_sent w' = [\<lparr>stx_Tx = tx, stx_Sig = sig\<rparr>]"
      "length (dft_Data tx) = 32 + length b"
    using SendArguments_sent [OF ref_geth_ok _ s] by auto
  moreover have "bw_SolveArgs (sas_Args f)" by (rule mint_graph_bw [OF ref_abi_ok _ f]) simp
  moreover obtain ssig where "length ssig = 64" "v2 = solve_v2_args
      \<lparr>v2_Args = \<lparr>v2a_Args = [sas_Args f], v2a_PermitOwner = replicate 20 6, v2a_TransferOwner = replicate 20 6\<rparr>, v2_Sig = ssig\<rparr>"
    using CreateSolveV2_OkD [OF v2] by blast
  ultimately show ?thesis using length_enc_SolveArgs [of "sas_Args f"]
    by (auto simp: ref_libs_def enc_Args_def solve_v2_args_def ArgsSolveV2_def ArgsFreshBackwards_def enc_SolveV2Args_def enc_vec_def enc_len_def)
qed

section \<open>Properties\<close>

text \<open>
  C2. A mint from end to end: when the server's mint succeeds for real, the one transaction it
  sent is, at the safety router, the call of the account derived from the owner's address
  (when that runs the expected code) with a request which the account reads as the solve
  the server built and takes as signed, when the server's key is installed there. If that call
  goes through, the account makes exactly these calls: the owner's permits, the transfer of the
  requested amount of USDC from the owner to the account and its approval for the market, the
  check with the authority where there is one, the mint of the requested outcome for that
  amount to the owner, and the balance. With contracts that do what they are asked, it does
  go through when the value of the request is unused.
\<close>

theorem mint_reaches_market:
  assumes "geth_ok (e_libs E)" and "abi_ok (e_libs E)" and "ctx_eoa c = Some eoa" "length eoa = 20"
    and "NinelivesMint E R c mint dry w = (Ok h, w')" and "\<not> isDryrun dry"
    and "sdk_ok S" and "wire_ok (e_libs E) S" and "signer_ok (e_libs E) S ProgDalek key"
    and "account = GetClientAddr (e_libs E) (r_AccountsFactoryAddr R) eoa" and "env_codehash V (be_value account) = ROUTER_CODEHASH"
    and "usdc = the (asset_addr S (e_AssetUsdc E) net)"
  shows "\<exists>tx sig b m ssig oc a ref sel.
    w_sent w' = w_sent w @ [\<lparr>stx_Tx = tx, stx_Sig = sig\<rparr>] \<and> dft_To tx = r_SafetyRouterAddr R \<and>
    (env_calldata V = dft_Data tx \<longrightarrow> env_ok V \<longrightarrow> evm_call 50 SafetyRouter_MAIN V stor =
      Some (finish_call (env_call V (be_value account) 0 b stor) stor (be_value account, 0, b))) \<and>
    request_of S b = Some (SolveV2Req \<lparr>v2a_Args = [m], v2a_PermitOwner = eoa, v2a_TransferOwner = eoa\<rparr> ssig) \<and>
    parse_amount (mint_Amount mint) = Ok a \<and> strToBytes8 (mint_Outcome mint) = Ok oc \<and>
    strToAddr (mint_Market mint) = Ok (sa_Target m) \<and>
    sa_From m = [\<lparr>from_Asset = e_AssetUsdc E, from_ToTake = a, from_MaxUnspent = zeros 32\<rparr>] \<and>
    (\<forall>st out st'. version_get st = U_TWO \<longrightarrow> user_entrypoint S net b st = (Ok out, st') \<longrightarrow>
      (\<exists>hash. out = (None, map (permit_call S net eoa) (sa_Permit m) @
        [ExtCall usdc (make_fn_transfer_from S eoa (contract_address S) a), ExtCall usdc (make_fn_approve S (sa_Target m) a)] @
        authority_calls S (authority_get st) hash @
        [ExtCall (sa_Target m) (sel @ (oc @ zeros 24) @ a @ (zeros 12 @ ref) @ (zeros 12 @ eoa))] @
        [ExtCall usdc (make_fn_balance_of S (contract_address S))]))) \<and>
    (\<forall>st. willing S \<longrightarrow> unlocked S st \<longrightarrow> known_assets S net m \<longrightarrow> ed25519_slot_get S U_ZERO st = key \<longrightarrow>
      timestamps_get S (U_from S (sa_MsTs m)) st = U_ZERO \<longrightarrow> is_ok (fst (user_entrypoint S net b st)))"
proof -
  obtain pkey sender f v2 hash gas sent where
    f: "CreateSolveArgsSigArgsMintGraph (e_libs E) ProgDalek (e_AssetUsdc E) (mint_Market mint) (mint_Outcome mint)
       (mint_Amount mint) (mint_Referrer mint) eoa (mint_Permit mint) (mint_MsTs mint) = Ok f"
    and v2: "CreateSolveV2 (e_libs E) ProgDalek [sas_Args f] eoa eoa = Ok v2"
    and s: "SendArguments (e_libs E) (e_rpc E) (r_SafetyRouterAddr R) True (r_ChainId R) pkey sender account v2 False (w_sent w) =
       (Ok (hash, gas), sent)"
    and w': "w_sent w' = sent"
    using NinelivesMint_OkD [OF assms(5)] assms(3,6,10) by auto
  have len: "length account = 20" unfolding assms(10) using assms(1) by (rule length_GetClientAddr)
  obtain b tx sig where sent: "borsh_Serialize (e_libs E) (VArgs v2) = Inr b" "sent = w_sent w @ [\<lparr>stx_Tx = tx, stx_Sig = sig\<rparr>]"
      "dft_Data tx = zeros 12 @ account @ b" "dft_To tx = r_SafetyRouterAddr R"
    using SendArguments_sent [OF assms(1) len s] by auto
  define m where "m = sas_Args f"
  let ?v2 = "\<lparr>v2a_Args = [m], v2a_PermitOwner = eoa, v2a_TransferOwner = eoa\<rparr>"
  obtain ssig where req: "request_of S b = Some (SolveV2Req ?v2 ssig)" and ver: "verified S key (WireSolveV2Args ?v2) ssig"
    using CreateSolveV2_verified [OF assms(8,9) mint_bw [OF assms(2,4) f] v2 sent(1)] by (auto simp: m_def)
  obtain oc a ref sel where cd: "strToBytes8 (mint_Outcome mint) = Ok oc" "parse_amount (mint_Amount mint) = Ok a"
      "strToAddr (mint_Market mint) = Ok (sa_Target m)"
      "sa_From m = [\<lparr>from_Asset = e_AssetUsdc E, from_ToTake = a, from_MaxUnspent = zeros 32\<rparr>]"
      "sa_Cd m = sel @ (oc @ zeros 24) @ a @ (zeros 12 @ ref) @ (zeros 12 @ eoa)"
    using mint_graph_calldata [OF assms(2,4) f] unfolding m_def by blast
  have fwd: "evm_call 50 SafetyRouter_MAIN V stor =
      Some (finish_call (env_call V (be_value account) 0 b stor) stor (be_value account, 0, b))"
    if "env_calldata V = dft_Data tx" "env_ok V"
    using router_forwards [OF that(2) _ len assms(11)] that(1) by (simp add: sent(3))
  have calls: "\<exists>hash. out = (None, solve_calls S net eoa eoa (authority_get st) hash m)"
    if "version_get st = U_TWO" "user_entrypoint S net b st = (Ok out, st')" for st out st'
    using user_entrypoint_performed [OF assms(7) req that(2)] that(1) by (auto simp: performed_def one_solve_calls contract_imm_def)
  have runs: "is_ok (fst (user_entrypoint S net b st))"
    if "willing S" "unlocked S st" "known_assets S net m" "ed25519_slot_get S U_ZERO st = key"
      "timestamps_get S (U_from S (sa_MsTs m)) st = U_ZERO" for st
    using solve_v2_runs [OF assms(7) that(1,2), of net ?v2 ssig] ver that user_entrypoint_OkI [OF assms(7) req] by fastforce
  have shape: "solve_calls S net eoa eoa auth hash m = map (permit_call S net eoa) (sa_Permit m) @
      [ExtCall usdc (make_fn_transfer_from S eoa (contract_address S) a), ExtCall usdc (make_fn_approve S (sa_Target m) a)] @
      authority_calls S auth hash @
      [ExtCall (sa_Target m) (sel @ (oc @ zeros 24) @ a @ (zeros 12 @ ref) @ (zeros 12 @ eoa))] @
      [ExtCall usdc (make_fn_balance_of S (contract_address S))]" for auth hash
    by (simp add: solve_calls_def take_calls_def unspent_call_def cd(4,5) assms(12) Let_def)
  note calls = calls [unfolded shape]
  have w'': "w_sent w' = w_sent w @ [\<lparr>stx_Tx = tx, stx_Sig = sig\<rparr>]" using w' sent(2) by simp
  show ?thesis
    by (rule exI [of _ tx], rule exI [of _ sig], rule exI [of _ b], rule exI [of _ m], rule exI [of _ ssig], rule exI [of _ oc],
        rule exI [of _ a], rule exI [of _ ref], rule exI [of _ sel], intro conjI allI impI;
        (rule w'' sent(4) req cd(1-4) | erule (1) fwd calls | erule (4) runs))
qed

theorem mint_reaches_market_witness:
  "\<exists>h w' tx sig b c. NinelivesMint ref_env ref_resolver owner_ctx ref_mint_args None ref_world = (Ok h, w') \<and>
     w_sent w' = [\<lparr>stx_Tx = tx, stx_Sig = sig\<rparr>] \<and>
     evm_call 50 SafetyRouter_MAIN (ref_machine (dft_Data tx)) (\<lambda>_. 0) = Some (EvmReturn [], \<lambda>_. 0, [(c, 0, b)]) \<and>
     is_ok (fst (user_entrypoint ref_sdk Arbitrum b live_storage))"
proof -
  obtain h w' where r: "NinelivesMint ref_env ref_resolver owner_ctx ref_mint_args None ref_world = (Ok h, w')"
    using ref_mint_ok by blast
  define V where "V = ref_machine (dft_Data (stx_Tx (hd (w_sent w'))))"
  have V: "env_ok V" "env_calldata V = dft_Data (stx_Tx (hd (w_sent w')))" "env_codehash V a = ROUTER_CODEHASH"
    "env_call V a v d stor = (True, [], stor)" for a v d stor
    using ref_machine_ok [OF ref_mint_data [OF r]] by (simp_all add: V_def ref_machine_def)
  have E: "geth_ok (e_libs ref_env)" "abi_ok (e_libs ref_env)" "ctx_eoa owner_ctx = Some (replicate 20 6)"
    "\<not> isDryrun None" "w_sent ref_world = []" "wire_ok (e_libs ref_env) ref_sdk"
    "signer_ok (e_libs ref_env) ref_sdk ProgDalek (replicate 32 4)"
    by (simp_all add: ref_env_def ref_geth_ok ref_abi_ok owner_ctx_def isDryrun_def ref_world_def ref_wire_ok ref_signer_ok)
  let ?c = "be_value (GetClientAddr (e_libs ref_env) (r_AccountsFactoryAddr ref_resolver) (replicate 20 6))"
  obtain tx sig b m a where "w_sent w' = w_sent ref_world @ [\<lparr>stx_Tx = tx, stx_Sig = sig\<rparr>]"
      "env_calldata V = dft_Data tx \<longrightarrow> env_ok V \<longrightarrow> evm_call 50 SafetyRouter_MAIN V (\<lambda>_. 0) =
        Some (finish_call (env_call V ?c 0 b (\<lambda>_. 0)) (\<lambda>_. 0) (?c, 0, b))"
      "sa_From m = [\<lparr>from_Asset = e_AssetUsdc ref_env, from_ToTake = a, from_MaxUnspent = zeros 32\<rparr>]"
    and runs: "\<forall>st. willing ref_sdk \<longrightarrow> unlocked ref_sdk st \<longrightarrow> known_assets ref_sdk Arbitrum m \<longrightarrow>
      ed25519_slot_get ref_sdk U_ZERO st = replicate 32 4 \<longrightarrow> timestamps_get ref_sdk (U_from ref_sdk (sa_MsTs m)) st = U_ZERO \<longrightarrow>
      is_ok (fst (user_entrypoint ref_sdk Arbitrum b st))"
    using mint_reaches_market [OF E(1-3) length_replicate r E(4) ref_sdk_ok E(6,7) refl V(3) refl, where net = Arbitrum and stor = "\<lambda>_. 0"]
    by (elim exE conjE) (rule that, assumption+)
  then have m: "w_sent w' = [\<lparr>stx_Tx = tx, stx_Sig = sig\<rparr>]"
      "evm_call 50 SafetyRouter_MAIN V (\<lambda>_. 0) = Some (EvmReturn [], \<lambda>_. 0, [(?c, 0, b)])"
      "sa_From m = [\<lparr>from_Asset = e_AssetUsdc ref_env, from_ToTake = a, from_MaxUnspent = zeros 32\<rparr>]"
    using E(5) V(1) by (simp_all add: V(2,4) finish_call_def)
  have "known_assets ref_sdk Arbitrum m" using m(3) by (simp add: known_assets_def ref_sdk_def list_all_iff)
  with runs have "is_ok (fst (user_entrypoint ref_sdk Arbitrum b live_storage))" by (simp add: ref_willing live_gets)
  moreover have "V = ref_machine (dft_Data tx)" by (simp add: V_def m(1))
  ultimately show ?thesis using r m(1,2) by blast
qed

text \<open>
  C12. A new account from end to end: when the server's request for a new account (without a
  mint) succeeds for real, the one transaction it sent goes to the factory, and if the factory
  accepts it, the address in the request signed the server's key with the authority, and the two
  calls the factory makes create an account for that address and migrate it; that migration
  leaves the empty account at the current version with the server's key, that owner and the
  factory's implementation.
\<close>

theorem created_account_belongs:
  assumes "geth_ok (e_libs E)" and "length (r_AccountsFactoryAddr R) = 20" and "length (r_AccPubKey R) = 32" and "\<not> isDryrun dry"
    and "CreateAccountExec E R c ca None dry w = (Ok x, w')"
    and "sdk_ok S" and "wire_ok (e_libs E) S" and "sdk_ok S'" and "SEL_MIGRATE S' = SEL_MIGRATE S"
  shows "\<exists>tx sig eoa auth v r s. w_sent w' = w_sent w @ [\<lparr>stx_Tx = tx, stx_Sig = sig\<rparr>] \<and>
    dft_To tx = r_AccountsFactoryAddr R \<and> strToAddr (ca_EoaAddr ca) = Ok eoa \<and>
    (\<forall>net st ret calls st'. version_get st = U_TWO \<longrightarrow> length (st (SLOT_IMPL S)) = 32 \<longrightarrow>
      user_entrypoint S net (dft_Data tx) st = (Ok (ret, calls), st') \<longrightarrow>
      (\<exists>h. make_preimage S (r_AccPubKey R) auth = Some h \<and> ecrecover_post S h v r s = Some eoa) \<and>
      (\<exists>proxy code cd st1. ret = Some (U_from S proxy) \<and> calls = [ExtCreate code eoa, ExtCall proxy cd] \<and>
        user_entrypoint S' net cd (\<lambda>_. U_ZERO) = (Ok (None, []), st1) \<and> version_get st1 = U_TWO \<and>
        ed25519_slot_get S' U_ZERO st1 = r_AccPubKey R \<and> ethereum_owner_get st1 = zeros 12 @ eoa \<and>
        authority_get st1 = zeros 12 @ auth \<and> st1 (SLOT_IMPL S') = st (SLOT_IMPL S)))"
proof -
  obtain f key sender hash gas sent where
    f: "CreateAccountToFreshBackwardsGraph (r_AccPubKey R) ca = Ok f"
    and s: "SendArguments (e_libs E) (e_rpc E) (r_SafetyRouterAddr R) False (r_ChainId R) key sender
       (r_AccountsFactoryAddr R) (fresh_args f) False (w_sent w) = (Ok (hash, gas), sent)"
    and w': "w_sent w' = sent"
    using CreateAccountExec_OkD [OF assms(5)] assms(4) by auto
  obtain b tx sig where b: "borsh_Serialize (e_libs E) (VArgs (fresh_args f)) = Inr b"
      and sent: "sent = w_sent w @ [\<lparr>stx_Tx = tx, stx_Sig = sig\<rparr>]" "dft_To tx = r_AccountsFactoryAddr R" "dft_Data tx = b"
    using SendArguments_sent [OF assms(1,2) s] by auto
  then have ser: "borsh_Serialize (e_libs E) (VArgs (fresh_args f)) = Inr (dft_Data tx)" by simp
  note wf = CreateAccountToFreshBackwardsGraph_wf [OF assms(3) f]
  have none: "fb_SolveArgs f = []" and key: "fb_Key f = r_AccPubKey R" and eoa: "strToAddr (ca_EoaAddr ca) = Ok (fb_EoaAddr f)"
    using f by (auto simp: CreateAccountToFreshBackwardsGraph_Ok_iff)
  have req: "request_of S (dft_Data tx) = Some (FreshBackwardsReq f)"
    using wire_okD(2) [OF assms(7) _ ser] wf none by (simp add: bw_FreshBackwards_def small_def)
  define auth where "auth = (case fb_Authority f of None \<Rightarrow> zeros 20 | Some a \<Rightarrow> a)"
  have "length auth = 20" using wf by (simp add: auth_def wf_FreshBackwards_def split: option.splits)
  with wf have run: "(\<exists>h. make_preimage S (r_AccPubKey R) auth = Some h \<and>
      ecrecover_post S h (fb_V f) (fb_R f) (fb_S f) = Some (fb_EoaAddr f)) \<and>
    (\<exists>proxy code cd st1. ret = Some (U_from S proxy) \<and> calls = [ExtCreate code (fb_EoaAddr f), ExtCall proxy cd] \<and>
        user_entrypoint S' net cd (\<lambda>_. U_ZERO) = (Ok (None, []), st1) \<and> version_get st1 = U_TWO \<and>
        ed25519_slot_get S' U_ZERO st1 = r_AccPubKey R \<and> ethereum_owner_get st1 = zeros 12 @ fb_EoaAddr f \<and>
        authority_get st1 = zeros 12 @ auth \<and> st1 (SLOT_IMPL S') = st (SLOT_IMPL S))"
    if "version_get st = U_TWO" "length (st (SLOT_IMPL S)) = 32" "user_entrypoint S net (dft_Data tx) st = (Ok (ret, calls), st')"
    for net st ret calls st'
    using fresh_installs [OF assms(6) req that(1,3) _ _ that(2) auth_def _ assms(8,9)] none
    by (simp only: wf_FreshBackwards_def key if_True append_Nil2 simp_thms)
  have "w_sent w' = w_sent w @ [\<lparr>stx_Tx = tx, stx_Sig = sig\<rparr>]" using w' sent(1) by simp
  then show ?thesis using sent(2) eoa run by blast
qed

theorem created_account_belongs_witness:
  "\<exists>x w' tx sig proxy code cd st' st1. CreateAccountExec ref_env ref_resolver anon_ctx ref_create_args None None ref_world = (Ok x, w') \<and>
     w_sent w' = [\<lparr>stx_Tx = tx, stx_Sig = sig\<rparr>] \<and>
     user_entrypoint ref_sdk Arbitrum (dft_Data tx) live_storage =
       (Ok (Some (U_from ref_sdk proxy), [ExtCreate code (replicate 20 6), ExtCall proxy cd]), st') \<and>
     user_entrypoint ref_sdk Arbitrum cd (\<lambda>_. U_ZERO) = (Ok (None, []), st1) \<and>
     ed25519_slot_get ref_sdk U_ZERO st1 = replicate 32 4"
proof -
  obtain x w' where r: "CreateAccountExec ref_env ref_resolver anon_ctx ref_create_args None None ref_world = (Ok x, w')"
    using ref_create_ok by blast
  obtain tx sig where tx: "w_sent w' = [\<lparr>stx_Tx = tx, stx_Sig = sig\<rparr>]" "dft_Data tx = enc_Args (fresh_args ref_fresh)"
    using ref_create_data [OF r] by blast
  obtain ret calls st' where f: "user_entrypoint ref_sdk Arbitrum (dft_Data tx) live_storage = (Ok (ret, calls), st')"
    using ref_fresh_runs tx(2) by auto
  have E: "geth_ok (e_libs ref_env)" "length (r_AccountsFactoryAddr ref_resolver) = 20" "length (r_AccPubKey ref_resolver) = 32"
    "\<not> isDryrun None" "wire_ok (e_libs ref_env) ref_sdk" "r_AccPubKey ref_resolver = replicate 32 4" "w_sent ref_world = []"
    "strToAddr (ca_EoaAddr ref_create_args) = Ok (replicate 20 6)"
    by (simp_all add: ref_env_def ref_geth_ok ref_resolver_def isDryrun_def ref_wire_ok ref_world_def ref_create_args_def
        strToAddr_addr_hex)
  have l: "length (live_storage (SLOT_IMPL ref_sdk)) = 32" by (simp add: live_gets)
  have "\<exists>proxy code cd st1. ret = Some (U_from ref_sdk proxy) \<and> calls = [ExtCreate code (replicate 20 6), ExtCall proxy cd] \<and>
      user_entrypoint ref_sdk Arbitrum cd (\<lambda>_. U_ZERO) = (Ok (None, []), st1) \<and> ed25519_slot_get ref_sdk U_ZERO st1 = replicate 32 4"
    using created_account_belongs [OF E(1-4) r ref_sdk_ok E(5) ref_sdk_ok refl] f l live_gets(1) tx(1) E(6-)
    by (elim exE conjE) (simp, blast)
  with r tx(1) f show ?thesis by blast
qed

end
