(* ===== verification/Signer.thy ===== *)
theory Signer
  imports Router
begin

text \<open>
  The signing program \<^verbatim>\<open>ed25519-dalek-ph\<close>, which the server runs for every signature, and the tool
  \<^verbatim>\<open>ed25519-priv-to-pub\<close>. The crates \<^verbatim>\<open>ed25519-dalek\<close> and \<^verbatim>\<open>const-hex\<close> are the fields of a parameter;
  the digest the program hands to the former, which carries a hash it was given instead of
  computing one, is modelled.
\<close>

section \<open>The parameter\<close>

record dalek =
  verifying_key :: "bytes \<Rightarrow> word32"
  sign_prehashed :: "bytes \<Rightarrow> bytes \<Rightarrow> string + Sig"
  const_hex_decode :: "string \<Rightarrow> string + bytes"
  const_hex_decode_to_array :: "nat \<Rightarrow> string \<Rightarrow> string + bytes"
  const_hex_encode :: "bytes \<Rightarrow> string"

text \<open>
  Documented behaviour: hex is read back, a key of 32 bytes signs a digest of 64 with a
  signature of 64, and the contract's verifier takes a signature over the digest of a message.
\<close>

definition dalek_ok :: "dalek \<Rightarrow> sdk \<Rightarrow> bool" where
  "dalek_ok D S \<longleftrightarrow>
     (\<forall>b. const_hex_decode D (hex_encode b) = Inr b) \<and> (\<forall>b. const_hex_encode D b = hex_encode b) \<and>
     (\<forall>n s. const_hex_decode_to_array D n s = (case const_hex_decode D s of
        Inl e \<Rightarrow> Inl e | Inr b \<Rightarrow> if length b = n then Inr b else Inl ''invalid string length'')) \<and>
     (\<forall>k. length k = 32 \<longrightarrow> length (verifying_key D k) = 32) \<and>
     (\<forall>k d. length k = 32 \<longrightarrow> length d = 64 \<longrightarrow> (\<exists>sig. sign_prehashed D k d = Inr sig \<and> length sig = 64)) \<and>
     (\<forall>k m sig. length k = 32 \<longrightarrow> sign_prehashed D k (sha512 m) = Inr sig \<longrightarrow> edphverify_pre S m (verifying_key D k) sig)"

section \<open>The digest\<close>

text \<open>A digest is the 64 bytes it will give, and writing to it overwrites from the start.\<close>

definition Digest_new :: bytes where
  "Digest_new = zeros 64"

definition Digest_update :: "bytes \<Rightarrow> bytes \<Rightarrow> bytes" where
  "Digest_update d data = (let len = min (length data) 64 in take len data @ drop len d)"

definition Digest_new_with_prefix :: "bytes \<Rightarrow> bytes res" where
  "Digest_new_with_prefix data = Panic ''not implemented''"

definition Digest_chain_update :: "bytes \<Rightarrow> bytes \<Rightarrow> bytes res" where
  "Digest_chain_update d data = Panic ''not implemented''"

definition Digest_finalize :: "bytes \<Rightarrow> bytes" where
  "Digest_finalize d = d"

definition Digest_reset :: "bytes \<Rightarrow> bytes" where
  "Digest_reset d = zeros 64"

definition Digest_finalize_reset :: "bytes \<Rightarrow> bytes \<times> bytes" where
  "Digest_finalize_reset d = (d, Digest_reset d)"

definition Digest_digest :: "bytes \<Rightarrow> bytes" where
  "Digest_digest data = (let len = min (length data) 64 in take len data @ drop len (zeros 64))"

section \<open>The programs\<close>

definition unwrap_some :: "'a option \<Rightarrow> 'a res" where
  "unwrap_some v = (case v of None \<Rightarrow> Panic ''called Option::unwrap() on a None value'' | Some x \<Rightarrow> Ok x)"

definition unwrap_ok :: "string + 'a \<Rightarrow> 'a res" where
  "unwrap_ok v = (case v of Inl e \<Rightarrow> Panic (''called Result::unwrap() on an Err value: '' @ e) | Inr x \<Rightarrow> Ok x)"

definition try_into :: "nat \<Rightarrow> bytes \<Rightarrow> string + bytes" where
  "try_into n b = (if length b = n then Inr b else Inl ''could not convert'')"

text \<open>
  The arguments after the program's name and the variable \<^verbatim>\<open>SPN_ACCOUNTS_PRIVATE_KEY\<close>; what is
  written to the standard output.
\<close>

definition read_key :: "dalek \<Rightarrow> string option \<Rightarrow> bytes res" where
  "read_key D var =
     bindR (unwrap_ok (case var of None \<Rightarrow> Inl ''NotPresent'' | Some s \<Rightarrow> Inr s)) (\<lambda>s.
     bindR (unwrap_ok (const_hex_decode D s)) (\<lambda>b.
     unwrap_ok (try_into 32 b)))"

definition signer_main :: "dalek \<Rightarrow> string list \<Rightarrow> string option \<Rightarrow> bytes res" where
  "signer_main D args var =
     bindR (unwrap_some (case args of [] \<Rightarrow> None | a # _ \<Rightarrow> Some a)) (\<lambda>a.
     bindR (unwrap_ok (const_hex_decode D a)) (\<lambda>b.
     bindR (unwrap_ok (try_into 64 b)) (\<lambda>d.
     bindR (read_key D var) (\<lambda>k.
     unwrap_ok (sign_prehashed D k (Digest_finalize d))))))"

definition priv_to_pub_main :: "dalek \<Rightarrow> string option \<Rightarrow> string res" where
  "priv_to_pub_main D var =
     bindR (read_key D var) (\<lambda>k. Ok (const_hex_encode D (verifying_key D k) @ [CHR 10]))"

text \<open>A program as the server sees it: what it wrote, and an error when it panicked.\<close>

definition run_program :: "bytes res \<Rightarrow> bytes \<times> string option" where
  "run_program r = (case r of Ok out \<Rightarrow> (out, None) | _ \<Rightarrow> ([], Some ''exit status 101''))"

section \<open>An instance\<close>

definition ref_dalek :: dalek where
  "ref_dalek = \<lparr>verifying_key = (\<lambda>k. replicate 32 4), sign_prehashed = (\<lambda>k d. Inr (replicate 64 97)),
     const_hex_decode = (\<lambda>s. case hex_decode_string s of Ok b \<Rightarrow> Inr b | _ \<Rightarrow> Inl ''invalid hex''),
     const_hex_decode_to_array = (\<lambda>n s. case hex_decode_string s of
        Ok b \<Rightarrow> if length b = n then Inr b else Inl ''invalid string length'' | _ \<Rightarrow> Inl ''invalid hex''),
     const_hex_encode = hex_encode\<rparr>"

definition ref_program_libs :: libs where
  "ref_program_libs = ref_libs\<lparr>exec_Output := (\<lambda>prog a. run_program (signer_main ref_dalek [a] (Some (hex_encode (replicate 32 3)))))\<rparr>"

section \<open>Lemmas\<close>

lemma ref_dalek_ok: "dalek_ok ref_dalek ref_sdk"
  by (auto simp: dalek_ok_def ref_dalek_def ref_sdk_def split: res.splits)

lemma dalek_okD:
  assumes "dalek_ok D S"
  shows "const_hex_decode D (hex_encode b) = Inr b" "const_hex_encode D b = hex_encode b"
    "const_hex_decode_to_array D n s = (case const_hex_decode D s of
        Inl e \<Rightarrow> Inl e | Inr b \<Rightarrow> if length b = n then Inr b else Inl ''invalid string length'')"
    "length k = 32 \<Longrightarrow> length (verifying_key D k) = 32"
    "length k = 32 \<Longrightarrow> length d = 64 \<Longrightarrow> \<exists>sig. sign_prehashed D k d = Inr sig \<and> length sig = 64"
    "length k = 32 \<Longrightarrow> sign_prehashed D k (sha512 m) = Inr sig \<Longrightarrow> edphverify_pre S m (verifying_key D k) sig"
  using assms unfolding dalek_ok_def by blast+

lemma unwrap_simps [simp]:
  "unwrap_some (Some x) = Ok x" "unwrap_ok (Inr x) = Ok x" "unwrap_ok v = Ok y \<longleftrightarrow> v = Inr y"
  by (auto simp: unwrap_some_def unwrap_ok_def split: sum.splits)

lemma read_key_hex: "dalek_ok D S \<Longrightarrow> length k = 32 \<Longrightarrow> read_key D (Some (hex_encode k)) = Ok k"
  by (simp add: read_key_def dalek_okD(1) try_into_def)

text \<open>A digest of the right size passes through the digest type, however the signer uses it.\<close>

lemma digest_transparent:
  "length d = 64 \<Longrightarrow> Digest_finalize (Digest_update Digest_new d) = d \<and> Digest_digest d = d \<and> fst (Digest_finalize_reset d) = d"
  by (simp add: Digest_new_def Digest_finalize_def Digest_update_def Digest_digest_def Digest_finalize_reset_def)

section \<open>Properties\<close>

text \<open>
  C16. The signing program does what the server takes it for: run with a key in its
  environment and the hex of a digest as its argument, it never fails, and writes 64 bytes
  that the account contract accepts as the signature of that message by the public key the
  key tool prints.
\<close>

theorem signer_serves:
  assumes "dalek_ok D S" and "length k = 32"
    and "\<And>a. exec_Output L prog a = run_program (signer_main D [a] (Some (hex_encode k)))"
  shows "signer_ok L S prog (verifying_key D k) \<and>
    (\<forall>m. \<exists>out. exec_Output L prog (hex_encode (sha512 m)) = (out, None)) \<and>
    priv_to_pub_main D (Some (hex_encode k)) = Ok (hex_encode (verifying_key D k) @ [CHR 10])"
proof -
  have run: "\<exists>out. exec_Output L prog (hex_encode (sha512 m)) = (out, None) \<and> length out = 64 \<and> edphverify_pre S m (verifying_key D k) out" for m
  proof -
    obtain out where "sign_prehashed D k (sha512 m) = Inr out" "length out = 64"
      using dalek_okD(5) [OF assms(1,2), of "sha512 m"] by auto
    then show ?thesis
      using dalek_okD(6) [OF assms(1,2)]
      by (simp add: assms(3) run_program_def signer_main_def dalek_okD(1) [OF assms(1)] try_into_def read_key_hex [OF assms(1,2)] Digest_finalize_def)
  qed
  then have "signer_ok L S prog (verifying_key D k)" unfolding signer_ok_def by (metis prod.inject)
  moreover have "priv_to_pub_main D (Some (hex_encode k)) = Ok (hex_encode (verifying_key D k) @ [CHR 10])"
    by (simp add: priv_to_pub_main_def read_key_hex [OF assms(1,2)] dalek_okD(2) [OF assms(1)])
  ultimately show ?thesis using run by blast
qed

theorem signer_serves_witness:
  "signer_ok ref_program_libs ref_sdk ProgDalek (replicate 32 4) \<and>
     priv_to_pub_main ref_dalek (Some (hex_encode (replicate 32 3))) = Ok (hex_encode (replicate 32 4) @ [CHR 10])"
  using signer_serves [OF ref_dalek_ok, of "replicate 32 3" ref_program_libs ProgDalek]
  by (simp add: ref_program_libs_def ref_dalek_def)

end
