(* ===== verification/Lite.thy ===== *)
theory Lite
  imports Huff
begin

text \<open>
  The life of a light account: its creation by the factory (\<^verbatim>\<open>sol/LiteFactory.sol\<close>), whose bytes are
  those of \<^verbatim>\<open>sol/LiteAccount.huff\<close>, and the calls it takes one after the other.
\<close>

section \<open>Creation\<close>

text \<open>What runs when the account is created: the constructor and the part that returns the code.\<close>

definition lite_init :: "opcode list" where
  "lite_init = LiteAccount_CONSTRUCTOR @ deploy_stub 0xec 0x0d"

record lite_created =
  created_owner :: Address
  created_operator :: bytes
  created_result :: Address

definition LiteFactory_create :: "(nat \<Rightarrow> bytes \<Rightarrow> nat \<Rightarrow> Address) \<Rightarrow> nat \<Rightarrow> Address \<Rightarrow> bytes \<Rightarrow> Address \<times> lite_created list" where
  "LiteFactory_create create2 chainid own operator =
     (let d = create2 0 (create_code own operator) chainid
      in (d, [\<lparr>created_owner = own, created_operator = operator, created_result = d\<rparr>]))"

section \<open>Calls\<close>

text \<open>
  A sequence of calls of one account, each in its own surroundings: what came in, how it ended
  and which calls it made.
\<close>

fun lite_history :: "nat \<Rightarrow> nat \<Rightarrow> evm_env list \<Rightarrow> evm_storage \<Rightarrow> (evm_env \<times> evm_result \<times> (nat \<times> nat \<times> bytes) list) list" where
  "lite_history own operator [] stor = []"
| "lite_history own operator (E # Es) stor = (case evm_call 130 (LiteAccount_MAIN own operator) E stor of
       None \<Rightarrow> []
     | Some (r, stor', calls) \<Rightarrow> (E, r, calls) # lite_history own operator Es stor')"

text \<open>A used nonce stays used, which is all that is asked of calls that come back to the account.\<close>

definition used_kept :: "evm_storage \<Rightarrow> evm_storage \<Rightarrow> bool" where
  "used_kept stor stor' \<longleftrightarrow> (\<forall>k. k \<noteq> STORAGE_ENABLED \<longrightarrow> stor k \<noteq> 0 \<longrightarrow> stor' k \<noteq> 0)"

definition keeps_used :: "evm_env \<Rightarrow> bool" where
  "keeps_used E \<longleftrightarrow> (\<forall>a v d stor. used_kept stor (snd (snd (env_call E a v d stor))))"

definition lite_nonce :: "evm_env \<Rightarrow> bytes" where
  "lite_nonce E = slice 64 16 (env_calldata E)"

text \<open>A hash that tells nonces apart and never hits the first slot.\<close>

definition nonce_hash :: "(bytes \<Rightarrow> nat) \<Rightarrow> bool" where
  "nonce_hash h \<longleftrightarrow> (\<forall>m n. length m = 16 \<longrightarrow> length n = 16 \<longrightarrow> h (1 # m) = h (1 # n) \<longrightarrow> m = n) \<and>
     (\<forall>n. length n = 16 \<longrightarrow> h (1 # n) \<noteq> STORAGE_ENABLED)"

section \<open>Lemmas\<close>

subsection \<open>The bytes of the contract\<close>

lemma hex_chars:
  "char_of (48 :: nat) = CHR ''0''" "char_of (49 :: nat) = CHR ''1''" "char_of (50 :: nat) = CHR ''2''" "char_of (51 :: nat) = CHR ''3''" "char_of (52 :: nat) = CHR ''4''" "char_of (53 :: nat) = CHR ''5''" "char_of (54 :: nat) = CHR ''6''" "char_of (55 :: nat) = CHR ''7''" "char_of (56 :: nat) = CHR ''8''" "char_of (57 :: nat) = CHR ''9''" "char_of (97 :: nat) = CHR ''a''" "char_of (98 :: nat) = CHR ''b''" "char_of (99 :: nat) = CHR ''c''" "char_of (100 :: nat) = CHR ''d''" "char_of (101 :: nat) = CHR ''e''" "char_of (102 :: nat) = CHR ''f''"
  by (simp_all add: char_of_def bit_iff_odd)

lemma from_hexI: "s = hex_encode bs \<Longrightarrow> from_hex s = bs"
  by (simp add: from_hex_def)

lemma lite_bytes1: "from_hex lite_hex1 = [0x60, 0x01, 0x5f, 0x55, 0x60, 0xec, 0x80, 0x60, 0x0d, 0x3d, 0x39, 0x3d, 0xf3, 0x73]"
  by (rule from_hexI) (simp add: lite_hex1_def hex_digit_def hex_chars)

lemma lite_bytes2: "from_hex lite_hex2 = [0x33, 0x14, 0x61, 0x00, 0x2f, 0x57, 0x5f, 0x54, 0x61, 0x00, 0x37, 0x57, 0x5b, 0x63, 0xfe, 0x83, 0x5e, 0x35, 0x5b, 0x5f,
    0x52, 0x60, 0x04, 0x60, 0x1c, 0xfd, 0x5b, 0x5f, 0x35, 0x5f, 0x55, 0x5f, 0x5f, 0xf3, 0x5b, 0x60, 0x40, 0x60, 0x60, 0x60,
    0x64, 0x80, 0x36, 0x03, 0x83, 0x36, 0x03, 0x84, 0x60, 0x20, 0x37, 0x60, 0x01, 0x60, 0x01, 0x5f, 0x52, 0x60, 0x11, 0x60,
    0x1f, 0x20, 0x80, 0x54, 0x61, 0x00, 0x21, 0x57, 0x55, 0x30, 0x5f, 0x52, 0x5f, 0x5f, 0x60, 0x2c, 0x36, 0x03, 0x60, 0x0c,
    0x73, 0x2f, 0x6b, 0xc5, 0xac, 0x6b, 0x08, 0xbf, 0x93, 0xbc, 0x6f, 0xc9, 0xbe, 0x15, 0x64, 0x49, 0xb6, 0x76, 0xbf, 0x8b,
    0xb2, 0x5a, 0xfa, 0x3d, 0x5f, 0x5f, 0x3e, 0x7f]"
  by (rule from_hexI) (simp add: lite_hex2_def hex_digit_def hex_chars)

lemma lite_bytes3: "from_hex lite_hex3 = [0x85, 0x52, 0x84, 0x5f, 0x85, 0x37, 0x5f, 0x5f, 0x60, 0xa0, 0x5f, 0x73, 0xc3, 0xe4, 0x43, 0xbe, 0x2c, 0xfa, 0x4f, 0x41,
    0xa5, 0xf5, 0xe4, 0x97, 0x8d, 0x01, 0x28, 0x47, 0xd3, 0x55, 0xb4, 0x19, 0x5a, 0xfa, 0x63, 0xcb, 0xa6, 0x05, 0xa3, 0x81,
    0x15, 0x61, 0x00, 0x27, 0x57, 0x83, 0x85, 0x5f, 0x37, 0x5f, 0x5f, 0x85, 0x5f, 0x5f, 0x60, 0x50, 0x35, 0x8b, 0x1c, 0x5a,
    0xf1, 0x3d, 0x5f, 0x5f, 0x3e, 0x3d, 0x5f, 0x82, 0x61, 0x00, 0xea, 0x57, 0xfd, 0x5b, 0xf3]"
  by (rule from_hexI) (simp add: lite_hex3_def hex_digit_def hex_chars)

lemma lite_labels:
  "label_offset (LiteAccount_MAIN own operator) ''PRIVILEGED'' = 0x2f" "label_offset (LiteAccount_MAIN own operator) ''FALLBACK'' = 0x37"
  "label_offset (LiteAccount_MAIN own operator) ''INTERNAL_ERR'' = 0x21" "label_offset (LiteAccount_MAIN own operator) ''REVERT'' = 0x27"
  "label_offset (LiteAccount_MAIN own operator) ''SUCCESS'' = 0xea"
  by (simp_all add: LiteAccount_MAIN_def EDVERIFY_def lite_tail_def)

lemma lite_constants:
  "be_fixed 20 ADDR_SHA512 = [0x2f, 0x6b, 0xc5, 0xac, 0x6b, 0x08, 0xbf, 0x93, 0xbc, 0x6f, 0xc9, 0xbe, 0x15, 0x64, 0x49, 0xb6, 0x76, 0xbf, 0x8b, 0xb2]"
  "be_fixed 20 ADDR_EDVERIFY = [0xc3, 0xe4, 0x43, 0xbe, 0x2c, 0xfa, 0x4f, 0x41, 0xa5, 0xf5, 0xe4, 0x97, 0x8d, 0x01, 0x28, 0x47, 0xd3, 0x55, 0xb4, 0x19]"
  by (simp_all add: be_fixed_numeral ADDR_SHA512_def ADDR_EDVERIFY_def)

lemma be_fixed_small:
  "be_fixed (Suc 0) n = [of_nat (n mod 256)]" "be_fixed 2 n = [of_nat (n div 256 mod 256), of_nat (n mod 256)]"
  "be_fixed 4 n = [of_nat (n div 256 div 256 div 256 mod 256), of_nat (n div 256 div 256 mod 256), of_nat (n div 256 mod 256), of_nat (n mod 256)]"
  by (simp_all add: be_fixed_numeral)

text \<open>The factory's bytes are the contract's.\<close>

lemma lite_assembled:
  "assemble (LiteAccount_MAIN own operator) =
     [0x73] @ be_fixed 20 own @ from_hex lite_hex2 @ be_fixed 32 operator @ from_hex lite_hex3"
proof -
  define P where "P = LiteAccount_MAIN own operator"
  note labels = lite_labels [of own operator, folded P_def]
  have "assemble P = concat (map (op_bytes P) (LiteAccount_MAIN own operator))" by (simp add: assemble_def P_def)
  also have "\<dots> = [0x73] @ be_fixed 20 own @ from_hex lite_hex2 @ be_fixed 32 operator @ from_hex lite_hex3"
    by (simp add: LiteAccount_MAIN_def EDVERIFY_def lite_tail_def labels lite_bytes2 lite_bytes3 be_fixed_small lite_constants STORAGE_NONCE_def)
  finally show ?thesis by (simp only: P_def)
qed

lemma lite_init_bytes: "assemble lite_init = [0x60, 0x01, 0x5f, 0x55, 0x60, 0xec, 0x80, 0x60, 0x0d, 0x3d, 0x39, 0x3d, 0xf3]"
  by (simp add: assemble_def lite_init_def LiteAccount_CONSTRUCTOR_def deploy_stub_def be_fixed_small)

lemma length_lite_main: "length (assemble (LiteAccount_MAIN own operator)) = 0xec"
  unfolding lite_assembled lite_bytes2 lite_bytes3 by simp

lemma create_code_parts:
  assumes "length own = 20" and "length operator = 32"
  shows "create_code own operator = assemble lite_init @ assemble (LiteAccount_MAIN (be_value own) (be_value operator))"
proof -
  have "be_fixed 20 (be_value own) = own" "be_fixed 32 (be_value operator) = operator"
    using be_fixed_be_value [of own] be_fixed_be_value [of operator] assms by simp_all
  then show ?thesis by (simp add: create_code_def lite_assembled lite_init_bytes lite_bytes1)
qed

subsection \<open>Calls\<close>

lemma evm_call_more:
  assumes "evm_call n prog E stor = Some r" and "n \<le> m"
  shows "evm_call m prog E stor = Some r"
proof -
  obtain x where x: "run_vm n prog E (start_vm prog stor) = Some x"
    using assms(1) by (cases "run_vm n prog E (start_vm prog stor)") (simp_all add: evm_call_def)
  have "run_vm m prog E (start_vm prog stor) = Some x" using x assms(2) by (rule run_vm_more)
  with x assms(1) show ?thesis by (simp only: evm_call_def)
qed

lemma used_kept_refl: "used_kept stor stor"
  by (simp add: used_kept_def)

lemma used_kept_trans: "used_kept a b \<Longrightarrow> used_kept b c \<Longrightarrow> used_kept a c"
  by (simp add: used_kept_def)

lemma lite_spec_keeps:
  assumes "keeps_used E"
  shows "used_kept stor (fst (snd (lite_spec own operator E stor)))"
proof -
  have "used_kept stor (snd (snd (env_call E t 0 d (stor(lite_slot E := 1)))))" for t d
    using assms used_kept_trans [of stor "stor(lite_slot E := 1)"] by (auto simp: keeps_used_def used_kept_def)
  then show ?thesis
    by (auto simp: lite_spec_def Let_def finish_call_def used_kept_def split: prod.splits) (metis snd_conv)
qed

lemma lite_spec_calls:
  assumes "lite_spec own operator E stor = (r, stor', calls)" and "calls \<noteq> []" and "keeps_used E"
    and "lite_slot E \<noteq> STORAGE_ENABLED"
  shows "env_caller E \<noteq> own" "stor STORAGE_ENABLED \<noteq> 0" "stor (lite_slot E) = 0" "lite_signed operator E"
    "100 \<le> length (env_calldata E)"
    "calls = [(be_value (take 20 (drop 80 (env_calldata E))), 0, drop 100 (env_calldata E))]" "stor' (lite_slot E) \<noteq> 0"
proof -
  let ?t = "be_value (take 20 (drop 80 (env_calldata E)))" and ?d = "drop 100 (env_calldata E)"
  obtain ok rd st where c: "env_call E ?t 0 ?d (stor(lite_slot E := 1)) = (ok, rd, st)" by (metis prod_cases3)
  have all: "env_caller E \<noteq> own \<and> stor STORAGE_ENABLED \<noteq> 0 \<and> stor (lite_slot E) = 0 \<and> lite_signed operator E \<and>
      100 \<le> length (env_calldata E) \<and> stor' = st \<and> calls = [(?t, 0, ?d)]"
    using assms(1,2) by (simp add: lite_spec_def Let_def finish_call_def c [unfolded One_nat_def] split: if_splits)
  then show "env_caller E \<noteq> own" "stor STORAGE_ENABLED \<noteq> 0" "stor (lite_slot E) = 0" "lite_signed operator E"
    "100 \<le> length (env_calldata E)" "calls = [(?t, 0, ?d)]" by simp_all
  have "used_kept (stor(lite_slot E := 1)) st" using assms(3) c unfolding keeps_used_def by (metis snd_conv)
  with assms(4) all show "stor' (lite_slot E) \<noteq> 0" by (simp add: used_kept_def)
qed

lemma lite_history_keeps:
  assumes "\<forall>E\<in>set Es. env_ok E \<and> keeps_used E" and "stor k \<noteq> 0" and "k \<noteq> STORAGE_ENABLED"
    and "(E, r, calls) \<in> set (lite_history own operator Es stor)" and "calls \<noteq> []" and "lite_slot E \<noteq> STORAGE_ENABLED"
  shows "lite_slot E \<noteq> k"
  using assms
proof (induction Es arbitrary: stor)
  case (Cons F Fs)
  obtain r' stor' calls' where F: "lite_spec own operator F stor = (r', stor', calls')" by (metis prod_cases3)
  have run: "lite_history own operator (F # Fs) stor = (F, r', calls') # lite_history own operator Fs stor'"
    using lite_runs [of F own operator stor] Cons.prems(1) F by simp
  have "stor' k \<noteq> 0" using lite_spec_keeps [of F stor own operator] Cons.prems(1-3) F by (auto simp: used_kept_def)
  then have rest: "lite_slot E \<noteq> k" if "(E, r, calls) \<in> set (lite_history own operator Fs stor')"
    using Cons that by auto
  show ?case
  proof (cases "(E, r, calls) = (F, r', calls')")
    case True
    then show ?thesis using lite_spec_calls(3) [OF F] Cons.prems by auto
  next
    case False
    then show ?thesis using rest Cons.prems(4) unfolding run by auto
  qed
qed simp

lemma nonce_slots:
  assumes "nonce_hash h" and "env_sha3 E = h" "env_sha3 F = h"
  shows "lite_slot E \<noteq> STORAGE_ENABLED" "lite_nonce E = lite_nonce F \<longleftrightarrow> lite_slot E = lite_slot F"
  using assms by (auto simp: nonce_hash_def lite_slot_def lite_nonce_def)

lemma lite_history_Cons:
  assumes "env_ok E" and "lite_spec own operator E stor = (r, stor', calls)"
  shows "lite_history own operator (E # Es) stor = (E, r, calls) # lite_history own operator Es stor'"
  using lite_runs [OF assms(1), of own operator stor] assms(2) by simp

lemma lite_history_envs: "(E, r, calls) \<in> set (lite_history own operator Es stor) \<Longrightarrow> E \<in> set Es"
  by (induction Es arbitrary: stor) (auto split: option.splits)

lemma lite_history_calls:
  assumes "\<forall>E\<in>set Es. env_ok E \<and> keeps_used E \<and> env_sha3 E = h" and "nonce_hash h"
    and "(E, r, calls) \<in> set (lite_history own operator Es stor)" and "calls \<noteq> []"
  shows "env_caller E \<noteq> own \<and> lite_signed operator E \<and>
    calls = [(be_value (take 20 (drop 80 (env_calldata E))), 0, drop 100 (env_calldata E))]"
  using assms(1,3)
proof (induction Es arbitrary: stor)
  case (Cons F Fs)
  obtain r' stor' calls' where F: "lite_spec own operator F stor = (r', stor', calls')" by (metis prod_cases3)
  have run: "lite_history own operator (F # Fs) stor = (F, r', calls') # lite_history own operator Fs stor'"
    using lite_history_Cons [OF _ F] Cons.prems(1) by simp
  show ?case
  proof (cases "(E, r, calls) = (F, r', calls')")
    case True
    have "env_sha3 F = h" "keeps_used F" using Cons.prems(1) by simp_all
    with lite_spec_calls [OF F] nonce_slots(1) [OF assms(2), of F F] assms(4) True show ?thesis by simp
  next
    case False
    then show ?thesis using Cons unfolding run by auto
  qed
qed simp

lemma lite_history_distinct:
  assumes "\<forall>E\<in>set Es. env_ok E \<and> keeps_used E \<and> env_sha3 E = h" and "nonce_hash h"
  shows "distinct (map (\<lambda>(E, r, calls). lite_nonce E) (filter (\<lambda>(E, r, calls). calls \<noteq> []) (lite_history own operator Es stor)))"
  using assms(1)
proof (induction Es arbitrary: stor)
  case (Cons F Fs)
  obtain r stor' calls where F: "lite_spec own operator F stor = (r, stor', calls)" by (metis prod_cases3)
  have run: "lite_history own operator (F # Fs) stor = (F, r, calls) # lite_history own operator Fs stor'"
    using lite_history_Cons [OF _ F] Cons.prems by simp
  have "lite_nonce E \<noteq> lite_nonce F" if "calls \<noteq> []" "(E, r', calls') \<in> set (lite_history own operator Fs stor')" "calls' \<noteq> []" for E r' calls'
  proof -
    have ok: "env_sha3 E = h" "env_sha3 F = h" "keeps_used F" "\<forall>E\<in>set Fs. env_ok E \<and> keeps_used E"
      using lite_history_envs [OF that(2)] Cons.prems by simp_all
    note slot = nonce_slots [OF assms(2) ok(1,2)] nonce_slots(1) [OF assms(2) ok(2,2)]
    have "stor' (lite_slot F) \<noteq> 0" by (rule lite_spec_calls(7) [OF F that(1) ok(3) slot(3)])
    with lite_history_keeps [OF ok(4) _ slot(3) that(2,3) slot(1)] show ?thesis using slot(2) by blast
  qed
  then show ?case using Cons unfolding run by auto blast
qed simp

lemma ref_nonce_hash: "nonce_hash (\<lambda>d. 2 + be_value d)"
  by (auto simp: nonce_hash_def STORAGE_ENABLED_def be_value_inj)

lemma ref_keeps_used: "keeps_used (ref_machine cd)"
  by (simp add: keeps_used_def ref_machine_def used_kept_def)

section \<open>Properties\<close>

text \<open>
  C22. The safety router ends on every input within fifty instructions, and does what it is
  for: it refuses a target whose code is not the expected one, and otherwise makes exactly one
  call, without value, of the target with the rest of the data, and hands the result on.
\<close>

theorem router_halts:
  assumes "env_ok E" and "50 \<le> fuel"
  shows "evm_call fuel SafetyRouter_MAIN E stor = Some (router_spec E stor)"
  using router_runs [OF assms(1)] assms(2) by (rule evm_call_more)

theorem router_halts_witness:
  "evm_call 1000 SafetyRouter_MAIN (ref_machine (be_fixed 32 5 @ [1, 2])) (\<lambda>_. 0) =
     Some (EvmReturn [], \<lambda>_. 0, [(5, 0, [1, 2])])"
  using router_halts [OF ref_machine_ok [of "be_fixed 32 5 @ [1, 2]"], of 1000 "\<lambda>_. 0"]
  by (simp add: router_spec_def Let_def ref_machine_def finish_call_def addr_of_def slice_def)

text \<open>
  C5. The light account is exactly its specification, for every owner, operator, caller,
  calldata and storage: it ends within 130 instructions, the owner can only switch it on and
  off, and anybody else reaches the call only with an unused nonce and the operator's signature
  over the account, the nonce, the target and the data.
\<close>

theorem lite_account_exact:
  assumes "env_ok E" and "130 \<le> fuel"
  shows "evm_call fuel (LiteAccount_MAIN own operator) E stor = Some (lite_spec own operator E stor)"
  using lite_runs [OF assms(1)] assms(2) by (rule evm_call_more)

theorem lite_account_exact_witness:
  "evm_call 200 (LiteAccount_MAIN 7 9) (ref_machine (zeros 80 @ be_fixed 20 5 @ [1, 2])) (\<lambda>k. if k = 0 then 1 else 0) =
     Some (EvmReturn [], (\<lambda>k. if k = 0 then 1 else 0)(2 + be_value (1 # zeros 16) := 1), [(5, 0, [1, 2])])"
  using lite_account_exact [OF ref_machine_ok [of "zeros 80 @ be_fixed 20 5 @ [1, 2]"], of 200 7 9 "\<lambda>k. if k = 0 then 1 else 0"]
  by (simp add: lite_spec_def Let_def ref_machine_def finish_call_def lite_slot_def lite_signed_def STORAGE_ENABLED_def slice_def
      zeros_def)

text \<open>
  C8. The life of a light account: every call of it ends; whenever it calls a contract, the
  caller was not the owner, the operator had signed that very target and data for that account
  and nonce, and it made no other call; and no nonce is ever used for two calls, whatever the
  contracts it calls do in between, as long as a used nonce stays used.
\<close>

theorem lite_replay:
  assumes "\<forall>E\<in>set Es. env_ok E \<and> keeps_used E \<and> env_sha3 E = h" and "nonce_hash h"
  shows "map fst (lite_history own operator Es stor) = Es \<and>
    (\<forall>(E, r, calls)\<in>set (lite_history own operator Es stor). calls \<noteq> [] \<longrightarrow>
      env_caller E \<noteq> own \<and> lite_signed operator E \<and>
      calls = [(be_value (take 20 (drop 80 (env_calldata E))), 0, drop 100 (env_calldata E))]) \<and>
    distinct (map (\<lambda>(E, r, calls). lite_nonce E) (filter (\<lambda>(E, r, calls). calls \<noteq> []) (lite_history own operator Es stor)))"
proof (intro conjI)
  show "map fst (lite_history own operator Es stor) = Es"
    using assms(1)
  proof (induction Es arbitrary: stor)
    case (Cons F Fs)
    obtain r stor' calls where "lite_spec own operator F stor = (r, stor', calls)" by (metis prod_cases3)
    then show ?case using lite_history_Cons [of F own operator stor r stor' calls Fs] Cons by (simp del: lite_history.simps)
  qed simp
qed (use lite_history_calls [OF assms, where stor = stor] lite_history_distinct [OF assms] in blast)+

theorem lite_replay_witness:
  "\<exists>r. lite_history 7 9 (replicate 2 (ref_machine (zeros 80 @ be_fixed 20 5 @ [1, 2]))) (\<lambda>k. if k = 0 then 1 else 0) =
     [(ref_machine (zeros 80 @ be_fixed 20 5 @ [1, 2]), EvmReturn [], [(5, 0, [1, 2])]),
      (ref_machine (zeros 80 @ be_fixed 20 5 @ [1, 2]), r, [])]"
proof -
  define M where "M = ref_machine (zeros 80 @ be_fixed 20 5 @ [1, 2])"
  define st :: evm_storage where "st = (\<lambda>k. if k = 0 then 1 else 0)"
  have M: "env_ok M" "keeps_used M" unfolding M_def by (simp_all add: ref_machine_ok ref_keeps_used)
  have sha: "env_sha3 M = (\<lambda>d. 2 + be_value d)" by (simp add: M_def ref_machine_def)
  obtain stor' where "lite_spec 7 9 M st = (EvmReturn [], stor', [(5, 0, [1, 2])])"
    by (simp add: lite_spec_def Let_def M_def st_def ref_machine_def finish_call_def lite_slot_def lite_signed_def STORAGE_ENABLED_def slice_def)
  note first = lite_history_Cons [OF M(1) this]
  obtain r s2 calls where "lite_spec 7 9 M stor' = (r, s2, calls)" by (metis prod_cases3)
  note second = lite_history_Cons [OF M(1) this]
  have H: "lite_history 7 9 [M, M] st = [(M, EvmReturn [], [(5, 0, [1, 2])]), (M, r, calls)]"
    unfolding first second by simp
  have "calls = []"
    using lite_replay [of "[M, M]" "\<lambda>d. 2 + be_value d" 7 9 st] M sha ref_nonce_hash unfolding H by (auto split: if_splits)
  with H show ?thesis by (auto simp: M_def st_def numeral_2_eq_2)
qed

text \<open>
  C13. The factory deploys the contract of \<^verbatim>\<open>LiteAccount.huff\<close>: the bytes it packs around an owner
  and an operator are the compiled constructor followed by the compiled contract for that owner
  and operator; running them leaves an account that is switched on and whose code is that contract.
\<close>

theorem factory_deploys:
  assumes "length own = 20" and "length operator = 32" and "env_code E = create_code own operator"
  shows "create_code own operator = assemble lite_init @ assemble (LiteAccount_MAIN (be_value own) (be_value operator)) \<and>
    evm_call 20 lite_init E (\<lambda>_. 0) =
      Some (EvmReturn (assemble (LiteAccount_MAIN (be_value own) (be_value operator))), (\<lambda>_. 0)(STORAGE_ENABLED := 1), [])"
proof
  let ?m = "assemble (LiteAccount_MAIN (be_value own) (be_value operator))"
  show parts: "create_code own operator = assemble lite_init @ ?m" using assms(1,2) by (rule create_code_parts)
  note len = length_lite_main [of "be_value own" "be_value operator"]
  define P where "P = lite_init"
  have "slice 13 0xec (env_code E) = ?m" using len by (simp add: slice_def lite_init_bytes assms(3) parts)
  moreover have "slice 0 0xec ?m = ?m" using slice_all [of ?m] len by simp
  ultimately have "\<exists>s. run_vm 20 P E (start_vm lite_init (\<lambda>_. 0)) = Some (EvmReturn ?m, s) \<and>
      (vm_stor s, vm_calls s) = ((\<lambda>_. 0)(STORAGE_ENABLED := 1), [])"
    using len by (simp add: start_vm_def lite_init_def LiteAccount_CONSTRUCTOR_def deploy_stub_def vm_simps splice_front)
  then show "evm_call 20 lite_init E (\<lambda>_. 0) = Some (EvmReturn ?m, (\<lambda>_. 0)(STORAGE_ENABLED := 1), [])"
    unfolding P_def by (auto simp: evm_call_def)
qed

theorem factory_deploys_witness:
  "evm_call 20 lite_init (ref_machine []\<lparr>env_code := create_code (replicate 20 1) (replicate 32 2)\<rparr>) (\<lambda>_. 0) =
     Some (EvmReturn (assemble (LiteAccount_MAIN (be_value (replicate 20 1)) (be_value (replicate 32 2)))),
       (\<lambda>_. 0)(STORAGE_ENABLED := 1), [])"
  by (rule factory_deploys [THEN conjunct2]) simp_all

end
