(* ===== verification/Cli.thy ===== *)
theory Cli
  imports Signer Lite
begin

text \<open>
  The command-line program \<^verbatim>\<open>accounts-cli\<close>: each of its commands as a function from what was
  parsed and the standard input to the line it prints. Parsing of the command line is \<^verbatim>\<open>clap\<close>'s;
  the types the program parses itself are modelled. The lemmas follow what it prints to the
  contracts: a signed batch to the account, a signed call to the light account.
\<close>

section \<open>Arguments\<close>

type_synonym u128 = "128 word"

text \<open>\<^verbatim>\<open>trim_start_matches("0x")\<close> takes the prefix away as often as it is there.\<close>

fun trim_start_0x :: "string \<Rightarrow> string" where
  "trim_start_0x (a # b # s) = (if a = CHR ''0'' \<and> b = CHR ''x'' then trim_start_0x s else a # b # s)"
| "trim_start_0x s = s"

abbreviation ErrArgsBytes :: string where
  "ErrArgsBytes \<equiv> ''args from str err''"

definition ArgsBytes_from_str :: "dalek \<Rightarrow> string \<Rightarrow> string + bytes" where
  "ArgsBytes_from_str D s = (case const_hex_decode D (trim_start_0x s) of Inl e \<Rightarrow> Inl ErrArgsBytes | Inr b \<Rightarrow> Inr b)"

definition ArgsSig_from_str :: "dalek \<Rightarrow> string \<Rightarrow> string + Sig" where
  "ArgsSig_from_str D s = (case const_hex_decode_to_array D 64 (trim_start_0x s) of Inl e \<Rightarrow> Inl ErrArgsBytes | Inr b \<Rightarrow> Inr b)"

definition ArgsMsTsSmall_from_str :: "dalek \<Rightarrow> string \<Rightarrow> string + bytes" where
  "ArgsMsTsSmall_from_str D s = (case const_hex_decode_to_array D 6 (trim_start_0x s) of Inl e \<Rightarrow> Inl ErrArgsBytes | Inr b \<Rightarrow> Inr b)"

datatype CliArgs =
    PubKeyForPriv word32
  | SignFreshBackwards word32 Address u8 word32 word32 "SolveArgs list option" "Address option"
  | SignSolve word32 "SolveArgs list"
  | SignTokenSpend word32 Asset word32 Address u128 bytes
  | DecodeBorsh
  | LiteArbitraryCd word32 u128 Address Address bytes
  | Version
  | Statement bytes bytes Sig

section \<open>Commands\<close>

definition println :: "string \<Rightarrow> string" where
  "println s = s @ [CHR 10]"

definition create_blob :: "dalek \<Rightarrow> bytes \<Rightarrow> string" where
  "create_blob D x = const_hex_encode D x"

definition u128_be_bytes :: "u128 \<Rightarrow> bytes" where
  "u128_be_bytes w = be_fixed 16 (unat w)"

text \<open>The signature of each entry of a batch over its encoding.\<close>

definition sign_one :: "dalek \<Rightarrow> sdk \<Rightarrow> bytes \<Rightarrow> SolveArgs \<Rightarrow> SolveArgsSigArgs res" where
  "sign_one D S k args =
     bindR (unwrap_some (to_vec S (WireSolveArgs args))) (\<lambda>b.
     bindR (unwrap_ok (sign_prehashed D k (sha512 b))) (\<lambda>sig.
     Ok \<lparr>sas_Sig = sig, sas_Args = args\<rparr>))"

fun sign_all :: "dalek \<Rightarrow> sdk \<Rightarrow> bytes \<Rightarrow> SolveArgs list \<Rightarrow> SolveArgsSigArgs list res" where
  "sign_all D S k [] = Ok []"
| "sign_all D S k (a # as) = bindR (sign_one D S k a) (\<lambda>x. bindR (sign_all D S k as) (\<lambda>xs. Ok (x # xs)))"

definition sign_solve :: "dalek \<Rightarrow> sdk \<Rightarrow> bytes \<Rightarrow> SolveArgs list \<Rightarrow> string res" where
  "sign_solve D S priv_key solve_args =
     bindR (sign_all D S priv_key solve_args) (\<lambda>args.
     bindR (unwrap_some (to_vec S (WireRequest (SolveReq args)))) (\<lambda>b.
     Ok (println (''0x'' @ create_blob D b))))"

text \<open>
  The commands. Borsh's \<^verbatim>\<open>try_from_slice\<close>, which unlike the contract's reader refuses bytes that are
  left over, and \<^verbatim>\<open>debug\<close>, the derived formatting of a request, which the program only prints, are
  parameters.
\<close>

fun cli_entry :: "dalek \<Rightarrow> sdk \<Rightarrow> (bytes \<Rightarrow> string + request) \<Rightarrow> (request \<Rightarrow> string) \<Rightarrow> string \<Rightarrow> CliArgs \<Rightarrow> string res" where
  "cli_entry D S try_from_slice debug inp (PubKeyForPriv priv_key) = Ok (println (const_hex_encode D (verifying_key D priv_key)))"
| "cli_entry D S try_from_slice debug inp (SignFreshBackwards priv_key eoa_addr v r s solve_args authority) =
     bindR (sign_all D S priv_key (case solve_args of None \<Rightarrow> [] | Some args \<Rightarrow> args)) (\<lambda>args.
     bindR (unwrap_some (to_vec S (WireRequest (FreshBackwardsReq
       \<lparr>fb_Key = verifying_key D priv_key, fb_EoaAddr = eoa_addr, fb_V = v, fb_R = r, fb_S = s,
        fb_SolveArgs = args, fb_Authority = authority\<rparr>)))) (\<lambda>b.
     Ok (println (create_blob D b))))"
| "cli_entry D S try_from_slice debug inp (SignSolve priv_key solve_args) = sign_solve D S priv_key solve_args"
| "cli_entry D S try_from_slice debug inp (SignTokenSpend priv_key from_asset min_spend target ms_ts cd) =
     sign_solve D S priv_key [\<lparr>sa_Permit = [],
       sa_From = [\<lparr>from_Asset = from_asset, from_ToTake = min_spend, from_MaxUnspent = min_spend\<rparr>],
       sa_Target = target, sa_Cd = cd, sa_MsTs = u128_be_bytes ms_ts\<rparr>]"
| "cli_entry D S try_from_slice debug inp DecodeBorsh =
     bindR (unwrap_ok (const_hex_decode D inp)) (\<lambda>b.
     bindR (unwrap_ok (try_from_slice b)) (\<lambda>req. Ok (println (debug req))))"
| "cli_entry D S try_from_slice debug inp (LiteArbitraryCd priv_key nonce contract target cd) =
     bindR (unwrap_ok (sign_prehashed D priv_key (sha512 (contract @ u128_be_bytes nonce @ target @ cd)))) (\<lambda>sig.
     Ok (println (const_hex_encode D sig @ const_hex_encode D (u128_be_bytes nonce) @ const_hex_encode D target @
       const_hex_encode D cd)))"
| "cli_entry D S try_from_slice debug inp Version =
     bindR (unwrap_some (to_vec S (WireRequest VersionReq))) (\<lambda>b. Ok (println (const_hex_encode D b)))"
| "cli_entry D S try_from_slice debug inp (Statement msg ms_ts sig) =
     bindR (unwrap_some (to_vec S (WireRequest (StatementReq \<lparr>sta_Msg = msg, sta_MsTs = ms_ts\<rparr> sig)))) (\<lambda>b.
     Ok (println (const_hex_encode D b)))"

section \<open>Documented behaviour\<close>

text \<open>Borsh, on the contract's side: a request is written, and read back as it was.\<close>

definition borsh_reads :: "sdk \<Rightarrow> request \<Rightarrow> bool" where
  "borsh_reads S req \<longleftrightarrow> (\<exists>b. to_vec S (WireRequest req) = Some b \<and> request_of S b = Some req)"

text \<open>The precompiles of the chain: the hash, and the verifier of signatures over it.\<close>

definition precompiles_ok :: "dalek \<Rightarrow> evm_env \<Rightarrow> bool" where
  "precompiles_ok D E \<longleftrightarrow> (\<forall>m. env_static E ADDR_SHA512 m = (True, sha512 m)) \<and>
     (\<forall>k m sig. length k = 32 \<longrightarrow> sign_prehashed D k (sha512 m) = Inr sig \<longrightarrow>
        fst (env_static E ADDR_EDVERIFY (sha512 m @ verifying_key D k @ sig)))"

section \<open>An instance\<close>

definition cli_sdk :: sdk where
  "cli_sdk = ref_sdk\<lparr>Args_deserialize := (\<lambda>bs. case bs of
       [] \<Rightarrow> Inl ''Unexpected length of input''
     | t # r \<Rightarrow> if t = 1 then (case dec_vec dec_SolveArgsSigArgs r of
           Some (args, []) \<Rightarrow> Inr (SolveReq args)
         | _ \<Rightarrow> Inl ''Unexpected length of input'')
       else Args_deserialize ref_sdk bs)\<rparr>"

definition ref_try_from_slice :: "bytes \<Rightarrow> string + request" where
  "ref_try_from_slice b = (if b = [2] then Inr VersionReq else Inl ''Not all bytes read'')"

definition cli_machine :: "bytes \<Rightarrow> evm_env" where
  "cli_machine cd = (ref_machine cd)\<lparr>env_static := (\<lambda>a d. (True, if a = ADDR_SHA512 then sha512 d else []))\<rparr>"

section \<open>Lemmas\<close>

lemma sign_one_Ok:
  assumes "dalek_ok D S" and "length k = 32" and "sign_one D S k a = Ok x"
  shows "sas_Args x = a \<and> length (sas_Sig x) = 64 \<and> verified S (verifying_key D k) (WireSolveArgs a) (sas_Sig x)"
  using assms(3) dalek_okD(6) [OF assms(1,2)] dalek_okD(5) [OF assms(1,2) length_sha512]
  by (auto simp: sign_one_def verified_def unwrap_some_def unwrap_ok_def split: option.splits sum.splits) (metis sum.inject(2))

lemma sign_all_Ok:
  assumes "dalek_ok D S" and "length k = 32" and "sign_all D S k as = Ok xs"
  shows "map sas_Args xs = as \<and> list_all (\<lambda>x. length (sas_Sig x) = 64) xs \<and> authorised S (verifying_key D k) (SolveReq xs)"
  using assms(3)
proof (induction as arbitrary: xs)
  case (Cons a as)
  then show ?case using sign_one_Ok [OF assms(1,2)] by auto
qed simp

lemma sign_all_runs:
  assumes "dalek_ok D S" and "length k = 32" and "list_all (\<lambda>a. to_vec S (WireSolveArgs a) \<noteq> None) as"
  shows "\<exists>xs. sign_all D S k as = Ok xs"
  using assms(3)
proof (induction as)
  case (Cons a as)
  obtain b where b: "to_vec S (WireSolveArgs a) = Some b" using Cons.prems by auto
  obtain sig where "sign_prehashed D k (sha512 b) = Inr sig" using dalek_okD(5) [OF assms(1,2), of "sha512 b"] by auto
  with b Cons show ?case by (auto simp: sign_one_def)
qed simp

lemma u128_be_bytes [simp]: "length (u128_be_bytes w) = 16"
  by (simp add: u128_be_bytes_def)

text \<open>A request for a light account, laid out as the account reads it.\<close>

lemma lite_request:
  assumes "length sig = 64" and "length nonce = 16" and "length target = 20" and "cd' = sig @ nonce @ target @ cd"
  shows "take 64 cd' = sig" "drop 64 cd' = nonce @ target @ cd" "slice 64 16 cd' = nonce" "take 20 (drop 80 cd') = target"
    "drop 100 cd' = cd" "100 \<le> length cd'"
  using assms by (simp_all add: slice_def)

lemma not_migrate: "1 # x \<noteq> replicate 4 (255 :: u8)"
proof
  assume "1 # x = replicate 4 (255 :: u8)"
  then have "hd (1 # x) = hd (replicate 4 (255 :: u8))" by (rule arg_cong)
  then show False by simp
qed

lemma cli_sdk_reads:
  assumes "list_all bw_SolveArgsSigArgs args" and "small args"
  shows "borsh_reads cli_sdk (SolveReq args)"
  using sass_c.dec_enc_end [of args] assms
  by (simp add: borsh_reads_def request_of_def cli_sdk_def ref_sdk_def not_migrate)

lemma cli_to_vec: "to_vec cli_sdk = ref_to_vec"
  by (simp add: cli_sdk_def ref_sdk_def)

lemma cli_dalek_ok: "dalek_ok ref_dalek cli_sdk"
  using ref_dalek_ok by (simp add: dalek_ok_def cli_sdk_def)

lemma cli_machine_ok: "length cd < 2 ^ 64 \<Longrightarrow> env_ok (cli_machine cd) \<and> precompiles_ok ref_dalek (cli_machine cd)"
  by (auto simp: env_ok_def precompiles_ok_def cli_machine_def ref_machine_def)

section \<open>Properties\<close>

text \<open>
  C14. What the command for signing a batch prints is a request the account takes: the command
  succeeds, the line is the hex of bytes the contract reads as that batch, and every entry
  carries a signature that counts as one of the account's key when that key belongs to the one
  given; the command for spending a token prints such a batch of one entry that takes the given amount.
\<close>

theorem cli_solve_authorised:
  assumes "dalek_ok D S" and "length k = 32" and "list_all (\<lambda>a. to_vec S (WireSolveArgs a) \<noteq> None) args"
    and "\<And>xs. map sas_Args xs = args \<Longrightarrow> list_all (\<lambda>x. length (sas_Sig x) = 64) xs \<Longrightarrow> borsh_reads S (SolveReq xs)"
    and "c = SignSolve k args \<or> c = SignTokenSpend k asset spend target ts cd \<and>
      args = [\<lparr>sa_Permit = [], sa_From = [\<lparr>from_Asset = asset, from_ToTake = spend, from_MaxUnspent = spend\<rparr>],
        sa_Target = target, sa_Cd = cd, sa_MsTs = u128_be_bytes ts\<rparr>]"
  shows "\<exists>b xs. cli_entry D S try_from_slice debug inp c = Ok (''0x'' @ hex_encode b @ [CHR 10]) \<and> request_of S b = Some (SolveReq xs) \<and>
    map sas_Args xs = args \<and> authorised S (verifying_key D k) (SolveReq xs)"
proof -
  obtain xs where xs: "sign_all D S k args = Ok xs" using sign_all_runs [OF assms(1-3)] by blast
  note signed = sign_all_Ok [OF assms(1,2) xs]
  then obtain b where b: "to_vec S (WireRequest (SolveReq xs)) = Some b" "request_of S b = Some (SolveReq xs)"
    using assms(4) [of xs] unfolding borsh_reads_def by blast
  have "cli_entry D S try_from_slice debug inp c = sign_solve D S k args" using assms(5) by auto
  then have "cli_entry D S try_from_slice debug inp c = Ok (''0x'' @ hex_encode b @ [CHR 10])"
    by (simp add: sign_solve_def xs b println_def create_blob_def dalek_okD(2) [OF assms(1)])
  with b signed show ?thesis by blast
qed

theorem cli_solve_authorised_witness:
  "\<exists>b xs. cli_entry ref_dalek cli_sdk ref_try_from_slice (\<lambda>_. []) [] (SignTokenSpend (replicate 32 3) 0 (zeros 32) (replicate 20 1) 7 [1, 2]) =
       Ok (''0x'' @ hex_encode b @ [CHR 10]) \<and>
     request_of cli_sdk b = Some (SolveReq xs) \<and> authorised cli_sdk (replicate 32 4) (SolveReq xs)"
proof -
  let ?a = "\<lparr>sa_Permit = [], sa_From = [\<lparr>from_Asset = 0, from_ToTake = zeros 32, from_MaxUnspent = zeros 32\<rparr>],
    sa_Target = replicate 20 1, sa_Cd = [1, 2], sa_MsTs = u128_be_bytes 7\<rparr>"
  let ?c = "SignTokenSpend (replicate 32 3) 0 (zeros 32) (replicate 20 1) 7 [1, 2]"
  have "borsh_reads cli_sdk (SolveReq xs)" if "map sas_Args xs = [?a]" "list_all (\<lambda>x. length (sas_Sig x) = 64) xs" for xs
  proof -
    note h = that
    obtain x where "xs = [x]" "sas_Args x = ?a" "length (sas_Sig x) = 64" using h by (auto simp: map_eq_Cons_conv)
    then show ?thesis
      by (intro cli_sdk_reads) (simp_all add: bw_SolveArgsSigArgs_def bw_SolveArgs_def wf_SolveArgs_def wf_FromArgs_def small_def)
  qed
  moreover have "to_vec cli_sdk (WireSolveArgs ?a) \<noteq> None" by (simp add: cli_to_vec)
  ultimately show ?thesis
    using cli_solve_authorised [OF cli_dalek_ok, of "replicate 32 3" "[?a]" ?c 0 "zeros 32" "replicate 20 1" 7 "[1, 2]" ref_try_from_slice "\<lambda>_. []" "[]"]
    by (auto simp: ref_dalek_def simp del: cli_entry.simps)
qed

text \<open>
  C15. The command for a light account succeeds and prints a request the light account runs: with
  the calldata it prints, at the address it was made for, the contract whose operator is the
  given key's public half calls exactly the given target with the given data, when it is
  switched on, the caller is not its owner and the nonce is unused.
\<close>

theorem cli_lite_accepted:
  assumes "dalek_ok D S" and "length k = 32" and "length contract = 20" and "length target = 20"
  shows "\<exists>d. cli_entry D S try_from_slice debug inp (LiteArbitraryCd k nonce contract target cd) = Ok (hex_encode d @ [CHR 10]) \<and>
    (\<forall>E stor own. env_calldata E = d \<longrightarrow> env_ok E \<longrightarrow> precompiles_ok D E \<longrightarrow> env_address E = be_value contract \<longrightarrow>
      env_caller E \<noteq> own \<longrightarrow> stor STORAGE_ENABLED \<noteq> 0 \<longrightarrow> stor (env_sha3 E (1 # u128_be_bytes nonce)) = 0 \<longrightarrow>
      evm_call 130 (LiteAccount_MAIN own (be_value (verifying_key D k))) E stor =
        Some (finish_call (env_call E (be_value target) 0 cd (stor(env_sha3 E (1 # u128_be_bytes nonce) := 1))) stor
          (be_value target, 0, cd)))"
proof -
  let ?m = "contract @ u128_be_bytes nonce @ target @ cd"
  obtain sig where sig: "sign_prehashed D k (sha512 ?m) = Inr sig" and len: "length sig = 64"
    using dalek_okD(5) [OF assms(1,2), of "sha512 ?m"] by auto
  then have out: "cli_entry D S try_from_slice debug inp (LiteArbitraryCd k nonce contract target cd) =
      Ok (hex_encode (sig @ u128_be_bytes nonce @ target @ cd) @ [CHR 10])"
    by (simp add: println_def dalek_okD(2) [OF assms(1)])
  define d where "d = sig @ u128_be_bytes nonce @ target @ cd"
  note parts = lite_request [OF len u128_be_bytes assms(4) d_def]
  have runs: "evm_call 130 (LiteAccount_MAIN own (be_value (verifying_key D k))) E stor =
      Some (finish_call (env_call E (be_value target) 0 cd (stor(env_sha3 E (1 # u128_be_bytes nonce) := 1))) stor (be_value target, 0, cd))"
    if "env_calldata E = d" "env_ok E" "precompiles_ok D E" "env_address E = be_value contract" "env_caller E \<noteq> own"
      "stor STORAGE_ENABLED \<noteq> 0" "stor (env_sha3 E (1 # u128_be_bytes nonce)) = 0" for E stor own
  proof -
    have slot: "lite_slot E = env_sha3 E (1 # u128_be_bytes nonce)" by (simp add: lite_slot_def that(1) parts(3))
    have "be_fixed 20 (be_value contract) = contract" "be_fixed 32 (be_value (verifying_key D k)) = verifying_key D k"
      using assms(3) dalek_okD(4) [OF assms(1,2)] by (simp_all add: be_fixed_be_value)
    moreover have "fst (env_static E ADDR_EDVERIFY (sha512 ?m @ verifying_key D k @ sig))" "env_static E ADDR_SHA512 ?m = (True, sha512 ?m)"
      using that(3) assms(2) sig by (simp_all add: precompiles_ok_def)
    ultimately have "lite_signed (be_value (verifying_key D k)) E"
      by (simp add: lite_signed_def that(1,4) parts(1,2))
    then show ?thesis
      using lite_runs [OF that(2)] that(5-7) parts(4-6) by (simp add: lite_spec_def Let_def slot that(1))
  qed
  show ?thesis by (rule exI [of _ d], intro conjI allI impI; (rule out [folded d_def] | erule (6) runs))
qed

theorem cli_lite_accepted_witness:
  "\<exists>d. cli_entry ref_dalek ref_sdk ref_try_from_slice (\<lambda>_. []) [] (LiteArbitraryCd (replicate 32 3) 7 (be_fixed 20 1) (be_fixed 20 5) [1, 2]) =
       Ok (hex_encode d @ [CHR 10]) \<and>
     evm_call 130 (LiteAccount_MAIN 9 (be_value (replicate 32 4))) (cli_machine d) (\<lambda>k. if k = 0 then 1 else 0) =
       Some (EvmReturn [], (\<lambda>k. if k = 0 then 1 else 0)(2 + be_value (1 # u128_be_bytes 7) := 1), [(5, 0, [1, 2])])"
proof -
  let ?c = "LiteArbitraryCd (replicate 32 3) 7 (be_fixed 20 1) (be_fixed 20 5) [1, 2]"
  define st :: evm_storage where "st = (\<lambda>k. if k = 0 then 1 else 0)"
  obtain d where d: "cli_entry ref_dalek ref_sdk ref_try_from_slice (\<lambda>_. []) [] ?c = Ok (hex_encode d @ [CHR 10])"
    "\<And>E stor own. env_calldata E = d \<Longrightarrow> env_ok E \<Longrightarrow> precompiles_ok ref_dalek E \<Longrightarrow> env_address E = be_value (be_fixed 20 1) \<Longrightarrow>
      env_caller E \<noteq> own \<Longrightarrow> stor STORAGE_ENABLED \<noteq> 0 \<Longrightarrow> stor (env_sha3 E (1 # u128_be_bytes 7)) = 0 \<Longrightarrow>
      evm_call 130 (LiteAccount_MAIN own (be_value (verifying_key ref_dalek (replicate 32 3)))) E stor =
        Some (finish_call (env_call E (be_value (be_fixed 20 5)) 0 [1, 2] (stor(env_sha3 E (1 # u128_be_bytes 7) := 1))) stor
          (be_value (be_fixed 20 5), 0, [1, 2]))"
    using cli_lite_accepted [OF ref_dalek_ok, of "replicate 32 3" "be_fixed 20 1" "be_fixed 20 5" ref_try_from_slice "\<lambda>_. []" "[]" 7 "[1, 2]"] by auto
  have "length out = 205" if "cli_entry ref_dalek ref_sdk ref_try_from_slice (\<lambda>_. []) [] ?c = Ok out" for out
    using that by (auto simp: ref_dalek_def println_def)
  from this [OF d(1)] have "length d < 2 ^ 64" by simp
  then have M: "env_ok (cli_machine d)" "precompiles_ok ref_dalek (cli_machine d)" using cli_machine_ok [of d] by simp_all
  have "evm_call 130 (LiteAccount_MAIN 9 (be_value (replicate 32 4))) (cli_machine d) st =
      Some (EvmReturn [], st(2 + be_value (1 # u128_be_bytes 7) := 1), [(5, 0, [1, 2])])"
    using d(2) [of "cli_machine d" 9 st] M
    by (simp add: cli_machine_def ref_machine_def st_def STORAGE_ENABLED_def finish_call_def ref_dalek_def)
  with d(1) show ?thesis unfolding st_def by blast
qed

end
