(* ===== verification/Solidity.thy ===== *)
theory Solidity
  imports AccountLife
begin

text \<open>
  The Solidity contracts: the authority an account can be bound to (\<^verbatim>\<open>sol/Authority9lives.sol\<close>),
  the proxy an account can live in (\<^verbatim>\<open>sol/UpgradeableProxy.sol\<close>), the contract that spreads a
  payment (\<^verbatim>\<open>sol/MassSendArbitrum.sol\<close>), and the clearinghouse, which is written in Rust
  (\<^verbatim>\<open>contract-clearinghouse\<close>). A call that reverts is an error and changes nothing.
\<close>

section \<open>The authority\<close>

record authority =
  au_version :: nat
  au_operator :: Address
  au_factory :: Address
  au_allowed :: "bytes \<Rightarrow> bool"
  au_Registered :: "(bytes \<times> bool) list"

definition authority_new :: authority where
  "authority_new = \<lparr>au_version = 0, au_operator = zeros 20, au_factory = zeros 20, au_allowed = (\<lambda>_. False), au_Registered = []\<rparr>"

definition authority_init :: "Address \<Rightarrow> Address \<Rightarrow> authority \<Rightarrow> authority res" where
  "authority_init own factory a =
     (if au_version a \<noteq> 0 then Err ''already initialised''
      else Ok (a\<lparr>au_operator := own, au_factory := factory, au_version := 1\<rparr>))"

definition authority_register :: "Address \<Rightarrow> bytes \<Rightarrow> bool \<Rightarrow> authority \<Rightarrow> authority res" where
  "authority_register sender hash allowed a =
     (if sender \<noteq> au_operator a then Err ''not operator''
      else Ok (a\<lparr>au_Registered := au_Registered a @ [(hash, allowed)], au_allowed := (au_allowed a)(hash := allowed)\<rparr>))"

text \<open>What the factory answers, its address and the getter given, is the factory's.\<close>

datatype factory_getter = dppmTradingHash | ammTradingHash

definition authority_scan :: "(Address \<Rightarrow> factory_getter \<Rightarrow> bytes res) \<Rightarrow> Address \<Rightarrow> authority \<Rightarrow> authority res" where
  "authority_scan factory_call sender a =
     bindR (factory_call (au_factory a) dppmTradingHash) (\<lambda>h.
     bindR (authority_register sender h True a) (\<lambda>a.
     bindR (factory_call (au_factory a) ammTradingHash) (\<lambda>h.
     authority_register sender h True a)))"

text \<open>The calls of an authority; a scan carries what the factory answered it, which may differ from one scan to the next.\<close>

datatype authority_op = AuInit Address Address | AuRegister bytes bool | AuScan "Address \<Rightarrow> factory_getter \<Rightarrow> bytes res"

fun authority_step :: "Address \<times> authority_op \<Rightarrow> authority \<Rightarrow> authority" where
  "authority_step (sender, op) a =
     (case (case op of
         AuInit own factory \<Rightarrow> authority_init own factory a
       | AuRegister hash allowed \<Rightarrow> authority_register sender hash allowed a
       | AuScan answers \<Rightarrow> authority_scan answers sender a) of
        Ok a' \<Rightarrow> a' | _ \<Rightarrow> a)"

definition authority_run :: "(Address \<times> authority_op) list \<Rightarrow> authority" where
  "authority_run ops = fold authority_step ops authority_new"

text \<open>The calls by which an operator allows a hash.\<close>

definition allows :: "Address \<Rightarrow> bytes \<Rightarrow> authority_op \<Rightarrow> bool" where
  "allows factory hash op \<longleftrightarrow>
     (case op of AuInit own f \<Rightarrow> False | AuRegister h b \<Rightarrow> h = hash \<and> b | AuScan answers \<Rightarrow> \<exists>g. answers factory g = Ok hash)"

definition operator_allowed :: "(Address \<times> authority_op) list \<Rightarrow> bytes \<Rightarrow> bool" where
  "operator_allowed ops hash \<longleftrightarrow>
     (\<exists>op. (au_operator (authority_run ops), op) \<in> set ops \<and> allows (au_factory (authority_run ops)) hash op)"

text \<open>
  The solves of a request, and that each of them was vetted: among the calls of the account, after
  those before, comes a question to the authority about the code its target has at that moment,
  the answer to which was yes, and at once after it the call of the target; then the next solve.
\<close>

fun solves_of :: "request \<Rightarrow> SolveArgs list" where
  "solves_of (SolveReq args) = map sas_Args args"
| "solves_of (SolveV2Req args sig) = v2a_Args args"
| "solves_of (SolveV3Req args sig) = v3a_Args args"
| "solves_of req = []"

definition vetted_call :: "sdk \<Rightarrow> Address \<Rightarrow> ext list \<Rightarrow> SolveArgs \<Rightarrow> ext list" where
  "vetted_call S auth before m =
     [ExtStatic auth (SEL_ALLOWED S @ code_hash S before (sa_Target m)), ExtCall (sa_Target m) (sa_Cd m)]"

inductive vetted :: "sdk \<Rightarrow> Address \<Rightarrow> (ext list \<Rightarrow> bytes \<Rightarrow> bool) \<Rightarrow> ext list \<Rightarrow> SolveArgs list \<Rightarrow> ext list \<Rightarrow> bool"
  for S auth P where
  vetted_Nil: "vetted S auth P before [] calls"
| vetted_Cons: "P (before @ mid) (code_hash S (before @ mid) (sa_Target m)) \<Longrightarrow>
    vetted S auth P (before @ mid @ vetted_call S auth (before @ mid) m) ms rest \<Longrightarrow>
    vetted S auth P before (m # ms) (mid @ vetted_call S auth (before @ mid) m @ rest)"

section \<open>The proxy\<close>

datatype proxy_event = Upgraded Address | AdminChanged Address Address

text \<open>
  The constructor writes the fields of the account: the flag that it was created, the number
  of its keys, the first key where the account's library looks for it, its owner and its version.
\<close>

definition proxy_constructor :: "(bytes \<Rightarrow> word32) \<Rightarrow> word32 \<Rightarrow> word32 \<Rightarrow> Address \<Rightarrow> Address \<Rightarrow> word32 \<Rightarrow> storage \<times> proxy_event list" where
  "proxy_constructor keccak slot_impl slot_admin impl admin key =
     (let st = (\<lambda>_. U_ZERO)(slot_impl := zeros 12 @ impl, slot_admin := zeros 12 @ admin);
          st = plain_set 1 U_ONE (plain_set 0 U_ONE st);
          st = st(keccak (slot_no 2 @ slot_no 0) := key)
      in (plain_set 5 U_TWO (plain_set 3 (zeros 12 @ admin) st), [Upgraded impl, AdminChanged (zeros 20) admin]))"

datatype proxy_result = ProxyReturn bytes | ProxyRevert bytes | ProxyRevertMsg string

text \<open>
  The fallback, with the decoding of the upgrade's arguments and the delegated calls as
  parameters: the admin can do nothing but upgrade, everybody else reaches the implementation.
\<close>

definition msg_sig :: "bytes \<Rightarrow> bytes" where
  "msg_sig cd = take 4 (cd @ zeros 4)"

definition proxy_fallback :: "(Address \<Rightarrow> bytes \<Rightarrow> storage \<Rightarrow> bool \<times> bytes \<times> storage) \<Rightarrow> (bytes \<Rightarrow> (Address \<times> bytes) option)
    \<Rightarrow> bytes \<Rightarrow> word32 \<Rightarrow> word32 \<Rightarrow> Address \<Rightarrow> bytes \<Rightarrow> storage \<Rightarrow> proxy_result \<times> storage \<times> proxy_event list" where
  "proxy_fallback delegatecall abi_decode sel_upgrade slot_impl slot_admin sender cd st =
     (if sender = drop 12 (st slot_admin) then
        if msg_sig cd \<noteq> sel_upgrade then (ProxyRevertMsg ''not calling upgrade'', st, [])
        else case abi_decode (drop 4 cd) of
            None \<Rightarrow> (ProxyRevert [], st, [])
          | Some (newImpl, data) \<Rightarrow>
              let st1 = st(slot_impl := zeros 12 @ newImpl) in
              if data \<noteq> [] then
                (case delegatecall newImpl data st1 of (ok, rd, st2) \<Rightarrow>
                   if ok then (ProxyReturn [], st2, [Upgraded newImpl]) else (ProxyRevertMsg ''delegatecall failed'', st, []))
              else (ProxyReturn [], st1, [Upgraded newImpl])
      else case delegatecall (drop 12 (st slot_impl)) cd st of (ok, rd, st') \<Rightarrow>
        if ok then (ProxyReturn rd, st', []) else (ProxyRevert rd, st, []))"

section \<open>Spreading a payment\<close>

definition mass_addresses :: "nat list" where
  "mass_addresses =
    [0x3e2950e26596d8dd0e3b894876bb4295268e19c2,
     0xfac9b83e3c916046d65b37799751a1bac307e20a,
     0x8ff29119e1fcc27fc3f1ad614abc56f4363ffbaf,
     0x27552c9c31a0709cc1eff3be80d55efff6ab3218,
     0xefe50605bc890ee0ed0d5defb09dac4007bcad09,
     0xa3247c15e46d76810c2eba00e876cef788786c6d,
     0x460efb5f1874e3e1098c571cf660602e48b5a3d7,
     0xde9ca34184198d26cf6c3ee1d70242fbbc0479bf,
     0x8dc1ebfc8fb0e599a0671b9d5e6ef4989cb6202d,
     0x2aaae61561a5090732b5e2571734402404d04bcb,
     0x689c44c5e95459d94e05605a02601c306f0af869,
     0x9d45800bb804f844bbe48e5e271d019874481dcb,
     0x4972c172360df15647238f458ab78f03cb8f40d7,
     0x0e71c25a9cbe8aacbbac8066a0630216ac3e5ddf,
     0xcee8f0a263e7e1a42e166c93e203acb67c049af8,
     0x2446dfed464d377328b85bbbf8b5fbaa688cdf87,
     0x04f179bc3cf29ebc3489fb6038e1ff61b5986481,
     0x1163bc615c53dc63bab8773b2b2223c161141668,
     0xa4518e91b4738354aaf1e325d9169fa66a6f1658,
     0x82090d4400fa0b92c02b7096b1acdfd8b62b556b,
     0xfc997d3298a84f57a3d6e61999fe779ece331abd,
     0x6680db801281de6ba9b5c0e50b3dc4bf331f6c22,
     0xc17fbcaf52fd9061c68c3fad9d7f88d5816e2e81,
     0x077c5dfac3221adff2b84fb4d245000aa3bc0331,
     0x92f9ced097989885ca325e6b96519295942b3fd8,
     0x37bccbad5b4e675194d02b393eab56410b246443,
     0x28b088c5b35d5aa05d62d511e28bba731e79f003,
     0x3c46108da1a30a96c7dc97928b0dc36d1699d72f,
     0x2a87c51e853f86fdc4e585dddf7a084fd480c385,
     0xf8578359192cf311083afbd8c905d4c58f87680e,
     0x0e84ebe3f1b61d1ee07a866ed11f8264caeac9c6,
     0x9fdb7f1a5a38f3f459995866939667427fa70ebe,
     0x88c2a9b758a403b2d277fe5609d3b57d293e9099,
     0xb4ac8505b93ba4f158f4dd8c6154bb8e8d3a2caf,
     0xed684977da60195c63829493f9588a9bc5a31d20,
     0x473c1249522da9c20b7f708129fe83abca2e1635,
     0x649eb15da3d1268178d20f89c04c9096e7b042ac,
     0xfccbfd35019642c2595657a73a4db1b747eb7a28,
     0x46cc065eb7aa99fc49dd16830164fa872bc129aa,
     0xd4f1c7704a316141f6c175803c436f40b3c93309,
     0x422642d42fd2a71c7f27c7c4637834b845281dd6,
     0xab5a90717ba559a888568d58d3541f9328f00247,
     0xef56f364faf417d8b564bb61e6036a82aa67c52b,
     0x395628127a8f02ad3a68646f0a3252e326f021fc,
     0x26f1db91a07b124baedba9dc9691da1bfec4a114,
     0x037653f025eb5aa3da4581a6fd6a6163208e451e,
     0x8bb85d156fb7ccf43f4f378fa351a94a1e76084e,
     0x5dda53abbbcdd8febac5d0eeebd28fd264c77ff3,
     0xe6a188b0e70b2b137e6b5e2a0d4e0eb53a66996e,
     0x95940aa4c53a8ef817f4258c7342ef1501bb98c6,
     0x42720b76f0b462c2b6e91f7b5722b44a94c5fafe,
     0x0eeb5a016cda6d5a0e348f8e6ba9ee01735e7d18,
     0x7906e652e3f28aaf97e6a95e73016c38a3f7dd64,
     0x58cfc69192792014d0cd69e44c1a8fedb1b556ee,
     0xa1a56cc0eb6fae00a7947de240dc2d011f934ffe,
     0x5a82feb3e8530c754cc7ea0a88554c62b744a6fb,
     0x2fa38592e640afd258e7dc6af23ce7187eccbea4,
     0xf610b08c0a09cc84b66043c308b415f4f690a338,
     0x1a2a3b2ace615d6331f30ae381d865f82318efdc,
     0xacac34d3ab2c9b5a0b3c795d28adedd29475e5f3,
     0x87e0b162478c44508607977f4b8524ed915a4bc8,
     0x99fc9ae24d5afe4e8daaa35397e9bb07555afb47,
     0xaf8c131791981ed8079652238830a198c38f444e,
     0x4593ec83b91b4dfa08cc88cb6f3ff5cee6e00859,
     0x95af7006d329803d9e42eef8c0363d1a166496ab,
     0xb2b4b148414b9126d3ca8f29063510cc80ec4538,
     0x5da1d4dcdac16ee1951d06d8f23d379ef5cb6edb,
     0x5bdc17d94173365274fe770b4afad9001f9d9ec5,
     0x549d71f7f38f9062e23f63842e2e8acbc64817a0,
     0xdcf949a01e4eadafdfee939e306448ad46ade427,
     0x97d618f9c2ba7fa0f8066d60720f8fcb056e772a,
     0xbda269e42fe1f05bcb7536a394a89994180caf2b,
     0x5fc2e9a4a32e356ea8ead2e8ea4a6e058e042c81,
     0xeb0b87f29e4e87dcb99b1d82c84d3f49fb40be0e,
     0x383b5b2c85614d87872db55e20959aee88a2bbec,
     0xdc579d7ada98112e65dfc0466b5228b2e1216639,
     0xe788ae5f328d1aa3e2cba6e679a7687fe456d8d9,
     0xba0e8e4bb169597b6a39b2e94229036fcea76437,
     0x91ef0c24bcef479291dc1dd19ecba0cdcd6e0427,
     0xa85b23050a539efe83c46b44897030cf7821df26,
     0x5132d930838f7ada7b99d416397f994a09c7a45a,
     0x2cc7c2b48d646c109912f9878bf983e1c952beca,
     0x9ee32a231c875271aa4e92d46c76d86485d6224c,
     0x633673edd06611f5a07f061505bb2e23c27446c2,
     0x3ca501d95d8b05b59885f3786e9812811ebe44b0,
     0xb6e777df7adf09cf9930dca8cbbe700c265d3299,
     0x325e1d688fc79c9b46f9ac9bfb7d2e5548e074bf,
     0x054be355a4b8b41c067de519294d4df33b62b9f5,
     0x862cb54b444cf51f96f347979c0aeae1177fb440,
     0x4b3502f2ec58d7fbe10aebba3562891abaec1935,
     0x10f388da78a2f59b8c7e5c2aec31b77bb05c890d,
     0x8e9b5f8fa5ba428e961dfbccf27d819f00994240,
     0x8675de12aa7e1ea552ba44916b0947831409aa3f,
     0xf6e20f5b8dcf8eb632812fb50aaaeac06388655e,
     0xba81de71f4045d47ac916d9cb211a6fd977c4c7a,
     0x631d7fa773fc7e3c586669c15f91f1fe62cf0874,
     0xa81c287624e42a35ff5416cfc9adad2986f8f754,
     0x3261052f6baca822e58ce3344723c442596928d3,
     0xae0533fec5e73d2c68ba2bb020c7cd1ca187c5da,
     0xfd15367abc3b20bca8a213cb087b6715981ea501]"

text \<open>The loop: one transfer after the other, and a single failure reverts them all.\<close>

fun send_each :: "(nat \<Rightarrow> nat \<Rightarrow> 's \<Rightarrow> bool \<times> 's) \<Rightarrow> nat \<Rightarrow> nat list \<Rightarrow> 's \<Rightarrow> 's res" where
  "send_each pay val [] s = Ok s"
| "send_each pay val (a # as) s = (case pay a val s of (rc, s') \<Rightarrow>
     if rc then send_each pay val as s' else Err ''why did a contract revert'')"

definition massSend :: "(nat \<Rightarrow> nat \<Rightarrow> 's \<Rightarrow> bool \<times> 's) \<Rightarrow> nat \<Rightarrow> 's \<Rightarrow> 's res" where
  "massSend pay msg_value s = (let val = msg_value div 100 in send_each pay val mass_addresses s)"

text \<open>
  A call that carries value, on the balances of all addresses: it fails when the sender cannot cover
  it; otherwise the value moves and the recipient's code runs, which may refuse, and then nothing
  has moved. What that code does is \<open>code\<close>, with \<^const>\<open>None\<close> a revert.
\<close>

definition call_value :: "(nat \<Rightarrow> nat \<Rightarrow> (nat \<Rightarrow> nat) \<Rightarrow> (nat \<Rightarrow> nat) option) \<Rightarrow> nat \<Rightarrow> nat \<Rightarrow> nat \<Rightarrow> (nat \<Rightarrow> nat) \<Rightarrow> bool \<times> (nat \<Rightarrow> nat)" where
  "call_value code self a x b = (if b self < x then (False, b)
    else let b1 = b(self := b self - x) in case code a x (b1(a := b1 a + x)) of None \<Rightarrow> (False, b) | Some b' \<Rightarrow> (True, b'))"

section \<open>The clearinghouse\<close>

record PoolKey =
  pk_currency0 :: Address
  pk_currency1 :: Address
  pk_fee :: bytes
  pk_tick_spacing :: bytes
  pk_hooks :: Address

record QuoteExactSingleParams =
  q_pool_key :: PoolKey
  q_zero_for_one :: bool
  q_exact_amount :: nat
  q_hook_data :: bytes

datatype Entrypoint =
    EstimateEthValueCheckAccountsUniswap u8 bytes bytes nat
  | CleanHouse u8 bytes bytes nat

text \<open>
  What the contract takes from its libraries: reading its calldata, the assets, the layout
  of the quoter's calldata, and the call.
\<close>

record clearing =
  read_cd :: "bytes \<Rightarrow> Entrypoint res"
  Asset_try_from :: "u8 \<Rightarrow> Asset option"
  Asset_addr :: "Asset \<Rightarrow> Network \<Rightarrow> Address option"
  make_fn_quote_exact_input_zero_hooks :: "QuoteExactSingleParams \<Rightarrow> bytes"
  call_word :: "Address \<Rightarrow> bytes \<Rightarrow> bool \<times> word32"

definition UNISWAP_V4_QUOTER_ARBITRUM :: Address where
  "UNISWAP_V4_QUOTER_ARBITRUM = be_fixed 20 0x3972c00f7ed4885e145823eb7c655375d275a1c5"

definition UNISWAP_V4_QUOTER_ROBINHOOD :: Address where
  "UNISWAP_V4_QUOTER_ROBINHOOD = be_fixed 20 0x8dc178efb8111bb0973dd9d722ebeff267c98f94"

definition make_quote_calldata :: "clearing \<Rightarrow> Address \<Rightarrow> bytes \<Rightarrow> bytes \<Rightarrow> nat \<Rightarrow> bytes" where
  "make_quote_calldata C asset fee tick_spacing amt = make_fn_quote_exact_input_zero_hooks C
     \<lparr>q_pool_key = \<lparr>pk_currency0 = zeros 20, pk_currency1 = asset, pk_fee = fee, pk_tick_spacing = tick_spacing, pk_hooks = zeros 20\<rparr>,
      q_zero_for_one = False, q_exact_amount = amt, q_hook_data = []\<rparr>"

text \<open>The contract is built for one of two networks.\<close>

definition quoter_of :: "Network \<Rightarrow> Address" where
  "quoter_of net = (if net = Arbitrum then UNISWAP_V4_QUOTER_ARBITRUM else UNISWAP_V4_QUOTER_ROBINHOOD)"

definition expect :: "'a option \<Rightarrow> string \<Rightarrow> 'a res" where
  "expect v msg = (case v of None \<Rightarrow> Panic msg | Some x \<Rightarrow> Ok x)"

text \<open>The word it returns, if any, and the calls it makes.\<close>

definition clearing_entrypoint :: "clearing \<Rightarrow> Network \<Rightarrow> bytes \<Rightarrow> (word32 option \<times> (Address \<times> bytes) list) res" where
  "clearing_entrypoint C net cd = bindR (read_cd C cd) (\<lambda>e. case e of
       EstimateEthValueCheckAccountsUniswap asset fee tick_spacing amt \<Rightarrow>
         bindR (expect (Asset_try_from C asset) ''unknown asset'') (\<lambda>a.
         bindR (expect (Asset_addr C a net) ''asset is not supported on this network'') (\<lambda>asset_addr.
         let calldata = make_quote_calldata C asset_addr fee tick_spacing amt in
         case call_word C (quoter_of net) calldata of (rc, quote) \<Rightarrow>
           if rc then Ok (Some quote, [(quoter_of net, calldata)]) else Panic ''failed to call Uniswap quoter''))
     | CleanHouse asset fee tick_spacing min_amt \<Rightarrow> Ok (None, []))"

section \<open>Instances\<close>

text \<open>The admin's slot is none that the account uses.\<close>

definition admin_apart :: "sdk \<Rightarrow> word32 \<Rightarrow> bool" where
  "admin_apart S slot_admin \<longleftrightarrow> slot_admin \<noteq> SLOT_IMPL S \<and> (\<forall>m<7. slot_admin \<noteq> slot_no m) \<and>
     (\<forall>n\<in>{2, 4}. \<forall>k. slot_admin \<noteq> slot_map S (slot_no n) k) \<and> (\<forall>key. slot_admin \<noteq> guard_slot S key)"

text \<open>A chain on which all contracts have the same code, and an account bound to an authority that allows it.\<close>

definition auth_sdk :: sdk where
  "auth_sdk = ref_sdk\<lparr>code_hash := (\<lambda>calls a. U_ZERO)\<rparr>"

definition auth_storage :: storage where
  "auth_storage = authority_set (zeros 12 @ replicate 20 8) live_storage"

definition auth_ops :: "(Address \<times> authority_op) list" where
  "auth_ops = [(replicate 20 5, AuInit (replicate 20 3) (replicate 20 2)), (replicate 20 3, AuRegister U_ZERO True)]"

text \<open>The delegated calls of a proxy whose implementation is the account.\<close>

definition account_code :: "sdk \<Rightarrow> Network \<Rightarrow> Address \<Rightarrow> bytes \<Rightarrow> storage \<Rightarrow> bool \<times> bytes \<times> storage" where
  "account_code S net impl cd st = (case user_entrypoint S net cd st of
       (Ok (ret, calls), st') \<Rightarrow> (True, case ret of None \<Rightarrow> [] | Some w \<Rightarrow> w, st')
     | (r, st') \<Rightarrow> (False, [], st'))"

section \<open>Lemmas\<close>

subsection \<open>The authority\<close>

lemma authority_register_Ok:
  "authority_register sender h b a = Ok a' \<longleftrightarrow> sender = au_operator a \<and>
     a' = a\<lparr>au_Registered := au_Registered a @ [(h, b)], au_allowed := (au_allowed a)(h := b)\<rparr>"
  by (auto simp: authority_register_def)

lemma authority_scan_Ok:
  "authority_scan F sender a = Ok a' \<longleftrightarrow> sender = au_operator a \<and> (\<exists>h k. F (au_factory a) dppmTradingHash = Ok h \<and>
     F (au_factory a) ammTradingHash = Ok k \<and>
     a' = a\<lparr>au_Registered := au_Registered a @ [(h, True), (k, True)], au_allowed := (au_allowed a)(h := True, k := True)\<rparr>)"
  by (auto simp: authority_scan_def authority_register_Ok)

lemma authority_step_cases:
  assumes "authority_step (sender, op) a = a'"
  obtains (same) "a' = a"
  | (init) own factory where "op = AuInit own factory" "au_version a = 0"
      "a' = a\<lparr>au_operator := own, au_factory := factory, au_version := 1\<rparr>"
  | (register) hash allowed where "op = AuRegister hash allowed" "sender = au_operator a"
      "a' = a\<lparr>au_Registered := au_Registered a @ [(hash, allowed)], au_allowed := (au_allowed a)(hash := allowed)\<rparr>"
  | (scan) answers h k where "op = AuScan answers" "sender = au_operator a"
      "answers (au_factory a) dppmTradingHash = Ok h" "answers (au_factory a) ammTradingHash = Ok k"
      "a' = a\<lparr>au_Registered := au_Registered a @ [(h, True), (k, True)], au_allowed := (au_allowed a)(h := True, k := True)\<rparr>"
proof (cases op)
  case (AuInit own factory)
  then show thesis using assms init same by (auto simp: authority_init_def split: if_splits)
next
  case (AuRegister hash allowed)
  then show thesis using assms register same by (auto simp: authority_register_def split: if_splits)
next
  case (AuScan answers)
  show thesis
  proof (cases "authority_scan answers sender a")
    case (Ok a2)
    then have "a' = a2" using assms AuScan by simp
    then show thesis using Ok AuScan scan unfolding authority_scan_Ok by blast
  qed (use assms AuScan same in auto)
qed

text \<open>
  The invariant of the authority, when nobody calls from the zero address: nothing is allowed
  before it is set up, and what is allowed was allowed by its operator.
\<close>

lemma authority_invariant:
  assumes "\<forall>(sender, op)\<in>set ops. sender \<noteq> zeros 20" and "a = authority_run ops"
  shows "(au_version a = 0 \<longrightarrow> au_operator a = zeros 20 \<and> (\<forall>h. \<not> au_allowed a h)) \<and>
    (\<forall>h. au_allowed a h \<longrightarrow> (\<exists>op. (au_operator a, op) \<in> set ops \<and> allows (au_factory a) h op))"
  using assms
proof (induction ops arbitrary: a rule: rev_induct)
  case Nil
  then show ?case by (simp add: authority_run_def authority_new_def)
next
  case (snoc x ops)
  obtain sender op where x: "x = (sender, op)" by fastforce
  let ?b = "authority_run ops"
  have IH: "au_version ?b = 0 \<longrightarrow> au_operator ?b = zeros 20 \<and> (\<forall>h. \<not> au_allowed ?b h)"
    "\<And>h. au_allowed ?b h \<Longrightarrow> \<exists>op. (au_operator ?b, op) \<in> set ops \<and> allows (au_factory ?b) h op"
    using snoc.IH [OF _ refl] snoc.prems(1) by auto
  have "authority_step (sender, op) ?b = a" using snoc.prems(2) by (simp add: authority_run_def x del: authority_step.simps)
  moreover have "sender \<noteq> zeros 20" using snoc.prems(1) x by simp
  ultimately show ?case
  proof (cases rule: authority_step_cases)
    case same
    then show ?thesis using IH by auto
  next
    case (init own factory)
    then show ?thesis using IH(1) by simp
  next
    case (register h b)
    have "\<exists>op. (au_operator ?b, op) \<in> set (ops @ [x]) \<and> allows (au_factory ?b) k op" if "au_allowed a k" for k
    proof (cases "k = h \<and> b")
      case True
      then show ?thesis using register x by (intro exI [of _ op]) (simp add: allows_def)
    next
      case False
      then show ?thesis using IH(2) [of k] that register by (auto split: if_splits)
    qed
    then show ?thesis using IH(1) register \<open>sender \<noteq> zeros 20\<close> by auto
  next
    case (scan answers h k)
    have "\<exists>op. (au_operator ?b, op) \<in> set (ops @ [x]) \<and> allows (au_factory ?b) m op" if "au_allowed a m" for m
    proof (cases "m = h \<or> m = k")
      case True
      then have "allows (au_factory ?b) m op" using scan by (auto simp: allows_def)
      then show ?thesis using scan(2) x by (intro exI [of _ op]) simp
    next
      case False
      then show ?thesis using IH(2) [of m] that scan by (auto split: if_splits)
    qed
    then show ?thesis using IH(1) scan \<open>sender \<noteq> zeros 20\<close> by auto
  qed
qed

subsection \<open>An account bound to an authority\<close>

lemma vetted_skip:
  assumes "vetted S auth P (before @ xs) ms es"
  shows "vetted S auth P before ms (xs @ es)"
  using assms
proof cases
  case (vetted_Cons mid m ms' rest)
  then show ?thesis
    using vetted.vetted_Cons [of P before "xs @ mid" S m auth ms' rest] by simp
qed (simp add: vetted.vetted_Nil)

lemma vetted_mono:
  "vetted S auth P before ms calls \<Longrightarrow> (\<And>c h. P c h \<Longrightarrow> Q c h) \<Longrightarrow> vetted S auth Q before ms calls"
  by (induction rule: vetted.induct) (blast intro: vetted.intros)+

text \<open>
  A solve that goes through on an account with an authority: it asks about the code the target
  has, is answered yes, and calls the target.
\<close>

lemma solve_one_vetted:
  assumes "sdk_ok S" and "version_get (f_storage fr) = U_TWO" and "solve_one S net o1 o2 m fr = (Ok u, fr')"
    and "is_some (authority_get (f_storage fr))" and "U_addr S (authority_get (f_storage fr)) = auth"
    and "\<And>target fr b fr'. static_call_bool S auth (SEL_ALLOWED S @ code_hash S (f_calls fr) target) fr = (Ok b, fr') \<Longrightarrow>
      b = P (f_calls fr) (code_hash S (f_calls fr) target)"
  obtains mid post where "f_calls fr' = f_calls fr @ mid @ vetted_call S auth (f_calls fr @ mid) m @ post"
    "P (f_calls fr @ mid) (code_hash S (f_calls fr @ mid) (sa_Target m))"
proof -
  note call = sdk_okD(3) [OF assms(1)]
  obtain fr1 fr2 fr3 fr4 fr5 where
    ex: "timestamps_exchange S (U_from S (sa_MsTs m)) fr = (Ok (), fr1)"
    and pe: "for_each (solve_permit S net o1) (sa_Permit m) fr1 = (Ok (), fr2)"
    and ta: "for_each (solve_take S net o2 (sa_Target m)) (sa_From m) fr2 = (Ok (), fr3)"
    and au: "solve_authority S (sa_Target m) fr3 = (Ok (), fr4)"
    and tg: "solve_target S (sa_Target m) (sa_Cd m) fr4 = (Ok (), fr5)"
    and un: "for_each (solve_unspent S net) (sa_From m) fr5 = (Ok u, fr')"
    using assms(3) by (auto simp: solve_one_def bindM_Ok_iff)
  have "made S (map (permit_call S net o1) (sa_Permit m)) fr1 fr2"
    using made_for_each [OF solve_parts_made(1) [OF call] pe] by simp
  moreover have "made S (concat (map (take_calls S net o2 (sa_Target m)) (sa_From m))) fr2 fr3"
    using made_for_each [OF _ ta] solve_parts_made(2) [OF call] by blast
  ultimately have "\<exists>mid. made S mid fr fr3"
    using made_trans [OF exchange_made(1) [OF assms(1) ex] made_trans] by blast
  then obtain mid where mid: "f_calls fr3 = f_calls fr @ mid" "authority_get (f_storage fr3) = authority_get (f_storage fr)"
    using assms(2) by (auto simp: made_def frame_later_def later_def)
  then obtain where_to: "static_call_bool S auth (SEL_ALLOWED S @ code_hash S (f_calls fr3) (sa_Target m)) fr3 = (Ok True, fr4)"
    using au assms(4,5) by (auto simp: solve_authority_def is_allowed_def bindM_Ok_iff)
  have "made S [ExtStatic auth (SEL_ALLOWED S @ code_hash S (f_calls fr3) (sa_Target m))] fr3 fr4"
    by (rule made_call [OF calls_okD(6) [OF call] where_to])
  moreover have "made S (map (unspent_call S net) (sa_From m)) fr5 fr'"
    using made_for_each [OF solve_parts_made(4) [OF call] un] by simp
  ultimately have "\<exists>post. f_calls fr' = f_calls fr3 @ vetted_call S auth (f_calls fr3) m @ post"
    using solve_parts_made(3) [OF call tg] by (auto simp: made_def vetted_call_def)
  then show thesis using that assms(6) [OF where_to] unfolding mid(1) by auto
qed

lemma solves_vetted:
  assumes "sdk_ok S" and "version_get (f_storage fr) = U_TWO" and "for_each (solve_one S net o1 o2) ms fr = (Ok u, fr')"
    and "is_some (authority_get (f_storage fr))" and "U_addr S (authority_get (f_storage fr)) = auth"
    and "\<And>target fr b fr'. static_call_bool S auth (SEL_ALLOWED S @ code_hash S (f_calls fr) target) fr = (Ok b, fr') \<Longrightarrow>
      b = P (f_calls fr) (code_hash S (f_calls fr) target)"
  shows "\<exists>es. f_calls fr' = f_calls fr @ es \<and> vetted S auth P (f_calls fr) ms es"
  using assms(2,3,4,5)
proof (induction ms arbitrary: fr)
  case (Cons m ms)
  obtain fr1 where one: "solve_one S net o1 o2 m fr = (Ok (), fr1)" and rest: "for_each (solve_one S net o1 o2) ms fr1 = (Ok u, fr')"
    using Cons.prems(2) by (auto simp: bindM_Ok_iff)
  obtain mid post where calls: "f_calls fr1 = f_calls fr @ mid @ vetted_call S auth (f_calls fr @ mid) m @ post"
      and asked: "P (f_calls fr @ mid) (code_hash S (f_calls fr @ mid) (sa_Target m))"
    by (rule solve_one_vetted [where P = P, OF assms(1) Cons.prems(1) one Cons.prems(3,4) assms(6)])
  have "frame_later S fr fr1" using solve_one_later [OF assms(1)] one by (rule frame_fp.keepsD)
  then have "version_get (f_storage fr1) = U_TWO" "authority_get (f_storage fr1) = authority_get (f_storage fr)"
    using Cons.prems(1) by (simp_all add: frame_later_def later_def)
  then obtain es where es: "f_calls fr' = f_calls fr1 @ es" "vetted S auth P (f_calls fr1) ms es"
    using Cons.IH [OF _ rest] Cons.prems(3,4) by auto
  have "vetted S auth P (f_calls fr @ mid @ vetted_call S auth (f_calls fr @ mid) m) ms (post @ es)"
    using es(2) by (intro vetted_skip) (simp add: calls)
  from vetted_Cons [of P, OF asked this] es(1) show ?case by (auto simp: calls)
qed (simp add: vetted_Nil)

lemma guarded_run:
  assumes "sdk_ok S" and "reentrancy_guard_const_keccak S key m (start_frame st) = (Ok n, fr')"
  obtains fr'' where "m (start_frame (st(guard_slot S key := U_ONE))) = (Ok n, fr'')" "f_calls fr' = f_calls fr''"
proof (rule guard_OkD [OF assms])
  fix fr''
  assume "m (start_frame st\<lparr>f_storage := (f_storage (start_frame st))(guard_slot S key := U_ONE)\<rparr>) = (Ok n, fr'')"
    "fr' = fr''\<lparr>f_storage := (f_storage fr'')(guard_slot S key := U_ZERO)\<rparr>"
  then show thesis by (intro that [of fr'']) (simp_all add: start_frame_def)
qed

text \<open>Each kind of request that carries solves runs them, from a frame in which the account has its version and authority.\<close>

lemma request_runs_solves:
  assumes "sdk_ok S" and "entry S imm req (start_frame st) = (Ok n, fr')" and "version_get st = U_TWO" and "solves_of req \<noteq> []"
  obtains o1 o2 fr0 fr1 where "for_each (solve_one S (imm_network imm) o1 o2) (solves_of req) fr0 = (Ok (), fr1)"
    "version_get (f_storage fr0) = U_TWO" "authority_get (f_storage fr0) = authority_get st" "f_calls fr' = f_calls fr1"
proof (cases req)
  case (SolveReq args)
  note apart = slots_apart [OF sdk_okD(1) [OF assms(1)]]
  obtain fr'' where "entry_solve_v1 S imm args (start_frame (st(guard_slot S REENTRANCY_KEY := U_ONE))) = (Ok n, fr'')" "f_calls fr' = f_calls fr''"
    using guarded_run [OF assms(1)] assms(2) unfolding SolveReq entry.simps by blast
  then show thesis
    using that assms(3) SolveReq by (auto simp: entry_solve_v1_def entry_solve_Ok bindM_Ok_iff Let_def for_each_pure apart start_frame_def)
next
  case (SolveV2Req args sig)
  note apart = slots_apart [OF sdk_okD(1) [OF assms(1)]]
  obtain fr'' where "entry_solve_v2 S imm args sig (start_frame (st(guard_slot S REENTRANCY_KEY := U_ONE))) = (Ok n, fr'')" "f_calls fr' = f_calls fr''"
    using guarded_run [OF assms(1)] assms(2) unfolding SolveV2Req entry.simps by blast
  then show thesis
    using that assms(3) SolveV2Req by (auto simp: entry_solve_v2_def entry_solve_Ok bindM_Ok_iff apart start_frame_def)
next
  case (SolveV3Req args sig)
  note call = sdk_okD(3) [OF assms(1)]
  let ?o = "U_addr S (ethereum_owner_get st)"
  have "entry_solve_v3 S imm args sig (start_frame st) = (Ok n, fr')" using assms(2) SolveV3Req by simp
  then obtain fr0 where gas: "made S (gas_calls S imm ?o args) (start_frame st) fr0"
    and run: "for_each (solve_one S (imm_network imm) ?o ?o) (v3a_Args args) fr0 = (Ok (), fr')"
    unfolding entry_solve_v3_def Let_def bindM_Ok_iff get_storage_Ok signed_by_Ok unwrapM_Ok entry_solve_Ok
    by (auto dest: gas_made [OF call])
  then show thesis
    using that [of ?o ?o fr0 fr'] assms(3) SolveV3Req by (auto simp: made_def frame_later_def later_def start_frame_def)
qed (use assms(4) in simp_all)

lemma request_vetted:
  assumes "sdk_ok S" and "version_get st = U_TWO" and "request_of S data = Some req"
    and "user_entrypoint S net data st = (Ok (ret, calls), st')" and "is_some (authority_get st)" "U_addr S (authority_get st) = auth"
    and "\<And>target fr b fr'. static_call_bool S auth (SEL_ALLOWED S @ code_hash S (f_calls fr) target) fr = (Ok b, fr') \<Longrightarrow>
      b = P (f_calls fr) (code_hash S (f_calls fr) target)"
  shows "vetted S auth P [] (solves_of req) calls"
proof (cases "solves_of req = []")
  case False
  show ?thesis
    using assms(1,4)
  proof (cases rule: user_entrypoint_cases)
    case (ok n fr')
    then have run: "entry S (contract_imm net) req (start_frame st) = (Ok n, fr')"
      using request_dispatch(1) [OF assms(3), of "contract_imm net"] by simp
    obtain o1 o2 fr0 fr1 where solves: "for_each (solve_one S (imm_network (contract_imm net)) o1 o2) (solves_of req) fr0 = (Ok (), fr1)"
      and fr0: "version_get (f_storage fr0) = U_TWO" "authority_get (f_storage fr0) = authority_get st" "f_calls fr' = f_calls fr1"
      by (rule request_runs_solves [OF assms(1) run assms(2) False])
    have "is_some (authority_get (f_storage fr0))" "U_addr S (authority_get (f_storage fr0)) = auth"
      using assms(5,6) fr0(2) by simp_all
    then have "\<exists>es. f_calls fr1 = f_calls fr0 @ es \<and> vetted S auth P (f_calls fr0) (solves_of req) es"
      by (rule solves_vetted [where P = P, OF assms(1) fr0(1) solves]) (rule assms(7))
    then show ?thesis using vetted_skip [of S auth P "[]"] ok(3) fr0(3) by fastforce
  qed (use request_dispatch(2) [OF assms(3)] in simp_all)
qed (simp add: vetted_Nil)

lemma auth_sdk_ok: "sdk_ok auth_sdk"
proof -
  have "later auth_sdk = later ref_sdk" by (intro ext) (simp add: later_def map_get_def auth_sdk_def)
  then have "layout_ok auth_sdk = layout_ok ref_sdk" "guard_ok auth_sdk = guard_ok ref_sdk" "calls_ok auth_sdk = calls_ok ref_sdk"
    by (simp_all only: layout_ok_def guard_ok_def calls_ok_def one_call_def) (simp_all add: auth_sdk_def)
  moreover have "storage_exchange auth_sdk = storage_exchange ref_sdk" "flush_guard auth_sdk = flush_guard ref_sdk"
    "revert_if_bad_call_unit_vec auth_sdk = revert_if_bad_call_unit_vec ref_sdk"
    "revert_if_bad_call_slice_vec auth_sdk = revert_if_bad_call_slice_vec ref_sdk" "read_words4 auth_sdk = read_words4 ref_sdk"
    "U_from auth_sdk = U_from ref_sdk" "U_addr auth_sdk = U_addr ref_sdk" "SEL_MIGRATE auth_sdk = SEL_MIGRATE ref_sdk"
    by (simp_all add: auth_sdk_def)
  ultimately have "sdk_ok auth_sdk = sdk_ok ref_sdk" by (simp only: sdk_ok_def)
  with ref_sdk_ok show ?thesis by (rule iffD2 [rotated])
qed

lemma auth_willing: "willing auth_sdk"
proof -
  have "call_unit_err_vec auth_sdk = call_unit_err_vec ref_sdk" "safe_call_bool_err_vec auth_sdk = safe_call_bool_err_vec ref_sdk"
    "safe_call_unit_err_vec auth_sdk = safe_call_unit_err_vec ref_sdk" "call_word_err_vec auth_sdk = call_word_err_vec ref_sdk"
    "static_call_bool auth_sdk = static_call_bool ref_sdk"
    by (simp_all add: auth_sdk_def)
  then have "willing auth_sdk = willing ref_sdk" by (simp only: willing_def)
  with ref_willing show ?thesis by (rule iffD2 [rotated])
qed

lemma auth_run:
  "\<exists>out st'. user_entrypoint auth_sdk Arbitrum ref_v2_data auth_storage = (Ok out, st')"
proof -
  note apart = slots_apart [OF sdk_okD(1) [OF ref_sdk_ok]]
  have gets: "map_get auth_sdk = map_get ref_sdk" "nonces_of auth_sdk (SolveV2Req ref_v2 sig) = nonces_of ref_sdk (SolveV2Req ref_v2 sig)" for sig
    by (auto simp: auth_sdk_def map_get_def intro!: ext)
  have st: "unlocked auth_sdk auth_storage" "ed25519_slot_get ref_sdk U_ZERO auth_storage = replicate 32 4" "timestamps_get ref_sdk k auth_storage = U_ZERO" for k
    using live_gets(4) by (simp_all add: auth_storage_def unlocked_def apart live_gets auth_sdk_def)
  have "known_assets auth_sdk = known_assets ref_sdk" by (intro ext) (simp add: known_assets_def auth_sdk_def)
  then have "list_all (known_assets auth_sdk Arbitrum) (v2a_Args ref_v2)" "verified auth_sdk (replicate 32 4) (WireSolveV2Args ref_v2) (replicate 64 97)"
    using ref_v2_known ref_v2_verified by (simp_all add: verified_def) (simp add: auth_sdk_def)
  moreover have "list_all (\<lambda>n. timestamps_get ref_sdk n auth_storage = U_ZERO) ns" for ns by (simp add: st list_all_iff)
  ultimately obtain fr' where "entry auth_sdk (contract_imm Arbitrum) (SolveV2Req ref_v2 (replicate 64 97)) (start_frame auth_storage) = (Ok 0, fr')"
    using solve_v2_runs [OF auth_sdk_ok auth_willing st(1), of Arbitrum ref_v2 "replicate 64 97"]
    by (auto simp: gets st ref_v2_def)
  moreover have "request_of auth_sdk ref_v2_data = Some (SolveV2Req ref_v2 (replicate 64 97))"
    using ref_v2_request by (simp add: auth_sdk_def request_of_def split: if_splits)
  ultimately show ?thesis using user_entrypoint_OkI [OF auth_sdk_ok] by blast
qed

subsection \<open>The proxy\<close>

lemma proxy_storage:
  assumes "layout_ok S" and "admin_apart S slot_admin" and "keccak (slot_no 2 @ slot_no 0) = slot_map S (slot_no 2) U_ZERO"
    and "st = fst (proxy_constructor keccak (SLOT_IMPL S) slot_admin impl admin key)"
  shows "version_get st = U_TWO" "ed25519_slot_get S U_ZERO st = key" "ethereum_owner_get st = zeros 12 @ admin" "unlocked S st"
    "timestamps_get S k st = U_ZERO" "authority_get st = U_ZERO" "st (SLOT_IMPL S) = zeros 12 @ impl" "st slot_admin = zeros 12 @ admin"
proof -
  note lay = layoutD [OF assms(1)] layoutD [OF assms(1), symmetric]
  have apart: "slot_admin \<noteq> SLOT_IMPL S" "m < 7 \<Longrightarrow> slot_admin \<noteq> slot_no m" "n \<in> {2, 4} \<Longrightarrow> slot_admin \<noteq> slot_map S (slot_no n) k"
    "slot_admin \<noteq> guard_slot S key" for m n k key
    using assms(2) by (auto simp: admin_apart_def)
  note simps = proxy_constructor_def Let_def slot_defs assms(3) lay apart apart [symmetric] slot_no_inj unlocked_def
  show "version_get st = U_TWO" "ed25519_slot_get S U_ZERO st = key" "ethereum_owner_get st = zeros 12 @ admin" "unlocked S st"
    "timestamps_get S k st = U_ZERO" "authority_get st = U_ZERO" "st (SLOT_IMPL S) = zeros 12 @ impl" "st slot_admin = zeros 12 @ admin"
    unfolding assms(4) by (simp_all add: simps)
qed

lemma user_entrypoint_fail: "sdk_ok S \<Longrightarrow> \<not> is_ok (fst (user_entrypoint S net data st)) \<Longrightarrow> snd (user_entrypoint S net data st) = st"
  by (auto simp: user_entrypoint_def split: prod.splits res.splits)

subsection \<open>Payments and quotes\<close>

text \<open>
  Whatever the recipients' code does with the other balances, a run whose total is covered ends
  badly only through a recipient that refuses, and leaves all that was not sent.
\<close>

lemma send_each_covered:
  assumes "\<And>a b b'. code a x b = Some b' \<Longrightarrow> b self \<le> b' self" and "self \<notin> set as" and "length as * x \<le> b self"
  shows "(\<exists>b'. send_each (call_value code self) x as b = Ok b' \<and> b self \<le> b' self + length as * x) \<or>
    (send_each (call_value code self) x as b = Err ''why did a contract revert'' \<and> (\<exists>a\<in>set as. \<exists>b1. code a x b1 = None))"
  using assms(2,3)
proof (induction as arbitrary: b)
  case (Cons a as)
  define b1 where "b1 = (b(self := b self - x))(a := b a + x)"
  have c: "call_value code self a x b = (case code a x b1 of None \<Rightarrow> (False, b) | Some b' \<Rightarrow> (True, b'))"
    using Cons.prems by (auto simp: call_value_def b1_def Let_def)
  show ?case
  proof (cases "code a x b1")
    case (Some b')
    have "b self - x \<le> b' self" using assms(1) [OF Some] Cons.prems by (simp add: b1_def)
    then have le: "length as * x \<le> b' self" and mono: "b' self \<le> n + length as * x \<Longrightarrow> b self \<le> n + length (a # as) * x" for n
      using Cons.prems by simp_all
    have "send_each (call_value code self) x (a # as) b = send_each (call_value code self) x as b'" using Some c by simp
    then show ?thesis using Cons.IH [of b'] le Cons.prems(1) mono by (auto 4 3)
  qed (use c in auto)
qed simp

lemma send_each_refused:
  assumes "a \<in> set as" and "\<And>b1. code a x b1 = None"
  shows "send_each (call_value code self) x as b = Err ''why did a contract revert''"
proof -
  have "call_value code self a x b = (False, b)" for b by (simp add: call_value_def Let_def assms(2))
  with assms(1) show ?thesis by (induction as arbitrary: b) (auto split: prod.split)
qed

lemma send_each_plain:
  assumes "\<And>a b1. a \<in> set as \<Longrightarrow> code a x b1 = Some b1" and "distinct as" and "self \<notin> set as" and "length as * x \<le> b self"
  shows "send_each (call_value code self) x as b =
    Ok (\<lambda>a. if a = self then b self - length as * x else if a \<in> set as then b a + x else b a)"
  using assms
proof (induction as arbitrary: b)
  case (Cons a as)
  define b1 where "b1 = (b(self := b self - x))(a := b a + x)"
  have c: "call_value code self a x b = (True, b1)" using Cons.prems by (auto simp: call_value_def b1_def Let_def)
  have "send_each (call_value code self) x as b1 =
      Ok (\<lambda>a. if a = self then b1 self - length as * x else if a \<in> set as then b1 a + x else b1 a)"
    using Cons.prems by (intro Cons.IH) (auto simp: b1_def)
  then show ?case using Cons.prems c by (auto simp: b1_def fun_eq_iff)
qed (auto simp: fun_eq_iff)

lemma mass_addresses_distinct: "length mass_addresses = 100" "distinct mass_addresses"
  by (simp_all add: mass_addresses_def)

text \<open>The clearinghouse calls nothing but the quoter, and returns a word exactly when it has.\<close>

lemma clearing_calls_quoter:
  assumes "clearing_entrypoint C net cd = Ok (ret, calls)"
  shows "list_all (\<lambda>(to, d). to = quoter_of net) calls \<and> length calls \<le> 1 \<and> (ret = None \<longleftrightarrow> calls = [])"
proof -
  obtain e where e: "read_cd C cd = Ok e" using assms by (auto simp: clearing_entrypoint_def)
  show ?thesis
    using assms by (cases e) (auto simp: clearing_entrypoint_def e Let_def case_prod_beta split: if_split_asm)
qed

section \<open>Properties\<close>

text \<open>
  C20. An account bound to the authority of \<^verbatim>\<open>Authority9lives\<close> runs solves only against code that the
  authority's operator has allowed. Whichever of the three kinds of solve request goes through,
  each of its solves was vetted: at once before the call of its target the account asked about the
  code the target had at that moment, and that code was registered by a call of the operator,
  directly or by a scan, with the answers the factory gave that scan. The authority may have had any
  calls by anybody but the zero address, and may be called on between two questions of the same
  request. Permits and
  transfers of tokens are no targets and are not asked about.
\<close>

theorem authority_enforced:
  assumes "sdk_ok S" and "version_get st = U_TWO" and "authority_get st = zeros 12 @ auth" and "length auth = 20" "auth \<noteq> zeros 20"
    and "\<And>calls sender op. (sender, op) \<in> set (ops calls) \<Longrightarrow> sender \<noteq> zeros 20"
    and "\<And>target fr b fr'. static_call_bool S auth (SEL_ALLOWED S @ code_hash S (f_calls fr) target) fr = (Ok b, fr') \<Longrightarrow>
      b = au_allowed (authority_run (ops (f_calls fr))) (code_hash S (f_calls fr) target)"
    and "request_of S data = Some req" and "user_entrypoint S net data st = (Ok (ret, calls), st')"
  shows "vetted S auth (\<lambda>calls. operator_allowed (ops calls)) [] (solves_of req) calls"
proof -
  have "is_some (authority_get st)" using assms(3,5) by (auto simp: is_some_def U_ZERO_append)
  moreover have "U_addr S (authority_get st) = auth" using sdk_okD(10) [OF assms(1,4)] assms(3) by simp
  ultimately have "vetted S auth (\<lambda>calls. au_allowed (authority_run (ops calls))) [] (solves_of req) calls"
    by (rule request_vetted [OF assms(1,2,8,9)]) (rule assms(7))
  moreover have "operator_allowed (ops c) h" if "au_allowed (authority_run (ops c)) h" for c h
    using authority_invariant [OF _ refl, of "ops c"] assms(6) that unfolding operator_allowed_def by blast
  ultimately show ?thesis by (rule vetted_mono)
qed

theorem authority_enforced_witness:
  "\<exists>ret calls st'. user_entrypoint auth_sdk Arbitrum ref_v2_data auth_storage = (Ok (ret, calls), st') \<and>
     vetted auth_sdk (replicate 20 8) (\<lambda>calls. operator_allowed auth_ops) [] [ref_solve] calls"
proof -
  note apart = slots_apart [OF sdk_okD(1) [OF ref_sdk_ok]]
  have st: "version_get auth_storage = U_TWO" "authority_get auth_storage = zeros 12 @ replicate 20 8"
    by (simp_all add: auth_storage_def apart live_gets)
  have ops: "\<And>sender op. (sender, op) \<in> set auth_ops \<Longrightarrow> sender \<noteq> zeros 20" "replicate 20 (8 :: u8) \<noteq> zeros 20"
    by (auto simp: auth_ops_def zeros_def replicate_eq_replicate)
  have ans: "b = au_allowed (authority_run auth_ops) (code_hash auth_sdk (f_calls fr) target)"
    if "static_call_bool auth_sdk (replicate 20 8) (SEL_ALLOWED auth_sdk @ code_hash auth_sdk (f_calls fr) target) fr = (Ok b, fr')" for target fr b fr'
    using that by (simp add: auth_sdk_def ref_sdk_def ref_call_def authority_run_def auth_ops_def authority_new_def authority_init_def authority_register_def)
  have req: "request_of auth_sdk ref_v2_data = Some (SolveV2Req ref_v2 (replicate 64 97))"
    using ref_v2_request by (simp add: auth_sdk_def request_of_def split: if_splits)
  obtain ret calls st' where run: "user_entrypoint auth_sdk Arbitrum ref_v2_data auth_storage = (Ok (ret, calls), st')"
    using auth_run by (metis prod.exhaust)
  from authority_enforced [where ops = "\<lambda>_. auth_ops", OF auth_sdk_ok st(1,2) _ ops(2) ops(1) ans req run] run show ?thesis
    by (auto simp: ref_v2_def)
qed

text \<open>
  C19. A proxy is an account from the start. After its constructor, with the account's code as the
  implementation and a slot for the admin apart from the account's, whatever anybody but the admin
  sends it is answered as the account's code answers it, on the proxy's storage: what the account
  returns is returned, what it refuses is reverted, and the key, owner and version the constructor
  was given stay. In particular a second-version batch signed by that key is accepted when its
  values are distinct, its assets are known on the network and the contracts it calls do what they
  are asked. The admin gets through with nothing but an upgrade.
\<close>

theorem proxy_is_account:
  assumes "sdk_ok S" and "admin_apart S slot_admin" and "keccak (slot_no 2 @ slot_no 0) = slot_map S (slot_no 2) U_ZERO"
    and "st = fst (proxy_constructor keccak (SLOT_IMPL S) slot_admin impl admin key)"
    and "\<And>cd st. delegatecall impl cd st = account_code S net impl cd st"
  shows "(\<forall>sender data. sender \<noteq> admin \<longrightarrow>
      (\<exists>r st'. proxy_fallback delegatecall abi_decode sel (SLOT_IMPL S) slot_admin sender data st = (r, st', []) \<and>
        r = (case fst (user_entrypoint S net data st) of
            Ok (ret, calls) \<Rightarrow> ProxyReturn (case ret of None \<Rightarrow> [] | Some w \<Rightarrow> w) | _ \<Rightarrow> ProxyRevert []) \<and>
        st' = snd (user_entrypoint S net data st) \<and>
        version_get st' = U_TWO \<and> ed25519_slot_get S U_ZERO st' = key \<and> ethereum_owner_get st' = zeros 12 @ admin)) \<and>
    (\<forall>sender data args sig. sender \<noteq> admin \<longrightarrow> request_of S data = Some (SolveV2Req args sig) \<longrightarrow>
      verified S key (WireSolveV2Args args) sig \<longrightarrow> distinct (nonces_of S (SolveV2Req args sig)) \<longrightarrow>
      list_all (known_assets S net) (v2a_Args args) \<longrightarrow> willing S \<longrightarrow>
      (\<exists>rd. fst (proxy_fallback delegatecall abi_decode sel (SLOT_IMPL S) slot_admin sender data st) = ProxyReturn rd)) \<and>
    (\<forall>cd. msg_sig cd \<noteq> sel \<longrightarrow>
      proxy_fallback delegatecall abi_decode sel (SLOT_IMPL S) slot_admin admin cd st = (ProxyRevertMsg ''not calling upgrade'', st, []))"
proof (intro conjI allI impI)
  note gets = proxy_storage [OF sdk_okD(1) [OF assms(1)] assms(2,3,4)]
  have forwards: "proxy_fallback delegatecall abi_decode sel (SLOT_IMPL S) slot_admin sender data st =
      (case fst (user_entrypoint S net data st) of
        Ok (ret, calls) \<Rightarrow> ProxyReturn (case ret of None \<Rightarrow> [] | Some w \<Rightarrow> w) | _ \<Rightarrow> ProxyRevert [],
       snd (user_entrypoint S net data st), [])" if "sender \<noteq> admin" for sender data
    using that user_entrypoint_fail [OF assms(1), of net data st]
    by (cases "user_entrypoint S net data st"; cases "fst (user_entrypoint S net data st)")
      (auto simp: proxy_fallback_def gets(7,8) assms(5) account_code_def)
  {
    fix sender data assume "sender \<noteq> admin"
    have "later S st (snd (user_entrypoint S net data st))" by (rule user_entrypoint_later [OF assms(1)]) (rule prod.collapse [symmetric])
    then show "\<exists>r st'. proxy_fallback delegatecall abi_decode sel (SLOT_IMPL S) slot_admin sender data st = (r, st', []) \<and>
        r = (case fst (user_entrypoint S net data st) of
            Ok (ret, calls) \<Rightarrow> ProxyReturn (case ret of None \<Rightarrow> [] | Some w \<Rightarrow> w) | _ \<Rightarrow> ProxyRevert []) \<and>
        st' = snd (user_entrypoint S net data st) \<and>
        version_get st' = U_TWO \<and> ed25519_slot_get S U_ZERO st' = key \<and> ethereum_owner_get st' = zeros 12 @ admin"
      using forwards [OF \<open>sender \<noteq> admin\<close>] gets(1,2,3) by (simp add: later_def)
  }
  {
    fix sender data args sig
    assume "sender \<noteq> admin" and req: "request_of S data = Some (SolveV2Req args sig)" and "verified S key (WireSolveV2Args args) sig"
      and batch: "distinct (nonces_of S (SolveV2Req args sig))" "list_all (known_assets S net) (v2a_Args args)" "willing S"
    then have "verified S (ed25519_slot_get S U_ZERO st) (WireSolveV2Args args) sig"
      "list_all (\<lambda>n. timestamps_get S n st = U_ZERO) (nonces_of S (SolveV2Req args sig))"
      using gets(2,5) by (simp_all add: list_all_iff)
    then obtain fr' where "entry S (contract_imm net) (SolveV2Req args sig) (start_frame st) = (Ok 0, fr')"
      using solve_v2_runs [OF assms(1) batch(3) gets(4) batch(2) _ batch(1)] by blast
    from user_entrypoint_OkI [OF assms(1) req this]
    show "\<exists>rd. fst (proxy_fallback delegatecall abi_decode sel (SLOT_IMPL S) slot_admin sender data st) = ProxyReturn rd"
      using forwards [OF \<open>sender \<noteq> admin\<close>] by simp
  }
  show "proxy_fallback delegatecall abi_decode sel (SLOT_IMPL S) slot_admin admin cd st = (ProxyRevertMsg ''not calling upgrade'', st, [])"
    if "msg_sig cd \<noteq> sel" for cd
    using that by (simp add: proxy_fallback_def gets(8))
qed

theorem proxy_is_account_witness:
  "\<exists>rd. fst (proxy_fallback (account_code ref_sdk Arbitrum) (\<lambda>_. None) [1, 2, 3, 4] (SLOT_IMPL ref_sdk) [9] (replicate 20 5) ref_v2_data
     (fst (proxy_constructor ((#) 0) (SLOT_IMPL ref_sdk) [9] (replicate 20 7) (replicate 20 6) (replicate 32 4)))) = ProxyReturn rd"
proof -
  have k: "(#) 0 (slot_no 2 @ slot_no 0) = slot_map ref_sdk (slot_no 2) U_ZERO"
    using be_fixed_be_value [of "zeros 32" 32] by (simp add: ref_sdk_def slot_no_def U_ZERO_def)
  have "[9 :: u8] \<noteq> be_fixed 32 m" for m by (rule notI, drule arg_cong [where f = length]) simp
  then have a: "admin_apart ref_sdk [9]" by (simp add: admin_apart_def ref_sdk_def slot_no_def)
  have d: "distinct (nonces_of ref_sdk (SolveV2Req ref_v2 (replicate 64 97)))" by (simp add: ref_v2_def)
  have ne: "replicate 20 (5 :: u8) \<noteq> replicate 20 6" by (simp add: replicate_eq_replicate)
  show ?thesis
    using proxy_is_account [where keccak = "(#) 0" and delegatecall = "account_code ref_sdk Arbitrum" and impl = "replicate 20 7" and
        abi_decode = "\<lambda>_. None" and sel = "[1, 2, 3, 4]", OF ref_sdk_ok a k refl refl,
        THEN conjunct2, THEN conjunct1, rule_format, OF ne ref_v2_request ref_v2_verified d ref_v2_known ref_willing] .
qed

text \<open>
  C38. A payment is spread evenly or not at all. The contract has been credited with the payment,
  is none of its hundred recipients, and no recipient's code can take from its balance; calls that
  carry value behave as \<^const>\<open>call_value\<close> says. Then the call fails only because some recipient
  refused, never for lack of funds, and one that always refuses makes it fail; when it succeeds
  the contract still has all it had before the payment and the rest of the division by a hundred.
  When the recipients are plain addresses, each gets the hundredth part, rounded down, exactly
  once, the contract is left with exactly that rest more than before, and nobody else's balance moves.
\<close>

theorem mass_send_even:
  assumes "\<And>a x b b'. code a x b = Some b' \<Longrightarrow> b self \<le> b' self" and "self \<notin> set mass_addresses" and "v \<le> b self"
  shows "((\<exists>b'. massSend (call_value code self) v b = Ok b' \<and> (b self - v) + v mod 100 \<le> b' self) \<or>
      (massSend (call_value code self) v b = Err ''why did a contract revert'' \<and>
        (\<exists>a\<in>set mass_addresses. \<exists>b1. code a (v div 100) b1 = None))) \<and>
    ((\<exists>a\<in>set mass_addresses. \<forall>b1. code a (v div 100) b1 = None) \<longrightarrow>
      massSend (call_value code self) v b = Err ''why did a contract revert'') \<and>
    ((\<forall>a\<in>set mass_addresses. \<forall>b1. code a (v div 100) b1 = Some b1) \<longrightarrow>
      massSend (call_value code self) v b = Ok (\<lambda>a. if a = self then (b self - v) + v mod 100
        else if a \<in> set mass_addresses then b a + v div 100 else b a))"
proof -
  have total: "length mass_addresses * (v div 100) = v - v mod 100" by (simp add: mass_addresses_distinct minus_mod_eq_mult_div)
  have le: "length mass_addresses * (v div 100) \<le> b self" using assms(3) unfolding total by simp
  have rest: "b self - length mass_addresses * (v div 100) = (b self - v) + v mod 100"
    using assms(3) mod_less_eq_dividend [of v 100] unfolding total by linarith
  have covered: "(\<exists>b'. send_each (call_value code self) (v div 100) mass_addresses b = Ok b' \<and> b self \<le> b' self + length mass_addresses * (v div 100)) \<or>
      (send_each (call_value code self) (v div 100) mass_addresses b = Err ''why did a contract revert'' \<and>
        (\<exists>a\<in>set mass_addresses. \<exists>b1. code a (v div 100) b1 = None))"
    by (rule send_each_covered) (rule assms le, assumption?)+
  note plain = send_each_plain [where b = b and x = "v div 100" and code = code and self = self, OF _ mass_addresses_distinct(2) assms(2) le]
  have keep: "b self \<le> n + length mass_addresses * (v div 100) \<Longrightarrow> (b self - v) + v mod 100 \<le> n" for n using rest by linarith
  show ?thesis unfolding massSend_def Let_def
  proof (intro conjI impI, goal_cases)
    case 1 then show ?case using covered keep by blast
  next
    case 2 then show ?case by (blast intro: send_each_refused)
  next
    case 3 then show ?case using plain unfolding rest by blast
  qed
qed

theorem mass_send_even_witness:
  "massSend (call_value (\<lambda>a x b. Some b) 5) 250 (\<lambda>a. if a = 5 then 300 else 7) =
     Ok (\<lambda>a. if a = 5 then 100 else if a \<in> set mass_addresses then 9 else 7) \<and>
   massSend (call_value (\<lambda>a x b. if a = mass_addresses ! 3 then None else Some b) 5) 250 (\<lambda>a. 300) =
     Err ''why did a contract revert''"
proof -
  have self: "5 \<notin> set mass_addresses" and mem: "mass_addresses ! 3 \<in> set mass_addresses"
    using nth_mem [of 3 mass_addresses] by (simp_all add: mass_addresses_def)
  let ?b = "\<lambda>a :: nat. if a = 5 then 300 else 7 :: nat" and ?refuse = "\<lambda>a x b. if a = mass_addresses ! 3 then None else Some b"
  have "massSend (call_value (\<lambda>a x b. Some b) 5) 250 ?b =
      Ok (\<lambda>a. if a = 5 then ?b 5 - 250 + 250 mod 100 else if a \<in> set mass_addresses then ?b a + 250 div 100 else ?b a)"
    by (rule mass_send_even [THEN conjunct2, THEN conjunct2, rule_format]) (simp_all add: self)
  moreover have "massSend (call_value ?refuse 5) 250 (\<lambda>a. 300) = Err ''why did a contract revert''"
  proof (rule mass_send_even [THEN conjunct2, THEN conjunct1, rule_format])
    show "\<exists>a\<in>set mass_addresses. \<forall>b1. ?refuse a (250 div 100 :: nat) b1 = None" using mem by auto
  qed (simp_all add: self split: if_split_asm)
  ultimately show ?thesis using self by (auto simp: fun_eq_iff)
qed

end
