(* ===== verification/Legacy.thy ===== *)
theory Legacy
  imports Database
begin

text \<open>
  The functions of \<^verbatim>\<open>db/migrations\<close> that later migrations replaced: the random choice of a
  sender key and the first two versions of the nonces of a secret. A number of a \<^verbatim>\<open>SERIAL\<close>
  column that was drawn stays drawn when the statement fails; everything else is undone.
\<close>

section \<open>Sender keys\<close>

text \<open>\<^verbatim>\<open>ORDER BY last_accessed ASC\<close> puts \<^verbatim>\<open>NULL\<close> last; \<^verbatim>\<open>perm\<close> is the order the rows come in.\<close>

definition accessed :: "key_row \<Rightarrow> bool" where
  "accessed r \<longleftrightarrow> last_accessed r \<noteq> SqlNull"

fun time_of :: "sql_time \<Rightarrow> nat" where
  "time_of (SqlTime t) = t"
| "time_of SqlNull = 0"

definition by_last_accessed :: "key_row list \<Rightarrow> key_row list" where
  "by_last_accessed ks = sort_key (\<lambda>r. time_of (last_accessed r)) (filter accessed ks) @ filter (\<lambda>r. \<not> accessed r) ks"

definition accounts_get_private_key_1 :: "(key_row list \<Rightarrow> key_row list) \<Rightarrow> nat \<Rightarrow> nat \<Rightarrow> key_row list \<Rightarrow> string option \<times> key_row list" where
  "accounts_get_private_key_1 perm random now ks =
     (let total_rows = length ks in
      if 0 < total_rows then
        (let random_offset = random mod min 5 total_rows;
             r = by_last_accessed (perm ks) ! random_offset
         in (Some (pad_char 64 (private_key r)), touch_key now (key_id r) ks))
      else (None, ks))"

section \<open>Secrets and nonces\<close>

record old_secret =
  os_id :: nat
  os_eoa :: string
  os_priv_key :: string
  os_salt :: string
  os_valid_until :: nat

record old_nonce =
  on_id :: nat
  on_secret_id :: nat
  on_consumed_nonce :: i32

record old_db =
  od_secrets :: "old_secret list"
  od_nonces :: "old_nonce list"
  od_next_secret :: nat
  od_next_nonce :: nat

abbreviation old_conflict :: string where
  "old_conflict \<equiv> ''pq: duplicate key value violates unique constraint \"accounts_secrets_nonces_1_secret_id_consumed_nonce_idx\"''"

text \<open>
  \<^verbatim>\<open>SELECT ... INTO\<close> takes the first of the rows, in an order the statement leaves open;
  \<^verbatim>\<open>tie\<close> says which.
\<close>

definition insert_nonce :: "(old_secret \<Rightarrow> bool) \<Rightarrow> nat \<Rightarrow> i32 \<Rightarrow> (old_db, nat) gm" where
  "insert_nonce found tie nonce d = (let rs = filter found (od_secrets d) in
     if rs = [] then (Err ''pq: address not found'', d)
     else let v_secret_id = os_id (rs ! (tie mod length rs)); v_nonce_id = od_next_nonce d; d' = d\<lparr>od_next_nonce := Suc v_nonce_id\<rparr> in
       if list_ex (\<lambda>r. on_secret_id r = v_secret_id \<and> on_consumed_nonce r = nonce) (od_nonces d)
       then (Err old_conflict, d')
       else (Ok v_nonce_id, d'\<lparr>od_nonces := od_nonces d @
         [\<lparr>on_id = v_nonce_id, on_secret_id = v_secret_id, on_consumed_nonce = nonce\<rparr>]\<rparr>))"

definition accounts_insert_nonce_1 :: "nat \<Rightarrow> string \<Rightarrow> i32 \<Rightarrow> (old_db, nat) gm" where
  "accounts_insert_nonce_1 tie eoa nonce = insert_nonce (\<lambda>r. os_eoa r = bpchar eoa) tie nonce"

definition accounts_insert_nonce_2 :: "nat \<Rightarrow> nat \<Rightarrow> string \<Rightarrow> i32 \<Rightarrow> (old_db, nat) gm" where
  "accounts_insert_nonce_2 now tie eoa nonce = insert_nonce (\<lambda>r. os_eoa r = bpchar eoa \<and> now < os_valid_until r) tie nonce"

definition insert_old_secret :: "nat \<Rightarrow> string \<Rightarrow> string \<Rightarrow> string \<Rightarrow> old_db \<Rightarrow> old_db" where
  "insert_old_secret until eoa priv_key salt d = d\<lparr>od_next_secret := Suc (od_next_secret d), od_secrets := od_secrets d @
     [\<lparr>os_id = od_next_secret d, os_eoa = bpchar eoa, os_priv_key = bpchar priv_key, os_salt = bpchar salt, os_valid_until = until\<rparr>]\<rparr>"

text \<open>Both combined functions, around the version of the first step they perform.\<close>

definition insert_nonce_secret :: "(old_db, nat) gm \<Rightarrow> pg \<Rightarrow> string \<Rightarrow> string \<Rightarrow> string \<Rightarrow> (old_db, unit) gm" where
  "insert_nonce_secret perform E eoa priv_key salt =
     bindM (liftR (as_char 42 eoa)) (\<lambda>_. bindM (liftR (as_char 64 priv_key)) (\<lambda>_. bindM (liftR (as_char 32 salt)) (\<lambda>_.
     bindM perform (\<lambda>_. modifyM (insert_old_secret (pg_month E (pg_now E)) eoa priv_key salt)))))"

definition accounts_insert_nonce_secret_1 :: "pg \<Rightarrow> string \<Rightarrow> string \<Rightarrow> i32 \<Rightarrow> string \<Rightarrow> (old_db, unit) gm" where
  "accounts_insert_nonce_secret_1 E eoa priv_key nonce salt =
     insert_nonce_secret (accounts_insert_nonce_1 (pg_tie E) eoa nonce) E eoa priv_key salt"

definition accounts_insert_nonce_secret_2 :: "pg \<Rightarrow> string \<Rightarrow> string \<Rightarrow> i32 \<Rightarrow> string \<Rightarrow> (old_db, unit) gm" where
  "accounts_insert_nonce_secret_2 E eoa priv_key nonce salt =
     insert_nonce_secret (accounts_insert_nonce_2 (pg_now E) (pg_tie E) eoa nonce) E eoa priv_key salt"

text \<open>The constraint of the schema, and that a statement keeps it.\<close>

definition old_ok :: "old_db \<Rightarrow> bool" where
  "old_ok d \<longleftrightarrow> distinct (map (\<lambda>r. (on_secret_id r, on_consumed_nonce r)) (od_nonces d))"

definition old_kept :: "old_db \<Rightarrow> old_db \<Rightarrow> bool" where
  "old_kept d d' \<longleftrightarrow> (old_ok d \<longrightarrow> old_ok d')"

definition old_example :: old_db where
  "old_example = insert_old_secret 5000 ''a'' ''k'' ''s'' \<lparr>od_secrets = [], od_nonces = [], od_next_secret = 1, od_next_nonce = 1\<rparr>"

section \<open>Lemmas\<close>

lemma touch_key_id [simp]: "map key_id (touch_key now i ks) = map key_id ks"
  by (simp add: touch_key_def)

text \<open>
  With five keys in use the random choice never takes a key that was not used before, so a key
  added later is never taken at all; the function that replaced it takes such keys first.
\<close>

lemma new_key_starves:
  assumes "mset (perm ks) = mset ks" and "distinct (map key_id ks)" and "5 \<le> length (filter accessed ks)"
    and "accounts_get_private_key_1 perm random now ks = (k, ks')" and "r \<in> set ks" "\<not> accessed r"
  shows "r \<in> set ks'"
proof -
  let ?used = "filter accessed (perm ks)"
  let ?i = "random mod min 5 (length ks)"
  let ?p = "by_last_accessed (perm ks) ! ?i"
  have len: "length ?used = length (filter accessed ks)" using assms(1) by (metis mset_filter size_mset)
  have "ks \<noteq> []" using assms(3) by auto
  then have "?i < 5" by (meson less_le_trans min.cobounded1 mod_less_divisor min_less_iff_conj length_greater_0_conv zero_less_numeral)
  then have "?p = sort_key (\<lambda>r. time_of (last_accessed r)) ?used ! ?i" "?i < length (sort_key (\<lambda>r. time_of (last_accessed r)) ?used)"
    using assms(3) len by (simp_all add: by_last_accessed_def nth_append)
  then have "?p \<in> set ?used" by (metis nth_mem set_sort)
  then have p: "?p \<in> set ks" "accessed ?p" using assms(1) by (auto dest: mset_eq_setD)
  have "key_id r \<noteq> key_id ?p" using assms(2,5,6) p by (metis distinct_map inj_on_def)
  moreover have "ks' = touch_key now (key_id ?p) ks" using assms(4) \<open>ks \<noteq> []\<close> by (auto simp: accounts_get_private_key_1_def Let_def)
  ultimately show ?thesis using assms(5) by (auto simp: touch_key_def image_iff intro!: bexI [of _ r])
qed

text \<open>The unique index holds, but it is on a secret and not on an address.\<close>

interpretation old_fp: footprint old_kept
  by unfold_locales (auto simp: old_kept_def)

lemma insert_nonce_kept: "keeps old_kept (insert_nonce found tie nonce)"
  by (auto simp: keeps_def old_kept_def insert_nonce_def old_ok_def Let_def list_ex_iff)

lemma insert_old_secret_kept: "keeps old_kept (modifyM (insert_old_secret until eoa priv_key salt))"
  by (simp add: keeps_def old_kept_def old_ok_def insert_old_secret_def)

lemma old_functions_keep:
  "keeps old_kept (accounts_insert_nonce_secret_1 E eoa priv_key nonce salt)"
  "keeps old_kept (accounts_insert_nonce_secret_2 E eoa priv_key nonce salt)"
  unfolding accounts_insert_nonce_secret_1_def accounts_insert_nonce_secret_2_def accounts_insert_nonce_1_def
    accounts_insert_nonce_2_def insert_nonce_secret_def
  by (intro old_fp.keeps_bindM old_fp.keeps_liftR insert_nonce_kept insert_old_secret_kept)+

text \<open>
  So a nonce could be used twice: the first use adds a secret, and the second finds the nonce
  unused with that one. The index on address and nonce of the third version refuses this.
\<close>

lemma old_nonce_reused:
  "\<exists>d' d''. accounts_insert_nonce_secret_2 ref_pg ''a'' ''k'' 7 ''s'' old_example = (Ok (), d') \<and>
     accounts_insert_nonce_secret_2 (ref_pg\<lparr>pg_tie := 1\<rparr>) ''a'' ''k'' 7 ''s'' d' = (Ok (), d'')"
  by (simp add: accounts_insert_nonce_secret_2_def insert_nonce_secret_def accounts_insert_nonce_2_def insert_nonce_def
      insert_old_secret_def old_example_def bindM_def as_char_def ref_pg_def Let_def)

end
