(* ===== verification/Spec2Isabelle.thy ===== *)
theory Spec2Isabelle
  imports Introspection Scheduling Tools Ratelimit Cli Solidity Legacy
begin

text \<open>
  A verification of the accounts service of Superposition: the GraphQL server that creates
  accounts and acts for their owners, the contracts at the other end of its transactions, and
  the programs around them. Paths are relative to \<^verbatim>\<open>src\<close>.

  \<^bold>\<open>The program.\<close> A request reaches the HTTP server (\<^verbatim>\<open>main.go\<close>), whose middleware reads a secret
  from its \<^verbatim>\<open>Authorization\<close> header and looks it up in the database (\<^verbatim>\<open>db/migrations\<close>, \<^verbatim>\<open>lib/db\<close>).
  The executor gqlgen has generated (\<^verbatim>\<open>graph/generated.go\<close>) decodes the arguments and runs the
  resolvers (\<^verbatim>\<open>graph/schema.resolvers.go\<close>). These turn strings into the records of the contract
  interface (\<^verbatim>\<open>lib/convertor\<close>, \<^verbatim>\<open>lib/types\<close>, \<^verbatim>\<open>lib/ninelives\<close>), have an external program sign them
  (\<^verbatim>\<open>ed25519-dalek-ph\<close>), and send a transaction (\<^verbatim>\<open>lib/client\<close>) to the account factory or, through
  the safety router (\<^verbatim>\<open>sol/SafetyRouter.huff\<close>), to the account of the owner
  (\<^verbatim>\<open>superposition_libaccounts\<close>, \<^verbatim>\<open>contract\<close>). Light accounts (\<^verbatim>\<open>sol/LiteAccount.huff\<close>) come from
  their own factory and are driven from the command line (\<^verbatim>\<open>accounts-cli\<close>). Owners and operators
  use the programs under \<^verbatim>\<open>tools\<close>.

  \<^bold>\<open>Foundations.\<close>
  \<^item> \<^verbatim>\<open>Prelude\<close>: bytes, machine words, the four outcomes of a call (a value, an error, a panic, the end of
    the process), state-passing operations, and the interface \<^verbatim>\<open>footprint\<close> of what an operation may change.
  \<^item> \<^verbatim>\<open>GoStd\<close>, \<^verbatim>\<open>Sha512\<close>: what the code uses of the standard library of Go, SHA-512 included.
  \<^item> \<^verbatim>\<open>Types\<close>, \<^verbatim>\<open>Borsh\<close>: the structures of \<^verbatim>\<open>lib/types/types.go\<close> and \<^verbatim>\<open>graph/model\<close>; the Borsh format with the
    interface \<^verbatim>\<open>codec\<close>, interpreted on every structure, as the law of the serialiser the code calls.
  \<^item> \<^verbatim>\<open>Libs\<close>: the libraries the server calls, as a record of parameters with their documented behaviour
    (\<^verbatim>\<open>geth_ok\<close>, \<^verbatim>\<open>abi_ok\<close>) and an instance that meets it.

  \<^bold>\<open>The server.\<close>
  \<^item> \<^verbatim>\<open>Proxy\<close>, \<^verbatim>\<open>Ninelives\<close>, \<^verbatim>\<open>Convertor\<close>: account addresses, calldata, and every builder of a request; what is
    signed determines what was asked for, and each parser's errors and panics.
  \<^item> \<^verbatim>\<open>Database\<close>, \<^verbatim>\<open>Legacy\<close>: tables as lists of rows, one definition per SQL function and embedded statement,
    steps and their invariant; secrets and nonces as interfaces (\<^verbatim>\<open>secret_store\<close>, \<^verbatim>\<open>token_store\<close>); rotation of
    the sender keys; the functions later migrations replaced.
  \<^item> \<^verbatim>\<open>Client\<close>: \<^verbatim>\<open>Send\<close> and \<^verbatim>\<open>SendArguments\<close> with the interface \<^verbatim>\<open>broadcaster\<close>; the gas margin computed in
    floating point.
  \<^item> \<^verbatim>\<open>Resolvers\<close>, \<^verbatim>\<open>Handlers\<close>: the four mutations and four queries on a world of tables, sent transactions and
    alarms; what each of them does and for whom.
  \<^item> \<^verbatim>\<open>Server\<close>: \<^verbatim>\<open>main\<close> and \<^verbatim>\<open>authMiddleware.ServeHTTP\<close>, against an abstract specification.
  \<^item> \<^verbatim>\<open>Inputs\<close>, \<^verbatim>\<open>Executor\<close>, \<^verbatim>\<open>Scheduling\<close>, \<^verbatim>\<open>Complexity\<close>, \<^verbatim>\<open>Introspection\<close>: the generated executor: decoding, the root
    objects and \<^verbatim>\<open>Exec\<close>, the independence of the answer from the order of concurrent fields, the cost of fields,
    and introspection. The interface \<^verbatim>\<open>served\<close> carries a footprint of the resolvers through the executor to whole
    requests, from which the history of the service is bounded.
  \<^item> \<^verbatim>\<open>Ratelimit\<close>: the goroutine of the limiter as a state machine, against counting.

  \<^bold>\<open>The contracts.\<close>
  \<^item> \<^verbatim>\<open>AccountSdk\<close>, \<^verbatim>\<open>Account\<close>, \<^verbatim>\<open>AccountLife\<close>: the account contract on its storage and the calls it makes; every entry
    point, what an accepted request has done, and the life of an account over any sequence of calls.
  \<^item> \<^verbatim>\<open>Evm\<close>, \<^verbatim>\<open>Huff\<close>: an assembler and an interpreter for the instructions the Huff contracts use, the two
    contracts instruction by instruction, and their specifications.
  \<^item> \<^verbatim>\<open>Router\<close>: from the mutation at the server through the router to the calls of the account.
  \<^item> \<^verbatim>\<open>Lite\<close>: the bytes of \<^verbatim>\<open>sol/LiteFactory.sol\<close> are the assembled contract; the life of a light account.
  \<^item> \<^verbatim>\<open>Solidity\<close>: \<^verbatim>\<open>Authority9lives\<close>, \<^verbatim>\<open>UpgradeableProxy\<close>, \<^verbatim>\<open>MassSendArbitrum\<close> and the clearinghouse contract;
    an account bound to an authority runs only vetted code, a proxy answers as the account does, a payment is spread
    evenly or not at all.

  \<^bold>\<open>The programs.\<close>
  \<^item> \<^verbatim>\<open>Signer\<close>: \<^verbatim>\<open>ed25519-dalek-ph\<close> and \<^verbatim>\<open>tools/ed25519-priv-to-pub\<close>; the law the server relies on in the signer
    follows from that of the signature library.
  \<^item> \<^verbatim>\<open>Cli\<close>: every command of \<^verbatim>\<open>accounts-cli\<close>; what it prints is accepted by the contracts.
  \<^item> \<^verbatim>\<open>Tools\<close>: the four Go programs under \<^verbatim>\<open>tools\<close>; what they print is accepted by the server.

  \<^bold>\<open>Correspondence.\<close> A definition has the name of the function it translates, with a prefix where two functions of
  the code share one (\<^verbatim>\<open>object_Type\<close> for \<^verbatim>\<open>___Type\<close>, \<^verbatim>\<open>intro_Type_ofType\<close> for \<^verbatim>\<open>___Type_ofType\<close>). A handler is one
  definition with every branch of the code, in its order. Structures are records, and fixed arrays are lists of bytes
  whose lengths the well-formedness predicates state. An error, a panic and \<^verbatim>\<open>log.Fatalf\<close> are three different outcomes. The
  database, the node, the signer, the clock and the contracts an account calls are arguments, so that the theorems hold for
  every behaviour of theirs that the named hypotheses allow; where a hypothesis is needed, an instance (\<^verbatim>\<open>ref_libs\<close>,
  \<^verbatim>\<open>ref_sdk\<close>, \<^verbatim>\<open>ref_gql\<close>, \<^verbatim>\<open>ref_machine\<close>, \<^verbatim>\<open>ref_dalek\<close>) shows that it can hold.

  \<^bold>\<open>Bounds and fuel.\<close> Two interpreters take fuel. That of the Huff contracts counts instructions: the contracts have no
  loops, so 50 are enough for the router, 130 for the light account and 20 for its constructor on every input, which
  \<^verbatim>\<open>router_halts\<close>, \<^verbatim>\<open>lite_account_exact\<close> and \<^verbatim>\<open>factory_deploys\<close> prove rather than assume. Introspection takes the depth of
  nested calls: one more than the depth of the selection is enough on any schema, \<^verbatim>\<open>introspection_ends\<close>. Everything else is
  total. Integers of the code keep their width (\<^verbatim>\<open>uint64\<close> gas, \<^verbatim>\<open>int32\<close> nonces, words of the machine modulo \<open>2 ^ 256\<close>);
  \<^verbatim>\<open>big.Int\<close> is \<^typ>\<open>int\<close>.

  \<^bold>\<open>Not modelled.\<close>
  \<^item> Library code: the accept loop and transports of \<^verbatim>\<open>net/http\<close> and gqlgen, go-ethereum, bobcat-sdk, borsh, clap, the
    Ed25519 and hex crates, PostgreSQL beyond the statements used. They are parameters.
  \<^item> Logging, which no result depends on, and gas, beyond its limit in a transaction.
  \<^item> The \<^verbatim>\<open>@defer\<close> bookkeeping of the generated objects: no field is ever put in a deferred group.
  \<^item> \<^verbatim>\<open>UnmarshalJSON\<close> and \<^verbatim>\<open>MarshalJSON\<close> of \<^verbatim>\<open>Asset\<close>, which nothing calls; the parsers from strings and the statement
    signer of \<^verbatim>\<open>superposition_libaccounts\<close>, which only client programs use.
  \<^item> The table of the last migration, which no code reads and whose statement is not accepted; \<^verbatim>\<open>SocialVault.sol\<close>,
    which is empty; \<^verbatim>\<open>call_mass_send.rs\<close>, which no crate compiles.
  \<^item> Concurrency between requests: a history is a sequence of whole requests, each in its own environment. Within a
    request the order of concurrent fields is modelled.
\<close>

end
